(* ===== verification/F64.thy ===== *)
theory F64
  imports Complex_Main "HOL-Library.Log_Nat" "HOL-Library.Code_Target_Numeral"
begin

text \<open>
  The arithmetic of Rust's \<open>f64\<close>.

  A finite double is a rational number, so a value of type \<open>f64\<close> is modelled by the
  rational it denotes, and comparisons (\<open><\<close>, \<open>\<le>\<close>, \<open>min\<close>, \<open>max\<close>, \<open>floor\<close>, \<open>ceil\<close>) are the
  ones of the rationals. Every arithmetic operation is the exact operation followed by
  \<open>round_f64\<close>: IEEE 754 round-to-nearest, ties to even, with a 53-bit significand and
  gradual underflow (unit in the last place never below \<open>2 powi (-1074)\<close>).
  Infinities and NaN are not values of the model. No quantity of the modelled code comes
  near the overflow threshold \<open>2 powi 1024\<close>; the one place where the code divides by a
  double that can be zero is written out where it occurs (theory RateLimit).
\<close>

section \<open>Rounding a rational to an integer, ties to even\<close>

definition round_half_even :: "rat \<Rightarrow> int" where
  "round_half_even x =
     (let f = \<lfloor>x\<rfloor>; r = x - of_int f
      in if r < 1 / 2 then f else if 1 / 2 < r then f + 1 else if even f then f else f + 1)"

lemma round_half_even_of_int [simp]: "round_half_even (of_int n) = n"
  by (simp add: round_half_even_def)

lemma round_half_even_cases: "round_half_even x = \<lfloor>x\<rfloor> \<or> round_half_even x = \<lfloor>x\<rfloor> + 1"
  by (auto simp: round_half_even_def Let_def)

lemma round_half_even_mono: "x \<le> y \<Longrightarrow> round_half_even x \<le> round_half_even y"
proof -
  assume le: "x \<le> y"
  then have fl: "\<lfloor>x\<rfloor> \<le> \<lfloor>y\<rfloor>" by (rule floor_mono)
  show ?thesis
  proof (cases "\<lfloor>x\<rfloor> = \<lfloor>y\<rfloor>")
    case True
    with le show ?thesis by (auto simp: round_half_even_def Let_def)
  next
    case False
    with fl have "\<lfloor>x\<rfloor> + 1 \<le> \<lfloor>y\<rfloor>" by simp
    moreover have "round_half_even x \<le> \<lfloor>x\<rfloor> + 1" using round_half_even_cases [of x] by auto
    moreover have "\<lfloor>y\<rfloor> \<le> round_half_even y" using round_half_even_cases [of y] by auto
    ultimately show ?thesis by simp
  qed
qed

section \<open>The binary exponent of a positive rational\<close>

definition bin_exp :: "rat \<Rightarrow> int" where
  "bin_exp x =
     (let pq = quotient_of x; k = bitlen (fst pq) - bitlen (snd pq)
      in if 2 powi k \<le> x then k else k - 1)"

lemma powi_less_iff: "(2 :: rat) powi a < 2 powi b \<longleftrightarrow> a < b"
proof
  show "a < b" if "(2 :: rat) powi a < 2 powi b"
  proof (rule ccontr)
    assume "\<not> a < b"
    then have "(2 :: rat) powi b \<le> 2 powi a" by (intro power_int_increasing) auto
    with that show False by simp
  qed
qed (intro power_int_strict_increasing, auto)

lemma powi_le_iff: "(2 :: rat) powi a \<le> 2 powi b \<longleftrightarrow> a \<le> b"
  by (simp add: powi_less_iff flip: not_less)

lemma powi_bitlen_bounds:
  assumes "0 < n"
  shows "2 powi (bitlen n - 1) \<le> (of_int n :: rat)" and "(of_int n :: rat) < 2 powi (bitlen n)"
proof -
  have b: "2 ^ nat (bitlen n - 1) \<le> n" "n < 2 ^ nat (bitlen n)"
    using bitlen_bounds [OF assms] by auto
  have pos: "0 < bitlen n"
  proof (rule ccontr)
    assume "\<not> 0 < bitlen n"
    with b(2) assms show False by simp
  qed
  have "(2 ^ nat (bitlen n - 1) :: rat) \<le> of_int n"
    using b(1) by (metis of_int_le_iff of_int_numeral of_int_power)
  then show "2 powi (bitlen n - 1) \<le> (of_int n :: rat)"
    using pos by (simp add: power_int_def)
  have "(of_int n :: rat) < 2 ^ nat (bitlen n)"
    using b(2) by (metis of_int_less_iff of_int_numeral of_int_power)
  then show "(of_int n :: rat) < 2 powi (bitlen n)"
    using pos by (simp add: power_int_def)
qed

lemma bin_exp_bounds:
  assumes "0 < x"
  shows "2 powi (bin_exp x) \<le> x" and "x < 2 powi (bin_exp x + 1)"
proof -
  obtain p q where pq: "quotient_of x = (p, q)" by (cases "quotient_of x") auto
  have q: "0 < q" using pq by (rule quotient_of_denom_pos)
  have x: "x = of_int p / of_int q" using pq by (rule quotient_of_div)
  with assms q have p: "0 < p" by (simp add: zero_less_divide_iff)
  note P = powi_bitlen_bounds [OF p] and Q = powi_bitlen_bounds [OF q]
  let ?k = "bitlen p - bitlen q"
  have q': "(0 :: rat) < of_int q" using q by simp
  have hi: "x < 2 powi (?k + 1)"
  proof -
    have "x < 2 powi (bitlen p) / of_int q"
      using P(2) q' by (simp add: x divide_strict_right_mono)
    also have "\<dots> \<le> 2 powi (bitlen p) / 2 powi (bitlen q - 1)"
      using Q(1) by (intro divide_left_mono) (auto intro!: mult_pos_pos q')
    also have "\<dots> = 2 powi (?k + 1)"
      by (simp flip: power_int_diff add: algebra_simps)
    finally show ?thesis .
  qed
  have lo: "2 powi (?k - 1) \<le> x"
  proof -
    have "(2 powi (?k - 1) :: rat) = 2 powi (bitlen p - 1) / 2 powi (bitlen q)"
      by (simp flip: power_int_diff add: algebra_simps)
    also have "\<dots> \<le> 2 powi (bitlen p - 1) / of_int q"
      using Q(2) by (intro divide_left_mono) (auto intro!: mult_pos_pos q' less_imp_le)
    also have "\<dots> \<le> x"
      using P(1) q' by (simp add: x divide_right_mono)
    finally show ?thesis .
  qed
  have "bin_exp x = (if 2 powi ?k \<le> x then ?k else ?k - 1)"
    by (simp add: bin_exp_def pq Let_def)
  with hi lo show "2 powi (bin_exp x) \<le> x" and "x < 2 powi (bin_exp x + 1)"
    by (auto split: if_splits)
qed

lemma bin_exp_mono: "0 < x \<Longrightarrow> x \<le> y \<Longrightarrow> bin_exp x \<le> bin_exp y"
proof -
  assume x: "0 < x" and le: "x \<le> y"
  then have "(2 :: rat) powi (bin_exp x) < 2 powi (bin_exp y + 1)"
    using bin_exp_bounds(1) [OF x] bin_exp_bounds(2) [of y] by simp
  then show ?thesis by (simp add: powi_less_iff)
qed

section \<open>Rounding to double precision\<close>

text \<open>The exponent of the unit in the last place of a positive \<open>x\<close>.\<close>

definition ulp_exp :: "rat \<Rightarrow> int" where
  "ulp_exp x = max (bin_exp x - 52) (- 1074)"

definition round_pos :: "rat \<Rightarrow> rat" where
  "round_pos x = of_int (round_half_even (x / 2 powi (ulp_exp x))) * 2 powi (ulp_exp x)"

definition round_f64 :: "rat \<Rightarrow> rat" where
  "round_f64 x = (if x = 0 then 0 else if 0 < x then round_pos x else - round_pos (- x))"

lemma round_pos_le_pow:
  assumes "x \<le> 2 powi k" and "ulp_exp x \<le> k"
  shows "round_pos x \<le> 2 powi k"
proof -
  let ?u = "2 powi (ulp_exp x) :: rat"
  have u: "0 < ?u" by simp
  have e: "(2 powi k :: rat) / ?u = of_int (2 ^ nat (k - ulp_exp x))"
    using assms(2) by (simp flip: power_int_diff) (simp add: power_int_def)
  have "x / ?u \<le> of_int (2 ^ nat (k - ulp_exp x))"
    unfolding e [symmetric] using assms(1) u by (simp add: divide_right_mono)
  then have "round_half_even (x / ?u) \<le> 2 ^ nat (k - ulp_exp x)"
    by (metis round_half_even_mono round_half_even_of_int)
  then have "(of_int (round_half_even (x / ?u)) :: rat) \<le> 2 powi k / ?u"
    by (metis e of_int_le_iff)
  then show ?thesis using u by (simp add: round_pos_def pos_le_divide_eq)
qed

lemma round_pos_ge_pow:
  assumes "2 powi k \<le> x" and "ulp_exp x \<le> k"
  shows "2 powi k \<le> round_pos x"
proof -
  let ?u = "2 powi (ulp_exp x) :: rat"
  have u: "0 < ?u" by simp
  have e: "(2 powi k :: rat) / ?u = of_int (2 ^ nat (k - ulp_exp x))"
    using assms(2) by (simp flip: power_int_diff) (simp add: power_int_def)
  have "of_int (2 ^ nat (k - ulp_exp x)) \<le> x / ?u"
    unfolding e [symmetric] using assms(1) u by (simp add: divide_right_mono)
  then have "2 ^ nat (k - ulp_exp x) \<le> round_half_even (x / ?u)"
    by (metis round_half_even_mono round_half_even_of_int)
  then have "2 powi k / ?u \<le> (of_int (round_half_even (x / ?u)) :: rat)"
    by (metis e of_int_le_iff)
  then show ?thesis using u by (simp add: round_pos_def pos_divide_le_eq)
qed

lemma round_pos_mono:
  assumes x: "0 < x" and le: "x \<le> y"
  shows "round_pos x \<le> round_pos y"
proof (cases "ulp_exp x = ulp_exp y")
  case True
  have "x / 2 powi (ulp_exp y) \<le> y / 2 powi (ulp_exp y)"
    using le by (simp add: divide_right_mono)
  then show ?thesis
    by (simp add: round_pos_def True round_half_even_mono)
next
  case False
  have y: "0 < y" using x le by simp
  have k: "bin_exp x \<le> bin_exp y" using x le by (rule bin_exp_mono)
  with False have e: "ulp_exp y = bin_exp y - 52" "ulp_exp x < ulp_exp y" "bin_exp x < bin_exp y"
    by (auto simp: ulp_exp_def max_def split: if_splits)
  have "x \<le> 2 powi (bin_exp x + 1)" using bin_exp_bounds(2) [OF x] by simp
  also have "(2 powi (bin_exp x + 1) :: rat) \<le> 2 powi (bin_exp y)"
    using e(3) by (intro power_int_increasing) auto
  finally have "round_pos x \<le> 2 powi (bin_exp y)"
    using e by (intro round_pos_le_pow) auto
  also have "\<dots> \<le> round_pos y"
    using bin_exp_bounds(1) [OF y] e(1) by (intro round_pos_ge_pow) auto
  finally show ?thesis .
qed

lemma round_pos_nonneg: "0 < x \<Longrightarrow> 0 \<le> round_pos x"
  using round_half_even_mono [of 0 "x / 2 powi (ulp_exp x)"] round_half_even_of_int [of 0]
  by (simp add: round_pos_def)

theorem round_f64_mono: "x \<le> y \<Longrightarrow> round_f64 x \<le> round_f64 y"
proof -
  assume le: "x \<le> y"
  consider "0 < x" | "x = 0" | "x < 0" "0 \<le> y" | "x < 0" "y < 0" by linarith
  then show ?thesis
  proof cases
    case 1 with le show ?thesis by (simp add: round_f64_def round_pos_mono)
  next
    case 2 with le show ?thesis by (auto simp: round_f64_def round_pos_nonneg)
  next
    case 3
    have "0 \<le> round_pos (- x)" using 3 by (intro round_pos_nonneg) simp
    moreover have "0 \<le> round_f64 y" using 3(2) by (auto simp: round_f64_def round_pos_nonneg)
    ultimately show ?thesis using 3 by (simp add: round_f64_def)
  next
    case 4 with le show ?thesis by (simp add: round_f64_def round_pos_mono)
  qed
qed

lemma round_pos_exact:
  assumes m: "0 < m" "m \<le> 2 ^ 53" and e: "- 1074 \<le> e"
  shows "round_pos (of_int m * 2 powi e) = of_int m * 2 powi e"
proof -
  let ?x = "of_int m * 2 powi e :: rat"
  have x: "0 < ?x" using m by simp
  have lo: "2 powi (bin_exp ?x) \<le> ?x" using x by (rule bin_exp_bounds)
  have int: "\<exists>n. ?x / 2 powi (ulp_exp ?x) = of_int n"
  proof (cases "ulp_exp ?x \<le> e")
    case True
    have "?x / 2 powi (ulp_exp ?x) = of_int m * 2 powi (e - ulp_exp ?x)"
      by (simp add: power_int_diff)
    also have "\<dots> = of_int (m * 2 ^ nat (e - ulp_exp ?x))"
      using True by (simp add: power_int_def)
    finally show ?thesis by blast
  next
    case False
    with e have u: "ulp_exp ?x = bin_exp ?x - 52" by (simp add: ulp_exp_def max_def split: if_splits)
    with False have k: "53 \<le> bin_exp ?x - e" by simp
    have "(2 powi (bin_exp ?x - e) :: rat) \<le> of_int m"
      using lo by (simp add: power_int_diff divide_le_eq)
    moreover have "(2 powi 53 :: rat) \<le> 2 powi (bin_exp ?x - e)"
      using k by (intro power_int_increasing) auto
    moreover have "(of_int m :: rat) \<le> 2 ^ 53"
      using m(2) by (metis of_int_le_iff of_int_numeral of_int_power)
    ultimately have p: "(of_int m :: rat) = 2 ^ 53" "(2 powi (bin_exp ?x - e) :: rat) \<le> 2 powi 53"
      by auto
    have "bin_exp ?x - e \<le> 53"
      using p(2) by (simp add: powi_le_iff del: power_int_numeral)
    with k u have "ulp_exp ?x = e + 1" by simp
    then have "?x / 2 powi (ulp_exp ?x) = of_int (2 ^ 52)"
      by (simp add: p(1) power_int_add)
    then show ?thesis by blast
  qed
  then obtain n where n: "?x / 2 powi (ulp_exp ?x) = of_int n" by blast
  then have "of_int n * 2 powi (ulp_exp ?x) = ?x"
    by (simp add: divide_eq_eq)
  then show ?thesis by (simp only: round_pos_def n round_half_even_of_int)
qed

text \<open>A double is a fixed point: \<open>m * 2 powi e\<close> with a 53-bit significand is not changed.\<close>

theorem round_f64_exact:
  assumes "\<bar>m\<bar> \<le> 2 ^ 53" and "- 1074 \<le> e"
  shows "round_f64 (of_int m * 2 powi e) = of_int m * 2 powi e"
proof -
  consider "m = 0" | "0 < m" | "m < 0" by linarith
  then show ?thesis
  proof cases
    case 1 then show ?thesis by (simp add: round_f64_def)
  next
    case 2 with assms show ?thesis by (simp add: round_f64_def round_pos_exact)
  next
    case 3
    with assms have "round_pos (of_int (- m) * 2 powi e) = of_int (- m) * 2 powi e"
      by (intro round_pos_exact) auto
    moreover have "of_int m * 2 powi e < (0 :: rat)" using 3 by (simp add: mult_neg_pos)
    ultimately show ?thesis by (simp add: round_f64_def)
  qed
qed

text \<open>Every result of the rounding is such a number, so rounding twice is rounding once.\<close>

lemma round_pos_double:
  assumes x: "0 < x"
  shows "\<exists>m e. round_pos x = of_int m * 2 powi e \<and> \<bar>m\<bar> \<le> 2 ^ 53 \<and> - 1074 \<le> e"
proof (intro exI conjI)
  let ?m = "round_half_even (x / 2 powi (ulp_exp x))"
  show "round_pos x = of_int ?m * 2 powi (ulp_exp x)" by (rule round_pos_def)
  show "- 1074 \<le> ulp_exp x" by (simp add: ulp_exp_def)
  have "x \<le> 2 powi (bin_exp x + 1)" using bin_exp_bounds(2) [OF x] by simp
  also have "(2 powi (bin_exp x + 1) :: rat) \<le> 2 powi (53 + ulp_exp x)"
    by (intro power_int_increasing) (simp_all add: ulp_exp_def)
  finally have "x / 2 powi (ulp_exp x) \<le> 2 powi 53"
    by (simp add: pos_divide_le_eq power_int_add)
  then have "x / 2 powi (ulp_exp x) \<le> of_int (2 ^ 53)" by simp
  then have "?m \<le> 2 ^ 53" by (metis round_half_even_mono round_half_even_of_int)
  moreover have "0 \<le> ?m"
    using round_half_even_mono [of 0 "x / 2 powi (ulp_exp x)"] round_half_even_of_int [of 0] x by simp
  ultimately show "\<bar>?m\<bar> \<le> 2 ^ 53" by simp
qed

theorem round_f64_idem [simp]: "round_f64 (round_f64 x) = round_f64 x"
proof -
  have "\<exists>m e. round_f64 x = of_int m * 2 powi e \<and> \<bar>m\<bar> \<le> 2 ^ 53 \<and> - 1074 \<le> e"
  proof (cases "x = 0 \<or> 0 < x")
    case True
    then show ?thesis
      using round_pos_double [of x] by (auto simp: round_f64_def intro: exI [of _ 0])
  next
    case False
    then obtain m e where "round_pos (- x) = of_int m * 2 powi e" "\<bar>m\<bar> \<le> 2 ^ 53" "- 1074 \<le> e"
      using round_pos_double [of "- x"] by auto
    with False show ?thesis by (intro exI [of _ "- m"] exI [of _ e]) (simp add: round_f64_def)
  qed
  then show ?thesis using round_f64_exact by auto
qed

lemma round_f64_of_int: "\<bar>n\<bar> \<le> 2 ^ 53 \<Longrightarrow> round_f64 (of_int n) = of_int n"
  using round_f64_exact [of n 0] by simp

section \<open>What the clients of the arithmetic rely on\<close>

text \<open>
  The interface the other theories use: a rounding is monotone and exact on the integers a
  double holds. The lemmas below are proved from these two laws only, and
  \<open>f64: rounding round_f64\<close> provides them for the rounding of the language.
\<close>

locale rounding =
  fixes rnd :: "rat \<Rightarrow> rat"
  assumes rnd_mono: "x \<le> y \<Longrightarrow> rnd x \<le> rnd y"
    and rnd_int: "\<bar>n\<bar> \<le> 2 ^ 53 \<Longrightarrow> rnd (of_int n) = of_int n"
begin

lemma rnd_0: "rnd 0 = 0" using rnd_int [of 0] by simp

lemma rnd_1: "rnd 1 = 1" using rnd_int [of 1] by simp

lemma rnd_nonneg: "0 \<le> x \<Longrightarrow> 0 \<le> rnd x"
  using rnd_mono [of 0 x] by (simp add: rnd_0)

lemma rnd_nonpos: "x \<le> 0 \<Longrightarrow> rnd x \<le> 0"
  using rnd_mono [of x 0] by (simp add: rnd_0)

lemma rnd_le_int: "x \<le> of_int n \<Longrightarrow> \<bar>n\<bar> \<le> 2 ^ 53 \<Longrightarrow> rnd x \<le> of_int n"
  using rnd_mono [of x "of_int n"] by (simp add: rnd_int)

lemma rnd_ge_int: "of_int n \<le> x \<Longrightarrow> \<bar>n\<bar> \<le> 2 ^ 53 \<Longrightarrow> of_int n \<le> rnd x"
  using rnd_mono [of "of_int n" x] by (simp add: rnd_int)

lemma rnd_ge_fixed: "rnd y = y \<Longrightarrow> y \<le> x \<Longrightarrow> y \<le> rnd x"
  using rnd_mono [of y x] by simp

lemma rnd_pos_le_self_int: "0 \<le> x \<Longrightarrow> x \<le> 2 ^ 53 \<Longrightarrow> rnd x \<le> of_int \<lceil>x\<rceil>"
proof (rule rnd_le_int)
  assume "0 \<le> x" and "x \<le> 2 ^ 53"
  then have "x \<le> of_int (2 ^ 53)" by simp
  then have "\<lceil>x\<rceil> \<le> 2 ^ 53" by (simp only: ceiling_le_iff)
  moreover have "0 \<le> \<lceil>x\<rceil>" using \<open>0 \<le> x\<close> by (simp add: le_ceiling_iff order_less_le_trans [of _ 0])
  ultimately show "\<bar>\<lceil>x\<rceil>\<bar> \<le> 2 ^ 53" by simp
qed (rule le_of_int_ceiling)

end

interpretation f64: rounding round_f64
  by unfold_locales (simp_all add: round_f64_mono round_f64_of_int)

lemmas f64_simps [simp] = f64.rnd_0 f64.rnd_1

lemma round_f64_numeral [simp]:
  "numeral n \<le> (2 ^ 53 :: int) \<Longrightarrow> round_f64 (numeral n) = numeral n"
  using round_f64_of_int [of "numeral n"] by simp

section \<open>The operations of the language\<close>

type_synonym f64 = rat

definition f64_add :: "f64 \<Rightarrow> f64 \<Rightarrow> f64" where "f64_add x y = round_f64 (x + y)"
definition f64_sub :: "f64 \<Rightarrow> f64 \<Rightarrow> f64" where "f64_sub x y = round_f64 (x - y)"
definition f64_mul :: "f64 \<Rightarrow> f64 \<Rightarrow> f64" where "f64_mul x y = round_f64 (x * y)"

text \<open>Division by a divisor that is not zero.\<close>

definition f64_div :: "f64 \<Rightarrow> f64 \<Rightarrow> f64" where "f64_div x y = round_f64 (x / y)"

text \<open>\<open>x as u64\<close> and \<open>x as u32\<close>: truncation towards zero, saturating at both ends of the type.\<close>

definition f64_to_unsigned :: "nat \<Rightarrow> f64 \<Rightarrow> int" where
  "f64_to_unsigned w x = (if x \<le> 0 then 0 else min \<lfloor>x\<rfloor> (2 ^ w - 1))"

lemma f64_to_unsigned_bounds: "0 \<le> f64_to_unsigned w x" "f64_to_unsigned w x \<le> 2 ^ w - 1"
  by (auto simp: f64_to_unsigned_def)

lemma f64_to_unsigned_mono: "x \<le> y \<Longrightarrow> f64_to_unsigned w x \<le> f64_to_unsigned w y"
proof -
  assume le: "x \<le> y"
  show ?thesis
  proof (cases "x \<le> 0")
    case True
    then show ?thesis by (simp add: f64_to_unsigned_def)
  next
    case False
    have "min \<lfloor>x\<rfloor> (2 ^ w - 1) \<le> min \<lfloor>y\<rfloor> (2 ^ w - 1)"
      using floor_mono [OF le] by (rule min.mono) simp
    with False le show ?thesis by (simp add: f64_to_unsigned_def)
  qed
qed

text \<open>\<open>f64::MAX\<close> and \<open>f64::EPSILON\<close>.\<close>

definition f64_max :: f64 where "f64_max = of_int ((2 ^ 53 - 1) * 2 ^ 971)"
definition f64_epsilon :: f64 where "f64_epsilon = 1 / 2 ^ 52"

end
