(* ===== verification/Prelude.thy ===== *)
theory Prelude
  imports F64 "HOL-Library.Word" "HOL-Library.List_Lexorder" "HOL-Library.Char_ord"
begin

text \<open>
  What every component of the model shares: the names of the model's base types, the
  operations of Rust's standard library on strings, integers, options and results that the
  modelled code calls, and the lemmas about them.

  A Rust \<open>String\<close> is its sequence of UTF-8 bytes, one \<open>char\<close> per byte, so \<open>length\<close> is
  Rust's \<open>len()\<close>. A point of \<open>std::time::Instant\<close> is a number of nanoseconds of a
  monotonic clock (type \<open>instant\<close>), a \<open>chrono::DateTime<Utc>\<close> the number of nanoseconds
  since the epoch (type \<open>datetime\<close>); a \<open>Result<T, E>\<close> is the sum \<open>E + T\<close> with the error
  on the left.
\<close>

named_theorems op_defs \<open>definitions of the modelled operations\<close>

type_synonym u8 = "8 word"
type_synonym u32 = "32 word"
type_synonym u64 = "64 word"
type_synonym i64 = int
type_synonym uuid = "128 word"
type_synonym instant = nat
type_synonym datetime = int

section \<open>Results\<close>

text \<open>The \<open>?\<close> operator: go on with the value of an \<open>Ok\<close>, return an \<open>Err\<close> as it is.\<close>

fun and_then :: "'e + 'a \<Rightarrow> ('a \<Rightarrow> 'e + 'b) \<Rightarrow> 'e + 'b" where
  "and_then (Inl e) f = Inl e"
| "and_then (Inr a) f = f a"

lemma and_then_Inr: "and_then r f = Inr b \<longleftrightarrow> (\<exists>a. r = Inr a \<and> f a = Inr b)"
  by (cases r) auto

lemma and_then_Inl: "and_then r f = Inl e \<longleftrightarrow> r = Inl e \<or> (\<exists>a. r = Inr a \<and> f a = Inl e)"
  by (cases r) auto

text \<open>\<open>x.or_else(|| y)\<close> and \<open>x.unwrap_or(d)\<close> on options.\<close>

fun opt_or :: "'a option \<Rightarrow> 'a option \<Rightarrow> 'a option" where
  "opt_or (Some x) _ = Some x"
| "opt_or None y = y"

definition unwrap_or :: "'a \<Rightarrow> 'a option \<Rightarrow> 'a" where
  "unwrap_or d x = (case x of None \<Rightarrow> d | Some v \<Rightarrow> v)"

lemma unwrap_or_simps [simp]: "unwrap_or d None = d" "unwrap_or d (Some v) = v"
  by (simp_all add: unwrap_or_def)

lemma opt_or_None_right [simp]: "opt_or x None = x"
  by (cases x) auto

lemma opt_or_eq_None [simp]: "opt_or x y = None \<longleftrightarrow> x = None \<and> y = None"
  by (cases x) auto

text \<open>\<open>filter(|v| p(v))\<close> on options.\<close>

definition opt_filter :: "('a \<Rightarrow> bool) \<Rightarrow> 'a option \<Rightarrow> 'a option" where
  "opt_filter p x = (case x of None \<Rightarrow> None | Some v \<Rightarrow> if p v then Some v else None)"

lemma opt_filter_simps [simp]:
  "opt_filter p None = None" "opt_filter p (Some v) = (if p v then Some v else None)"
  by (simp_all add: opt_filter_def)

lemma opt_filter_Some: "opt_filter p x = Some v \<longleftrightarrow> x = Some v \<and> p v"
  by (cases x) auto

section \<open>Strings\<close>

abbreviation byte :: "char \<Rightarrow> nat" where "byte c \<equiv> of_char c"

definition starts_with :: "string \<Rightarrow> string \<Rightarrow> bool" where
  "starts_with p s = (take (length p) s = p)"

fun strip_prefix :: "string \<Rightarrow> string \<Rightarrow> string option" where
  "strip_prefix [] s = Some s"
| "strip_prefix (c # p) [] = None"
| "strip_prefix (c # p) (d # s) = (if c = d then strip_prefix p s else None)"

definition strip_suffix :: "string \<Rightarrow> string \<Rightarrow> string option" where
  "strip_suffix p s = map_option rev (strip_prefix (rev p) (rev s))"

lemma strip_prefix_Some: "strip_prefix p s = Some r \<longleftrightarrow> s = p @ r"
  by (induction p s rule: strip_prefix.induct) auto

lemma strip_suffix_Some: "strip_suffix p s = Some r \<longleftrightarrow> s = r @ p"
proof -
  have "strip_suffix p s = Some r \<longleftrightarrow> strip_prefix (rev p) (rev s) = Some (rev r)"
    by (auto simp: strip_suffix_def)
  also have "\<dots> \<longleftrightarrow> rev s = rev (r @ p)" by (simp add: strip_prefix_Some)
  finally show ?thesis by (simp only: rev_is_rev_conv)
qed

lemma starts_with_iff: "starts_with p s \<longleftrightarrow> (\<exists>r. s = p @ r)"
  by (auto simp: starts_with_def) (metis append_take_drop_id)

text \<open>\<open>s.split_once(c)\<close>: the parts before and after the first \<open>c\<close>.\<close>

fun split_once :: "char \<Rightarrow> string \<Rightarrow> (string \<times> string) option" where
  "split_once c [] = None"
| "split_once c (d # s) =
     (if d = c then Some ([], s) else map_option (\<lambda>(a, b). (d # a, b)) (split_once c s))"

lemma split_once_Some:
  "split_once c s = Some (a, b) \<longleftrightarrow> s = a @ c # b \<and> c \<notin> set a"
proof (induction s arbitrary: a)
  case (Cons d s)
  show ?case
  proof (cases a)
    case Nil then show ?thesis by (auto split: option.splits prod.splits)
  next
    case (Cons x a')
    with Cons.IH [of a'] show ?thesis by (auto split: option.splits prod.splits)
  qed
qed simp

lemma split_once_None: "split_once c s = None \<longleftrightarrow> c \<notin> set s"
  by (induction s) auto

text \<open>\<open>s.split(c)\<close>: always at least one part.\<close>

fun split_on :: "char \<Rightarrow> string \<Rightarrow> string list" where
  "split_on c [] = [[]]"
| "split_on c (d # s) =
     (if d = c then [] # split_on c s
      else case split_on c s of [] \<Rightarrow> [[d]] | p # ps \<Rightarrow> (d # p) # ps)"

lemma split_on_nonempty [simp]: "split_on c s \<noteq> []"
  by (induction s) (auto split: list.splits)

lemma split_on_no_sep: "p \<in> set (split_on c s) \<Longrightarrow> c \<notin> set p"
  by (induction s arbitrary: p) (auto split: if_splits list.splits)

text \<open>\<open>parts.join(c)\<close>\<close>

fun join_with :: "string \<Rightarrow> string list \<Rightarrow> string" where
  "join_with c [] = []"
| "join_with c [s] = s"
| "join_with c (s # t # ss) = s @ c @ join_with c (t # ss)"

lemma join_split: "join_with [c] (split_on c s) = s"
proof (induction s)
  case (Cons d s)
  show ?case
  proof (cases "split_on c s")
    case Nil then show ?thesis by simp
  next
    case (Cons p ps)
    with Cons.IH show ?thesis by (cases ps) auto
  qed
qed simp

text \<open>
  The length in bytes of the white space character (Unicode \<open>White_Space\<close>, as in
  \<open>char::is_whitespace\<close>) a string begins with, 0 when it begins with none.
\<close>

fun ws_at :: "nat list \<Rightarrow> nat" where
  "ws_at (a # rest) =
     (if (9 \<le> a \<and> a \<le> 13) \<or> a = 32 then 1
      else case rest of
        [] \<Rightarrow> 0
      | b # rest' \<Rightarrow>
          (if a = 194 \<and> (b = 133 \<or> b = 160) then 2
           else case rest' of
             [] \<Rightarrow> 0
           | c # _ \<Rightarrow>
               (if (a = 225 \<and> b = 154 \<and> c = 128)
                 \<or> (a = 226 \<and> b = 128 \<and> ((128 \<le> c \<and> c \<le> 138) \<or> c = 168 \<or> c = 169 \<or> c = 175))
                 \<or> (a = 226 \<and> b = 129 \<and> c = 159)
                 \<or> (a = 227 \<and> b = 128 \<and> c = 128) then 3 else 0)))"
| "ws_at [] = 0"

fun trim_start_fuel :: "nat \<Rightarrow> string \<Rightarrow> string" where
  "trim_start_fuel 0 s = s"
| "trim_start_fuel (Suc n) s =
     (let k = ws_at (map byte (take 3 s)) in if k = 0 then s else trim_start_fuel n (drop k s))"

text \<open>The length of \<open>s\<close> is enough fuel: every round but the last drops a byte.\<close>

definition trim_start :: "string \<Rightarrow> string" where
  "trim_start s = trim_start_fuel (length s) s"

text \<open>The white space character a string ends with, looked for at its last one, two or three bytes.\<close>

definition ws_before_end :: "string \<Rightarrow> nat" where
  "ws_before_end s =
     (let ends_ws = (\<lambda>k. k \<le> length s \<and> ws_at (map byte (drop (length s - k) s)) = k)
      in if ends_ws 1 then 1 else if ends_ws 2 then 2 else if ends_ws 3 then 3 else 0)"

fun trim_end_fuel :: "nat \<Rightarrow> string \<Rightarrow> string" where
  "trim_end_fuel 0 s = s"
| "trim_end_fuel (Suc n) s =
     (let k = ws_before_end s in if k = 0 then s else trim_end_fuel n (take (length s - k) s))"

definition trim_end :: "string \<Rightarrow> string" where
  "trim_end s = trim_end_fuel (length s) s"

definition trim :: "string \<Rightarrow> string" where
  "trim s = trim_end (trim_start s)"

lemma ws_at_le: "ws_at bs \<le> length bs"
  by (induction bs rule: ws_at.induct) (auto split: list.splits)

text \<open>The fuel is enough: what is left begins with no white space.\<close>

lemma trim_start_fuel_done:
  "length s \<le> n \<Longrightarrow> ws_at (map byte (take 3 (trim_start_fuel n s))) = 0"
proof (induction n arbitrary: s)
  case 0
  then show ?case by simp
next
  case (Suc n)
  show ?case
  proof (cases "ws_at (map byte (take 3 s)) = 0")
    case True
    then show ?thesis by (simp add: Let_def)
  next
    case False
    moreover have "ws_at (map byte (take 3 s)) \<le> length s"
      using ws_at_le [of "map byte (take 3 s)"] by simp
    ultimately have "length (drop (ws_at (map byte (take 3 s))) s) \<le> n"
      using Suc.prems by simp
    with False Suc.IH show ?thesis by (simp add: Let_def)
  qed
qed

lemma trim_start_done: "ws_at (map byte (take 3 (trim_start s))) = 0"
  by (simp add: trim_start_def trim_start_fuel_done)

text \<open>Visible ASCII: no white space, and no byte of a longer character.\<close>

definition visible :: "char \<Rightarrow> bool" where
  "visible c = (33 \<le> byte c \<and> byte c \<le> 126)"

lemma ws_at_visible: "33 \<le> a \<Longrightarrow> a \<le> 126 \<Longrightarrow> ws_at (a # r) = 0"
  by (auto split: list.splits)

lemma trim_start_visible: "list_all visible s \<Longrightarrow> trim_start s = s"
  by (cases s) (auto simp: trim_start_def visible_def ws_at_visible Let_def simp del: ws_at.simps)

lemma ws_before_end_visible: "list_all visible s \<Longrightarrow> ws_before_end s = 0"
proof -
  assume v: "list_all visible s"
  have "ws_at (map byte (drop (length s - k) s)) \<noteq> k" if k: "0 < k" "k \<le> length s" for k
  proof (cases "drop (length s - k) s")
    case Nil
    with k show ?thesis by simp
  next
    case (Cons c r)
    then have "visible c" using v by (metis in_set_dropD list.set_intros(1) list_all_iff)
    with k Cons show ?thesis by (simp add: visible_def ws_at_visible del: ws_at.simps)
  qed
  from this [of 1] this [of 2] this [of 3] show ?thesis
    by (auto simp: ws_before_end_def Let_def simp del: ws_at.simps)
qed

lemma trim_end_visible: "list_all visible s \<Longrightarrow> trim_end s = s"
  by (cases s) (simp_all add: trim_end_def ws_before_end_visible Let_def)

lemma trim_visible: "list_all visible s \<Longrightarrow> trim s = s"
  by (simp add: trim_def trim_start_visible trim_end_visible)

lemma split_on_prefix:
  "c \<notin> set p \<Longrightarrow> split_on c (p @ c # s) = p # split_on c s"
  by (induction p) auto

lemma split_on_single: "c \<notin> set p \<Longrightarrow> split_on c p = [p]"
  by (induction p) auto

lemma split_join:
  "ps \<noteq> [] \<Longrightarrow> \<forall>p\<in>set ps. c \<notin> set p \<Longrightarrow> split_on c (join_with [c] ps) = ps"
  by (induction "[c]" ps rule: join_with.induct) (auto simp: split_on_single split_on_prefix)

section \<open>Numbers as text\<close>

definition is_digit :: "char \<Rightarrow> bool" where
  "is_digit c = (48 \<le> byte c \<and> byte c \<le> 57)"

definition digit_value :: "char \<Rightarrow> nat" where
  "digit_value c = byte c - 48"

fun digits_value :: "nat \<Rightarrow> string \<Rightarrow> nat" where
  "digits_value acc [] = acc"
| "digits_value acc (c # s) = digits_value (10 * acc + digit_value c) s"

text \<open>
  \<open>s.parse::<u32>()\<close> and its kin for an unsigned type with the given maximum: an optional
  leading plus, then at least one digit and nothing else, and no overflow.
\<close>

definition parse_unsigned :: "nat \<Rightarrow> string \<Rightarrow> nat option" where
  "parse_unsigned mx s =
     (let ds = (case s of c # r \<Rightarrow> if c = CHR ''+'' then r else s | [] \<Rightarrow> s)
      in if ds = [] \<or> \<not> list_all is_digit ds then None
         else if digits_value 0 ds \<le> mx then Some (digits_value 0 ds) else None)"

definition parse_u32 :: "string \<Rightarrow> u32 option" where
  "parse_u32 s = map_option of_nat (parse_unsigned (2 ^ 32 - 1) s)"

lemma parse_unsigned_le: "parse_unsigned mx s = Some n \<Longrightarrow> n \<le> mx"
  by (auto simp: parse_unsigned_def Let_def split: if_splits list.splits)

lemma parse_u32_unat: "parse_u32 s = Some w \<Longrightarrow> parse_unsigned (2 ^ 32 - 1) s = Some (unat w)"
proof -
  assume "parse_u32 s = Some w"
  then obtain n where n: "parse_unsigned (2 ^ 32 - 1) s = Some n" "w = of_nat n"
    by (auto simp: parse_u32_def)
  from parse_unsigned_le [OF n(1)] have "unat w = n" by (simp add: n(2) unat_of_nat)
  with n show ?thesis by simp
qed

text \<open>\<open>n.to_string()\<close>\<close>

fun nat_to_string :: "nat \<Rightarrow> string" where
  "nat_to_string n =
     (if n < 10 then [char_of (n + 48)] else nat_to_string (n div 10) @ [char_of (n mod 10 + 48)])"

declare nat_to_string.simps [simp del]

lemma byte_digit: "d < 10 \<Longrightarrow> byte (char_of (d + 48 :: nat)) = d + 48"
  by simp

lemma digit_char: "d < 10 \<Longrightarrow> is_digit (char_of (d + 48 :: nat))"
  by (simp add: is_digit_def)

lemma nat_to_string_digits: "list_all is_digit (nat_to_string n) \<and> nat_to_string n \<noteq> []"
proof (induction n rule: nat_to_string.induct)
  case (1 n)
  have "nat_to_string n = (if n < 10 then [char_of (n + 48)]
      else nat_to_string (n div 10) @ [char_of (n mod 10 + 48)])"
    by (rule nat_to_string.simps)
  with 1 show ?case by (cases "n < 10") (simp_all add: digit_char)
qed

lemma digits_value_snoc:
  "digits_value acc (s @ [c]) = 10 * digits_value acc s + digit_value c"
  by (induction acc s rule: digits_value.induct) auto

lemma digits_value_to_string: "digits_value 0 (nat_to_string n) = n"
proof (induction n rule: nat_to_string.induct)
  case (1 n)
  show ?case
    by (subst nat_to_string.simps) (use 1 in \<open>auto simp: digits_value_snoc digit_value_def\<close>)
qed

lemma digit_not_plus: "is_digit c \<Longrightarrow> c \<noteq> CHR ''+''"
  by (auto simp: is_digit_def)

lemma parse_to_string: "n \<le> mx \<Longrightarrow> parse_unsigned mx (nat_to_string n) = Some n"
proof -
  assume n: "n \<le> mx"
  obtain c r where s: "nat_to_string n = c # r" and d: "is_digit c" "list_all is_digit (c # r)"
    using nat_to_string_digits [of n] by (cases "nat_to_string n") auto
  have "digits_value 0 (c # r) = n" using digits_value_to_string [of n] by (simp only: s)
  with n d digit_not_plus [OF d(1)] show ?thesis
    unfolding s parse_unsigned_def by (simp del: digits_value.simps)
qed

definition int_to_string :: "int \<Rightarrow> string" where
  "int_to_string i = (if i < 0 then CHR ''-'' # nat_to_string (nat (- i)) else nat_to_string (nat i))"

section \<open>Unsigned words\<close>

text \<open>\<open>usize\<close> is 64 bits wide on the platforms the gateway runs on.\<close>

definition saturating_mul_u64 :: "u64 \<Rightarrow> u64 \<Rightarrow> u64" where
  "saturating_mul_u64 a b = (if unat a * unat b < 2 ^ 64 then a * b else - 1)"

lemma unat_saturating_mul_u64: "unat (saturating_mul_u64 a b) = min (unat a * unat b) (2 ^ 64 - 1)"
  by (auto simp: saturating_mul_u64_def unat_word_ariths unsigned_minus_1_eq_mask mask_eq_exp_minus_1)

lemma unat_of_nat_u32: "n < 2 ^ 32 \<Longrightarrow> unat (of_nat n :: u32) = n"
  by (simp add: unat_of_nat)

lemma of_nat_unat_u32: "of_nat (unat w) = (w :: u32)"
  by simp

lemma unat_of_nat_u64: "n < 2 ^ 64 \<Longrightarrow> unat (of_nat n :: u64) = n"
  by (simp add: unat_of_nat)

lemma unat_u32_less: "unat (w :: u32) < 2 ^ 32"
  using unsigned_less [of w] by simp

lemma int_le_uint_iff: "int a \<le> uint w \<longleftrightarrow> a \<le> unat w"
  by (simp only: uint_nat of_nat_le_iff)

text \<open>\<open>w as f64\<close>: every \<open>u32\<close> is a double.\<close>

definition u32_as_f64 :: "u32 \<Rightarrow> f64" where
  "u32_as_f64 w = of_int (uint w)"

lemma uint_u32_bounds: "0 \<le> uint (w :: u32)" "uint w < 2 ^ 32"
  using uint_bounded [of w] by auto

lemma u32_as_f64_nonneg [simp]: "0 \<le> u32_as_f64 w"
  unfolding u32_as_f64_def by (simp only: of_int_0_le_iff uint_u32_bounds)

lemma u32_as_f64_le: "u32_as_f64 w \<le> 2 ^ 53"
proof -
  have "uint w \<le> 2 ^ 53" using uint_u32_bounds [of w] by simp
  then show ?thesis unfolding u32_as_f64_def by (metis of_int_le_iff of_int_numeral of_int_power)
qed

lemma round_u32_le: "x \<le> u32_as_f64 w \<Longrightarrow> round_f64 x \<le> u32_as_f64 w"
  unfolding u32_as_f64_def using uint_u32_bounds [of w] by (intro f64.rnd_le_int) auto

section \<open>Lists\<close>

text \<open>\<open>v.dedup()\<close>: adjacent equal elements collapse.\<close>

lemma sorted_remdups_adj_distinct:
  "sorted (xs :: 'a :: linorder list) \<Longrightarrow> distinct (remdups_adj xs)"
proof (induction xs rule: remdups_adj.induct)
  case (3 x y xs)
  then show ?case by auto
qed auto

lemma map_filter_total:
  "(\<And>x. x \<in> set xs \<Longrightarrow> f x \<noteq> None) \<Longrightarrow> List.map_filter f xs = map (\<lambda>x. the (f x)) xs"
  by (induction xs) (fastforce simp: map_filter_simps split: option.splits)+

section \<open>Hash maps in iteration order\<close>

definition has_key :: "('a \<times> 'b) list \<Rightarrow> 'a \<Rightarrow> bool" where
  "has_key al k = (map_of al k \<noteq> None)"

lemma has_key_iff: "has_key al k \<longleftrightarrow> k \<in> fst ` set al"
  by (auto simp: has_key_def map_of_eq_None_iff)

text \<open>\<open>insert\<close> and \<open>remove\<close> on a hash map kept as an association list.\<close>

fun al_insert :: "'k \<Rightarrow> 'v \<Rightarrow> ('k \<times> 'v) list \<Rightarrow> ('k \<times> 'v) list" where
  "al_insert k v [] = [(k, v)]"
| "al_insert k v ((a, b) # al) = (if a = k then (k, v) # al else (a, b) # al_insert k v al)"

definition al_remove :: "'k \<Rightarrow> ('k \<times> 'v) list \<Rightarrow> ('k \<times> 'v) list" where
  "al_remove k al = filter (\<lambda>(a, _). a \<noteq> k) al"

lemma map_of_al_insert [simp]: "map_of (al_insert k v al) = (map_of al)(k \<mapsto> v)"
  by (induction k v al rule: al_insert.induct) auto

lemma map_of_al_remove [simp]: "map_of (al_remove k al) = (map_of al)(k := None)"
  by (induction al) (auto simp: al_remove_def)

lemma fst_al_insert: "fst ` set (al_insert k v al) = insert k (fst ` set al)"
  by (induction k v al rule: al_insert.induct) auto

lemma distinct_al_insert [simp]:
  "distinct (map fst al) \<Longrightarrow> distinct (map fst (al_insert k v al))"
  by (induction k v al rule: al_insert.induct) (auto simp: fst_al_insert)

lemma distinct_al_remove [simp]:
  "distinct (map fst al) \<Longrightarrow> distinct (map fst (al_remove k al))"
  by (induction al) (auto simp: al_remove_def)

lemma al_insert_new: "k \<notin> fst ` set al \<Longrightarrow> al_insert k v al = al @ [(k, v)]"
  by (induction k v al rule: al_insert.induct) auto

lemma set_al_remove: "distinct (map fst al) \<Longrightarrow> set (al_remove k al) = {x \<in> set al. fst x \<noteq> k}"
  by (auto simp: al_remove_def)

section \<open>Headers\<close>

text \<open>\<open>HeaderValue::to_str\<close>: the text of a header, if all its bytes are visible ASCII or tabs.\<close>

definition header_text :: "string \<Rightarrow> string option" where
  "header_text v =
     (if list_all (\<lambda>c. 32 \<le> byte c \<and> byte c < 127 \<or> byte c = 9) v then Some v else None)"

end
