(* ===== verification/Budget.thy ===== *)
theory Budget
  imports Prelude
begin

text \<open>
  Budget windows (\<open>management/budget.rs\<close>): the text form of a window's length, the end of a
  window, and rolling a window that has ended forward to the one that contains the present.

  A \<open>chrono::Duration\<close> is a number of nanoseconds. \<open>checked_add_months\<close> of the library
  \<open>chrono\<close> is the argument \<open>add_months\<close> of the operations that use it; all times are taken to
  lie within the range of \<open>chrono\<close>, so that no addition overflows.
\<close>

datatype budget_window = Fixed int | Months u32

type_synonym add_months = "datetime \<Rightarrow> u32 \<Rightarrow> datetime option"

definition nanos :: int where "nanos = 10 ^ 9"

definition days :: "int \<Rightarrow> int" where "days n = n * (24 * 60 * 60 * nanos)"

definition duration_error :: "string \<Rightarrow> string" where
  "duration_error s = ''invalid budget_duration '' @ [CHR 0x27] @ s @ [CHR 0x27]
     @ '': use <n>s, <n>m, <n>h, <n>d, <n>w or <n>mo, e.g. 30d''"

definition window_of :: "string \<Rightarrow> nat \<Rightarrow> budget_window option" where
  "window_of unit n =
     (if unit = ''s'' then Some (Fixed (int n * nanos))
      else if unit = ''m'' then Some (Fixed (int n * (60 * nanos)))
      else if unit = ''h'' then Some (Fixed (int n * (60 * 60 * nanos)))
      else if unit = ''d'' then Some (Fixed (days (int n)))
      else if unit = ''w'' then Some (Fixed (days (7 * int n)))
      else if unit = ''mo'' then Some (Months (of_nat n))
      else None)"

text \<open>The digits are those before the first other character; none of the two parts may be empty.\<close>

definition parse_duration :: "string \<Rightarrow> string + budget_window" where
  "parse_duration s0 =
     (let s = trim s0; num = takeWhile is_digit s; unit = dropWhile is_digit s; err = Inl (duration_error s)
      in if num = [] \<or> unit = [] then err
         else case parse_unsigned (2 ^ 63 - 1) num of
           None \<Rightarrow> err
         | Some n \<Rightarrow>
             if n = 0 \<or> 100000 < n then err
             else case window_of unit n of None \<Rightarrow> err | Some w \<Rightarrow> Inr w)"

definition after :: "add_months \<Rightarrow> budget_window \<Rightarrow> datetime \<Rightarrow> datetime" where
  "after add_months w from =
     (case w of
        Fixed d \<Rightarrow> from + d
      | Months n \<Rightarrow> unwrap_or (from + days (30 * uint n)) (add_months from n))"

text \<open>The loop over calendar months; nothing says that it ends, so it may be undefined.\<close>

partial_function (option) roll_months :: "add_months \<Rightarrow> u32 \<Rightarrow> datetime \<Rightarrow> datetime \<Rightarrow> datetime option" where
  "roll_months add_months n reset_at now =
     (if reset_at \<le> now then roll_months add_months n (after add_months (Months n) reset_at) now
      else Some reset_at)"

text \<open>\<open>num_milliseconds\<close> rounds towards zero; it is only divided when it is not negative.\<close>

definition num_milliseconds :: "int \<Rightarrow> i64" where
  "num_milliseconds ns = sgn ns * (\<bar>ns\<bar> div 10 ^ 6)"

definition next_after :: "add_months \<Rightarrow> budget_window \<Rightarrow> datetime \<Rightarrow> datetime \<Rightarrow> datetime option" where
  "next_after add_months w reset_at now =
     (case w of
        Fixed d \<Rightarrow>
          let step = max 1 (num_milliseconds d); behind = num_milliseconds (now - reset_at)
          in if 0 \<le> behind then Some (reset_at + step * (behind div step + 1) * 10 ^ 6)
             else Some reset_at
      | Months n \<Rightarrow> roll_months add_months n reset_at now)"

definition initial_reset_at ::
  "add_months \<Rightarrow> string option \<Rightarrow> datetime \<Rightarrow> string + datetime option" where
  "initial_reset_at add_months duration now =
     (case duration of
        None \<Rightarrow> Inr None
      | Some d \<Rightarrow> and_then (parse_duration d) (\<lambda>w. Inr (Some (after add_months w now))))"

text \<open>The outer option is whether the function returns at all.\<close>

definition lapsed_window_next_reset ::
  "add_months \<Rightarrow> string option \<Rightarrow> datetime option \<Rightarrow> datetime \<Rightarrow> datetime option option" where
  "lapsed_window_next_reset add_months duration reset_at now =
     (case (duration, reset_at) of
        (Some d, Some at_end) \<Rightarrow>
          if now < at_end then Some None
          else (case parse_duration d of
                  Inl _ \<Rightarrow> Some None
                | Inr w \<Rightarrow> map_option Some (next_after add_months w at_end now))
      | _ \<Rightarrow> Some None)"

section \<open>The text form\<close>

lemma window_of_units:
  assumes "window_of unit n = Some w"
  shows "list_all visible unit" and "unit \<noteq> []" and "\<not> is_digit (hd unit)"
  using assms by (auto simp: window_of_def visible_def is_digit_def split: if_splits)

lemma amount_visible: "list_all is_digit s \<Longrightarrow> list_all visible s"
  by (auto simp: list_all_iff is_digit_def visible_def)

lemma duration_text_roundtrip:
  assumes w: "window_of unit n = Some w" and n: "0 < n" "n \<le> 100000"
  shows "parse_duration (nat_to_string n @ unit) = Inr w"
proof -
  let ?s = "nat_to_string n"
  have d: "list_all is_digit ?s" "?s \<noteq> []" using nat_to_string_digits by auto
  obtain c u where u: "unit = c # u" using window_of_units(2) [OF w] by (cases unit) auto
  with window_of_units(3) [OF w] have c: "\<not> is_digit c" by simp
  have t: "trim (?s @ unit) = ?s @ unit"
    using amount_visible [OF d(1)] window_of_units(1) [OF w] by (intro trim_visible) simp
  have "takeWhile is_digit (?s @ unit) = ?s" "dropWhile is_digit (?s @ unit) = unit"
    using d(1) c by (simp_all add: u list_all_iff takeWhile_append dropWhile_append)
  moreover have "parse_unsigned (2 ^ 63 - 1) ?s = Some n"
    using n by (intro parse_to_string) simp
  ultimately show ?thesis
    using n w d(2) c by (simp add: parse_duration_def t [unfolded u] u Let_def)
qed

section \<open>Windows roll forward\<close>

text \<open>A parsed window has a positive length in whole seconds, or a positive number of months.\<close>

lemma parsed_window:
  assumes "parse_duration s = Inr w"
  shows "(\<exists>n > 0. w = Fixed (int n * nanos)) \<or> (\<exists>n. 0 < n \<and> w = Months n)"
proof -
  obtain unit n where "window_of unit n = Some w" and n: "0 < n" "n \<le> 100000"
    using assms by (auto simp: parse_duration_def Let_def split: if_splits option.splits)
  moreover have "0 < (of_nat n :: u32)"
  proof -
    have "unat (of_nat n :: u32) = n" using n by (intro unat_of_nat_u32) simp
    then show ?thesis using n by (simp add: word_less_nat_alt)
  qed
  moreover have "int n * (k * nanos) = int (n * nat k) * nanos" if "0 < k" for k
    using that by simp
  moreover have "days (int n) = int (n * 86400) * nanos" "days (7 * int n) = int (n * 604800) * nanos"
    by (simp_all add: days_def)
  ultimately show ?thesis
    unfolding window_of_def
    by (fastforce split: if_splits intro: exI [of _ "n * 60"] exI [of _ "n * 3600"]
        exI [of _ "n * 86400"] exI [of _ "n * 604800"])
qed

lemma div_step:
  fixes s x :: int
  assumes "0 < s"
  shows "s * (x div s) \<le> x \<and> x < s * (x div s + 1)"
proof -
  have "s * (x div s) + x mod s = x" by (rule mult_div_mod_eq)
  moreover have "s * (x div s + 1) = s * (x div s) + s" by (simp add: algebra_simps)
  ultimately show ?thesis using pos_mod_sign [OF assms, of x] pos_mod_bound [OF assms, of x] by linarith
qed

lemma scale_bounds:
  fixes a b c :: int
  assumes "a \<le> x div 10 ^ 6" and "x div 10 ^ 6 < c"
  shows "a * 10 ^ 6 \<le> x \<and> x < c * 10 ^ 6"
proof -
  have "10 ^ 6 * (x div 10 ^ 6) \<le> x" "x < 10 ^ 6 * (x div 10 ^ 6 + 1)" using div_step [of "10 ^ 6" x] by simp_all
  then show ?thesis using assms by simp
qed

lemma after_fixed_iter: "(after am (Fixed d) ^^ k) r = r + int k * d"
  by (induction k) (auto simp: after_def algebra_simps)

lemma roll_fixed:
  assumes "0 < n" and "r \<le> now"
  shows "\<exists>k. next_after am (Fixed (int n * nanos)) r now = Some ((after am (Fixed (int n * nanos)) ^^ Suc k) r)
    \<and> (after am (Fixed (int n * nanos)) ^^ k) r \<le> now
    \<and> now < (after am (Fixed (int n * nanos)) ^^ Suc k) r"
proof -
  let ?step = "int n * 1000"
  let ?behind = "(now - r) div 10 ^ 6"
  have d: "int n * nanos = ?step * 10 ^ 6" by (simp add: nanos_def)
  have step: "max 1 (num_milliseconds (int n * nanos)) = ?step"
    using assms(1) by (simp add: d num_milliseconds_def sgn_if abs_if)
  have behind: "num_milliseconds (now - r) = ?behind"
    using assms(2) by (auto simp: num_milliseconds_def sgn_if)
  have b0: "0 \<le> ?behind" using assms(2) by (simp add: pos_imp_zdiv_nonneg_iff)
  define k where "k = nat (?behind div ?step)"
  have k: "int k = ?behind div ?step" using b0 by (simp add: k_def pos_imp_zdiv_nonneg_iff assms(1))
  have "?step * int k \<le> ?behind" "?behind < ?step * (int k + 1)"
    using div_step [of ?step ?behind] assms(1) by (simp_all add: k)
  then have "?step * int k * 10 ^ 6 \<le> now - r" "now - r < ?step * (int k + 1) * 10 ^ 6"
    by (simp_all only: scale_bounds)
  moreover have "next_after am (Fixed (int n * nanos)) r now = Some (r + ?step * (int k + 1) * 10 ^ 6)"
    using b0 by (simp add: next_after_def step behind k Let_def)
  ultimately show ?thesis
    by (intro exI [of _ k]) (simp add: after_fixed_iter nanos_def algebra_simps del: funpow.simps)
qed

lemma roll_months_steps:
  assumes "\<And>t. t < after am (Months n) t"
  shows "\<exists>k. roll_months am n r now = Some ((after am (Months n) ^^ k) r)
    \<and> now < (after am (Months n) ^^ k) r
    \<and> (\<forall>i < k. (after am (Months n) ^^ i) r \<le> now)"
proof (induction "nat (now - r + 1)" arbitrary: r rule: less_induct)
  case less
  show ?case
  proof (cases "r \<le> now")
    case False
    then show ?thesis by (intro exI [of _ 0]) (simp add: roll_months.simps)
  next
    case True
    let ?a = "after am (Months n)"
    have "nat (now - ?a r + 1) < nat (now - r + 1)" using True assms [of r] by simp
    from less.hyps [OF this] obtain k where k: "roll_months am n (?a r) now = Some ((?a ^^ k) (?a r))"
      "now < (?a ^^ k) (?a r)" "\<forall>i < k. (?a ^^ i) (?a r) \<le> now" by blast
    have "(?a ^^ i) r \<le> now" if "i < Suc k" for i
      using that True k(3) by (cases i) (auto simp: funpow_swap1)
    then show ?thesis
      using True k by (intro exI [of _ "Suc k"]) (simp add: roll_months.simps [of am n r] funpow_swap1)
  qed
qed

lemma months_advance:
  assumes "\<And>t t'. am t n = Some t' \<Longrightarrow> t < t'" and "0 < n"
  shows "t < after am (Months n) t"
proof -
  have "0 < uint n" using assms(2) by (simp add: word_less_def)
  then show ?thesis
    using assms(1) [of t] by (cases "am t n") (auto simp: after_def days_def nanos_def)
qed

lemma roll_reaches_now:
  assumes "parse_duration s = Inr w" and "reset_at \<le> now"
    and "\<And>t n t'. 0 < n \<Longrightarrow> add_months t n = Some t' \<Longrightarrow> t < t'"
  shows "\<exists>k. next_after add_months w reset_at now = Some ((after add_months w ^^ Suc k) reset_at)
    \<and> (after add_months w ^^ k) reset_at \<le> now \<and> now < (after add_months w ^^ Suc k) reset_at"
  using parsed_window [OF assms(1)]
proof (elim disjE exE conjE)
  fix n :: nat
  assume "0 < n" "w = Fixed (int n * nanos)"
  then show ?thesis using roll_fixed [OF _ assms(2)] by simp
next
  fix n :: u32
  assume w: "w = Months n" and "0 < n"
  then have "t < after add_months (Months n) t" for t
    by (intro months_advance assms(3))
  then obtain k where k: "roll_months add_months n reset_at now = Some ((after add_months w ^^ k) reset_at)"
    "now < (after add_months w ^^ k) reset_at" "\<forall>i < k. (after add_months w ^^ i) reset_at \<le> now"
    using roll_months_steps [of add_months n reset_at now] w by blast
  with assms(2) obtain j where "k = Suc j" by (cases k) auto
  with k show ?thesis by (intro exI [of _ j]) (simp add: next_after_def w)
qed

lemma lapsed_window_returns:
  assumes "\<And>t n t'. 0 < n \<Longrightarrow> add_months t n = Some t' \<Longrightarrow> t < t'"
  shows "lapsed_window_next_reset add_months duration reset_at now \<noteq> None"
proof (cases duration)
  case (Some d)
  show ?thesis
  proof (cases reset_at)
    case r: (Some t)
    have "next_after add_months w t now \<noteq> None" if "parse_duration d = Inr w" "t \<le> now" for w
      using that roll_reaches_now [of d w t now add_months] assms by blast
    then show ?thesis
      by (cases "parse_duration d") (simp_all add: lapsed_window_next_reset_def Some r)
  qed (simp add: lapsed_window_next_reset_def Some)
qed (simp add: lapsed_window_next_reset_def)

text \<open>C35:
  A lapsed budget window is always rolled to the window that contains the present: for every
  length that can be configured the computation ends, its result is a whole number of windows
  after the old end (so a reset keeps its anchor), it lies after now, and the window before it
  does not. The only thing used of the calendar library is that adding months moves forward.
\<close>

theorem next_window_contains_now:
  assumes "parse_duration s = Inr w" and "reset_at \<le> now"
    and "\<And>t n t'. 0 < n \<Longrightarrow> add_months t n = Some t' \<Longrightarrow> t < t'"
  shows "\<exists>k. next_after add_months w reset_at now = Some ((after add_months w ^^ Suc k) reset_at)
    \<and> (after add_months w ^^ k) reset_at \<le> now \<and> now < (after add_months w ^^ Suc k) reset_at"
  using assms by (rule roll_reaches_now)

text \<open>An hour's window that ended ten hours and one nanosecond ago.\<close>

theorem next_window_contains_now_witness:
  "\<exists>k. next_after (\<lambda>t n. Some (t + uint n * 10 ^ 15)) (Fixed (3600 * nanos)) 0 (36000 * nanos + 1)
      = Some (((after (\<lambda>t n. Some (t + uint n * 10 ^ 15)) (Fixed (3600 * nanos))) ^^ Suc k) 0)"
proof -
  have "parse_duration ''1h'' = Inr (Fixed (3600 * nanos))" by code_simp
  from next_window_contains_now [OF this, of 0 "36000 * nanos + 1" "\<lambda>t n. Some (t + uint n * 10 ^ 15)"]
  show ?thesis by (auto simp: nanos_def word_less_def)
qed

end
