(* ===== verification/Permissions.thy ===== *)
theory Permissions
  imports Prelude
begin

text \<open>
  Permissions and roles (\<open>auth/permissions.rs\<close>): the permissions with their text form, and the
  permissions of each role inside an organization.
\<close>

datatype role = Owner | Admin | Member | Viewer

datatype permission =
  UserReadSelf | UserReadAny | UserWriteAny | UserDeleteAny | KeyReadOwn | KeyReadAny
  | KeyWriteOwn | KeyWriteAny | KeyDeleteOwn | KeyDeleteAny | KeyTestWebhookOwn
  | KeyTestWebhookAny | GenerationCreate | GenerationReadOwn | GenerationReadAny
  | GenerationCancelOwn | GenerationCancelAny | AuditRead | CacheClear | SystemConfig
  | SystemTransferOwner | InvitationSend | InvitationRevoke | SessionRevokeOwn
  | SessionRevokeAny | OrgRead | OrgWrite | OrgDelete | OrgTransferOwner | AppRead
  | AppWrite | AppDelete | MemberRead | MemberInvite | MemberWrite | MemberRemove
  | ProviderCredRead | ProviderCredWrite | ProviderCredDelete | StorageCredRead
  | StorageCredWrite | StorageCredDelete

fun perm_string :: "permission \<Rightarrow> string" where
  "perm_string UserReadSelf = ''user:read:self''"
| "perm_string UserReadAny = ''user:read:any''"
| "perm_string UserWriteAny = ''user:write:any''"
| "perm_string UserDeleteAny = ''user:delete:any''"
| "perm_string KeyReadOwn = ''key:read:own''"
| "perm_string KeyReadAny = ''key:read:any''"
| "perm_string KeyWriteOwn = ''key:write:own''"
| "perm_string KeyWriteAny = ''key:write:any''"
| "perm_string KeyDeleteOwn = ''key:delete:own''"
| "perm_string KeyDeleteAny = ''key:delete:any''"
| "perm_string KeyTestWebhookOwn = ''key:test_webhook:own''"
| "perm_string KeyTestWebhookAny = ''key:test_webhook:any''"
| "perm_string GenerationCreate = ''generation:create''"
| "perm_string GenerationReadOwn = ''generation:read:own''"
| "perm_string GenerationReadAny = ''generation:read:any''"
| "perm_string GenerationCancelOwn = ''generation:cancel:own''"
| "perm_string GenerationCancelAny = ''generation:cancel:any''"
| "perm_string AuditRead = ''audit:read''"
| "perm_string CacheClear = ''cache:clear''"
| "perm_string SystemConfig = ''system:config''"
| "perm_string SystemTransferOwner = ''system:transfer_owner''"
| "perm_string InvitationSend = ''invitation:send''"
| "perm_string InvitationRevoke = ''invitation:revoke''"
| "perm_string SessionRevokeOwn = ''session:revoke:own''"
| "perm_string SessionRevokeAny = ''session:revoke:any''"
| "perm_string OrgRead = ''org:read''"
| "perm_string OrgWrite = ''org:write''"
| "perm_string OrgDelete = ''org:delete''"
| "perm_string OrgTransferOwner = ''org:transfer_owner''"
| "perm_string AppRead = ''app:read''"
| "perm_string AppWrite = ''app:write''"
| "perm_string AppDelete = ''app:delete''"
| "perm_string MemberRead = ''member:read''"
| "perm_string MemberInvite = ''member:invite''"
| "perm_string MemberWrite = ''member:write''"
| "perm_string MemberRemove = ''member:remove''"
| "perm_string ProviderCredRead = ''provider_cred:read''"
| "perm_string ProviderCredWrite = ''provider_cred:write''"
| "perm_string ProviderCredDelete = ''provider_cred:delete''"
| "perm_string StorageCredRead = ''storage_cred:read''"
| "perm_string StorageCredWrite = ''storage_cred:write''"
| "perm_string StorageCredDelete = ''storage_cred:delete''"

fun permissions_for :: "role \<Rightarrow> permission list" where
  "permissions_for Owner =
     [UserReadSelf, UserReadAny, UserWriteAny, UserDeleteAny, KeyReadOwn, KeyReadAny,
      KeyWriteOwn, KeyWriteAny, KeyDeleteOwn, KeyDeleteAny, KeyTestWebhookOwn,
      KeyTestWebhookAny, GenerationCreate, GenerationReadOwn, GenerationReadAny,
      GenerationCancelOwn, GenerationCancelAny, AuditRead, CacheClear, SystemConfig,
      SystemTransferOwner, InvitationSend, InvitationRevoke, SessionRevokeOwn,
      SessionRevokeAny, OrgRead, OrgWrite, OrgDelete, OrgTransferOwner, AppRead, AppWrite,
      AppDelete, MemberRead, MemberInvite, MemberWrite, MemberRemove, ProviderCredRead,
      ProviderCredWrite, ProviderCredDelete, StorageCredRead, StorageCredWrite,
      StorageCredDelete]"
| "permissions_for Admin =
     [UserReadSelf, UserReadAny, UserWriteAny, UserDeleteAny, KeyReadOwn, KeyReadAny,
      KeyWriteOwn, KeyWriteAny, KeyDeleteOwn, KeyDeleteAny, KeyTestWebhookOwn,
      KeyTestWebhookAny, GenerationCreate, GenerationReadOwn, GenerationReadAny,
      GenerationCancelOwn, GenerationCancelAny, AuditRead, CacheClear, SystemConfig,
      InvitationSend, InvitationRevoke, SessionRevokeOwn, SessionRevokeAny, OrgRead,
      OrgWrite, AppRead, AppWrite, AppDelete, MemberRead, MemberInvite, MemberWrite,
      MemberRemove, ProviderCredRead, ProviderCredWrite, ProviderCredDelete,
      StorageCredRead, StorageCredWrite, StorageCredDelete]"
| "permissions_for Member =
     [UserReadSelf, KeyReadOwn, KeyWriteOwn, KeyDeleteOwn, KeyTestWebhookOwn,
      GenerationCreate, GenerationReadOwn, GenerationCancelOwn, SessionRevokeOwn, OrgRead,
      AppRead, AppWrite, MemberRead, ProviderCredRead, ProviderCredWrite, StorageCredRead,
      StorageCredWrite]"
| "permissions_for Viewer =
     [UserReadSelf, KeyReadOwn, GenerationCreate, GenerationReadOwn, SessionRevokeOwn,
      OrgRead, AppRead, MemberRead, ProviderCredRead, StorageCredRead]"

definition role_has :: "role \<Rightarrow> permission \<Rightarrow> bool" where
  "role_has r p = (p \<in> set (permissions_for r))"

section \<open>Properties\<close>

lemma owner_has_all: "p \<in> set (permissions_for Owner)"
  by (cases p) simp_all

lemma permission_UNIV: "UNIV = set (permissions_for Owner)"
  using owner_has_all by blast

lemma perm_strings_distinct: "distinct (map perm_string (permissions_for Owner))"
  by code_simp

text \<open>
  The roles form a chain: a viewer may do nothing a member may not, a member nothing an admin
  may not, and the owner may do everything; what sets the owner apart from an admin is deleting
  the organization and handing over ownership. Only owners and admins may write, delete or test
  other people's keys. Different permissions have different text forms.
\<close>

theorem roles_form_a_chain:
  "set (permissions_for Viewer) \<subseteq> set (permissions_for Member)
   \<and> set (permissions_for Member) \<subseteq> set (permissions_for Admin)
   \<and> set (permissions_for Owner) = UNIV
   \<and> (\<not> role_has Admin p \<longleftrightarrow> p \<in> {OrgDelete, OrgTransferOwner, SystemTransferOwner})
   \<and> list_all (\<lambda>p. \<not> role_has Member p) [KeyWriteAny, KeyDeleteAny, KeyTestWebhookAny, AuditRead, SystemConfig]
   \<and> inj perm_string"
proof (intro conjI)
  show "inj perm_string"
    using perm_strings_distinct by (simp only: distinct_map permission_UNIV)
  show "(\<not> role_has Admin p) = (p \<in> {OrgDelete, OrgTransferOwner, SystemTransferOwner})"
    by (cases p) (simp_all add: role_has_def)
  show "set (permissions_for Owner) = UNIV" by (rule permission_UNIV [symmetric])
qed (simp_all add: role_has_def)

end
