(* ===== verification/RateLimit.thy ===== *)
theory RateLimit
  imports Prelude
begin

text \<open>
  The limits a request meets before a handler runs: the per-key token bucket
  (\<open>api/middleware/rate_limit.rs\<close>), the global in-flight limit
  (\<open>api/middleware/backpressure.rs\<close>) and the login lockout (\<open>auth/lockout.rs\<close>).

  The bucket's arithmetic is the double arithmetic of the code. \<open>try_take\<close> reads the clock
  before it takes the lock, so the \<open>now\<close> of successive calls need not increase;
  \<open>duration_since\<close> is 0 when it would be negative, as \<open>-\<close> on natural numbers.
\<close>

section \<open>Token bucket\<close>

record bucket =
  bk_last :: instant
  bk_tokens :: f64

type_synonym rate_limiter = "uuid \<rightharpoonup> bucket"

definition rate_limiter_new :: rate_limiter where
  "rate_limiter_new = Map.empty"

text \<open>\<open>Duration::as_secs_f64\<close> of a number of nanoseconds.\<close>

definition as_secs_f64 :: "nat \<Rightarrow> f64" where
  "as_secs_f64 ns =
     f64_add (round_f64 (of_nat (ns div 10 ^ 9))) (f64_div (of_nat (ns mod 10 ^ 9)) (10 ^ 9))"

definition refill :: "bucket \<Rightarrow> u32 \<Rightarrow> instant \<Rightarrow> f64" where
  "refill b rpm now =
     (let capacity = u32_as_f64 rpm;
          refill_rate = f64_div capacity 60;
          elapsed = as_secs_f64 (now - bk_last b)
      in min (f64_add (bk_tokens b) (f64_mul elapsed refill_rate)) capacity)"

text \<open>
  For \<open>rpm = 0\<close> the refill rate is 0, the quotient is the double infinity, and \<open>as u64\<close> makes
  it \<open>u64::MAX\<close>.
\<close>

definition retry_after :: "f64 \<Rightarrow> u32 \<Rightarrow> u64" where
  "retry_after tokens rpm =
     (let refill_rate = f64_div (u32_as_f64 rpm) 60
      in if refill_rate = 0 then - 1
         else of_int (f64_to_unsigned 64 (of_int \<lceil>f64_div (f64_sub 1 tokens) refill_rate\<rceil>)))"

definition try_take :: "uuid \<Rightarrow> u32 \<Rightarrow> instant \<Rightarrow> rate_limiter \<Rightarrow> (u64 + unit) \<times> rate_limiter" where
  "try_take key_id rpm now bs =
     (let b = unwrap_or \<lparr>bk_last = now, bk_tokens = u32_as_f64 rpm\<rparr> (bs key_id);
          tokens = refill b rpm now
      in if 1 \<le> tokens
         then (Inr (), bs(key_id \<mapsto> \<lparr>bk_last = now, bk_tokens = f64_sub tokens 1\<rparr>))
         else (Inl (retry_after tokens rpm), bs(key_id \<mapsto> \<lparr>bk_last = now, bk_tokens = tokens\<rparr>)))"

record rate_limit_snapshot =
  rl_remaining :: u32
  rl_reset_in :: nat

text \<open>\<open>Duration::from_secs_f64\<close> of a finite non-negative double, in nanoseconds.\<close>

definition from_secs_f64 :: "f64 \<Rightarrow> nat" where
  "from_secs_f64 x = nat (round_half_even (x * 10 ^ 9))"

definition snapshot :: "uuid \<Rightarrow> u32 \<Rightarrow> instant \<Rightarrow> rate_limiter \<Rightarrow> rate_limit_snapshot" where
  "snapshot key_id rpm now bs =
     (let capacity = u32_as_f64 rpm;
          refill_rate = f64_div capacity 60;
          tokens = (case bs key_id of Some b \<Rightarrow> refill b rpm now | None \<Rightarrow> capacity);
          deficit = max (f64_sub capacity tokens) 0;
          reset_in_secs = (if deficit \<le> 0 \<or> refill_rate \<le> 0 then 0 else f64_div deficit refill_rate)
      in \<lparr>rl_remaining = of_int (f64_to_unsigned 32 (of_int \<lfloor>tokens\<rfloor>)),
          rl_reset_in = from_secs_f64 reset_in_secs\<rparr>)"

section \<open>The bucket never leaves its range\<close>

definition bucket_ok :: "u32 \<Rightarrow> bucket \<Rightarrow> bool" where
  "bucket_ok rpm b = (0 \<le> bk_tokens b \<and> bk_tokens b \<le> u32_as_f64 rpm)"

lemma round_nonneg [simp, intro]: "0 \<le> x \<Longrightarrow> 0 \<le> round_f64 x"
  by (rule f64.rnd_nonneg)

lemma as_secs_nonneg [simp]: "0 \<le> as_secs_f64 ns"
  by (simp add: as_secs_f64_def f64_add_def f64_div_def)

lemma as_secs_0 [simp]: "as_secs_f64 0 = 0"
  by (simp add: as_secs_f64_def f64_add_def f64_div_def)

lemma rate_nonneg [simp]: "0 \<le> f64_div (u32_as_f64 w) 60"
  by (simp add: f64_div_def)

lemma refill_range:
  "0 \<le> bk_tokens b \<Longrightarrow> 0 \<le> refill b rpm now \<and> refill b rpm now \<le> u32_as_f64 rpm"
  by (simp add: refill_def Let_def f64_add_def f64_mul_def)

lemma f64_sub_one_nonneg: "1 \<le> t \<Longrightarrow> 0 \<le> f64_sub t 1"
  by (simp add: f64_sub_def)

lemma f64_sub_one_le: "t \<le> u32_as_f64 rpm \<Longrightarrow> f64_sub t 1 \<le> u32_as_f64 rpm"
  unfolding f64_sub_def by (rule round_u32_le) simp

section \<open>Bursts\<close>





text \<open>The bucket a call works on, and the bucket the next call at the same instant works on.\<close>

definition entry_bucket :: "uuid \<Rightarrow> u32 \<Rightarrow> instant \<Rightarrow> rate_limiter \<Rightarrow> bucket" where
  "entry_bucket k rpm now bs = unwrap_or \<lparr>bk_last = now, bk_tokens = u32_as_f64 rpm\<rparr> (bs k)"

lemma try_take_cases:
  fixes k rpm now bs
  defines "tokens \<equiv> refill (entry_bucket k rpm now bs) rpm now"
  obtains (admit) "1 \<le> tokens" "try_take k rpm now bs =
      (Inr (), bs(k \<mapsto> \<lparr>bk_last = now, bk_tokens = f64_sub tokens 1\<rparr>))"
  | (refuse) "tokens < 1" "try_take k rpm now bs =
      (Inl (retry_after tokens rpm), bs(k \<mapsto> \<lparr>bk_last = now, bk_tokens = tokens\<rparr>))"
proof (cases "1 \<le> tokens")
  case True
  then show ?thesis
    by (intro admit) (simp_all add: tokens_def try_take_def entry_bucket_def Let_def)
next
  case False
  then show ?thesis
    by (intro refuse) (simp_all add: tokens_def try_take_def entry_bucket_def Let_def)
qed






section \<open>Properties of the bucket\<close>

definition limiter_ok :: "(uuid \<Rightarrow> u32) \<Rightarrow> rate_limiter \<Rightarrow> bool" where
  "limiter_ok rpm_of bs = (\<forall>k b. bs k = Some b \<longrightarrow> bucket_ok (rpm_of k) b)"

lemma entry_bucket_ok: "limiter_ok rpm_of bs \<Longrightarrow> bucket_ok (rpm_of k) (entry_bucket k (rpm_of k) now bs)"
  by (cases "bs k") (auto simp: limiter_ok_def entry_bucket_def bucket_ok_def)

text \<open>
  \<open>try_take\<close> keeps every bucket of the limiter between empty and its capacity of \<open>rpm\<close> tokens,
  whatever times the calls read (also when the clock of a later call is the earlier one).
\<close>

theorem try_take_keeps_range:
  assumes "limiter_ok rpm_of bs"
  shows "limiter_ok rpm_of (snd (try_take k (rpm_of k) now bs))"
proof -
  let ?t = "refill (entry_bucket k (rpm_of k) now bs) (rpm_of k) now"
  have r: "0 \<le> ?t \<and> ?t \<le> u32_as_f64 (rpm_of k)"
    using entry_bucket_ok [OF assms] by (intro refill_range) (simp add: bucket_ok_def)
  show ?thesis
    by (cases rule: try_take_cases [of k "rpm_of k" now bs])
      (use assms r in \<open>auto simp: limiter_ok_def bucket_ok_def f64_sub_one_nonneg f64_sub_one_le\<close>)
qed

theorem try_take_keeps_range_witness:
  "limiter_ok (\<lambda>_. 3) (snd (try_take 7 3 1000 rate_limiter_new))"
  using try_take_keeps_range [of "\<lambda>_. 3" rate_limiter_new 7 1000]
  by (simp add: limiter_ok_def rate_limiter_new_def)



section \<open>In-flight requests\<close>

text \<open>
  \<open>InFlightLimit\<close>: a semaphore whose permits the extractors take before they read a body, and
  that a permit returns to when it is dropped.
\<close>

record in_flight_limit =
  if_sem :: nat
  if_cap :: nat

definition in_flight_new :: "nat \<Rightarrow> in_flight_limit" where
  "in_flight_new cap = \<lparr>if_sem = cap, if_cap = cap\<rparr>"

definition try_acquire_owned :: "in_flight_limit \<Rightarrow> in_flight_limit option" where
  "try_acquire_owned l = (if 0 < if_sem l then Some (l\<lparr>if_sem := if_sem l - 1\<rparr>) else None)"

definition drop_permit :: "in_flight_limit \<Rightarrow> in_flight_limit" where
  "drop_permit l = l\<lparr>if_sem := Suc (if_sem l)\<rparr>"

text \<open>Requests that arrive and are served or refused, and served ones that end.\<close>

inductive in_flight :: "nat \<Rightarrow> in_flight_limit \<Rightarrow> nat \<Rightarrow> bool" for cap where
  start: "in_flight cap (in_flight_new cap) 0"
| served: "in_flight cap l n \<Longrightarrow> try_acquire_owned l = Some l' \<Longrightarrow> in_flight cap l' (Suc n)"
| ended: "in_flight cap l (Suc n) \<Longrightarrow> in_flight cap (drop_permit l) n"

lemma in_flight_invariant: "in_flight cap l n \<Longrightarrow> if_sem l + n = cap \<and> if_cap l = cap"
  by (induction rule: in_flight.induct)
     (auto simp: in_flight_new_def try_acquire_owned_def drop_permit_def split: if_splits)

text \<open>
  Never more requests are in flight than the capacity, and a request is refused exactly when
  the capacity is in use.
\<close>

theorem in_flight_bounded:
  assumes "in_flight cap l n"
  shows "n \<le> cap \<and> (try_acquire_owned l = None \<longleftrightarrow> n = cap)"
  using in_flight_invariant [OF assms] by (auto simp: try_acquire_owned_def)

theorem in_flight_bounded_witness:
  "try_acquire_owned (\<lparr>if_sem = 0, if_cap = 1\<rparr>) = None"
proof -
  have "in_flight 1 (in_flight_new 1) 0" by (rule in_flight.start)
  moreover have "try_acquire_owned (in_flight_new 1) = Some \<lparr>if_sem = 0, if_cap = 1\<rparr>"
    by (simp add: in_flight_new_def try_acquire_owned_def)
  ultimately have "in_flight 1 \<lparr>if_sem = 0, if_cap = 1\<rparr> (Suc 0)" by (rule in_flight.served)
  from in_flight_bounded [OF this] show ?thesis by simp
qed

section \<open>Login lockout\<close>

text \<open>\<open>auth/lockout.rs\<close>: the times of the failed logins of an account against the clock.\<close>

definition MAX_FAILS :: nat where "MAX_FAILS = 5"

definition lockout_window :: int where "lockout_window = 15 * 60 * 10 ^ 9"

definition is_locked_out :: "datetime list \<Rightarrow> datetime \<Rightarrow> bool" where
  "is_locked_out failures now =
     (MAX_FAILS \<le> length (filter (\<lambda>t. now - lockout_window \<le> t) failures))"

text \<open>\<open>num_seconds\<close> rounds towards zero.\<close>

definition num_seconds :: "int \<Rightarrow> i64" where
  "num_seconds ns = sgn ns * (\<bar>ns\<bar> div 10 ^ 9)"

definition retry_after_seconds :: "datetime list \<Rightarrow> datetime \<Rightarrow> i64" where
  "retry_after_seconds failures now =
     (case filter (\<lambda>t. now - lockout_window \<le> t) failures of
        [] \<Rightarrow> 0
      | t # ts \<Rightarrow> max 0 (num_seconds (fold min ts t + lockout_window - now)))"

section \<open>Pages\<close>

text \<open>\<open>api/pagination.rs\<close>\<close>

definition MAX_PER_PAGE :: u32 where "MAX_PER_PAGE = 200"
definition DEFAULT_PER_PAGE :: u32 where "DEFAULT_PER_PAGE = 50"

definition clamp_per_page :: "u32 \<Rightarrow> u32" where
  "clamp_per_page requested = (if requested = 0 then DEFAULT_PER_PAGE else min requested MAX_PER_PAGE)"

definition clamp_page :: "u32 \<Rightarrow> u32" where
  "clamp_page requested = max requested 1"

text \<open>On a 64-bit target a \<open>u64\<close> always fits a \<open>usize\<close>.\<close>

definition offset :: "u32 \<Rightarrow> u32 \<Rightarrow> u64" where
  "offset page per_page =
     saturating_mul_u64 (of_nat (unat (clamp_page page)) - 1) (of_nat (unat per_page))"

definition total_pages :: "u64 \<Rightarrow> u32 \<Rightarrow> u32" where
  "total_pages items per_page =
     (let p = unat (clamp_per_page per_page) in of_nat ((unat items + p - 1) div p))"

lemma clamp_per_page_bounds: "0 < unat (clamp_per_page p)" "unat (clamp_per_page p) \<le> 200"
proof -
  have "p \<noteq> 0 \<Longrightarrow> 0 < unat p" by (simp add: unat_gt_0)
  then show "0 < unat (clamp_per_page p)" "unat (clamp_per_page p) \<le> 200"
    by (auto simp: clamp_per_page_def MAX_PER_PAGE_def DEFAULT_PER_PAGE_def min_def word_le_nat_alt)
qed

lemma unat_offset: "unat (offset page pp) = (max (unat page) 1 - 1) * unat pp"
proof -
  have m: "unat (clamp_page page) = max (unat page) 1"
    by (simp add: clamp_page_def max_def word_le_nat_alt)
  let ?p = "max (unat page) 1"
  have p: "?p < 2 ^ 32" "1 \<le> ?p" using unat_u32_less [of page] by auto
  then have "unat (of_nat ?p - 1 :: u64) = ?p - 1"
    by (subst unat_sub) (auto simp: word_le_nat_alt unat_of_nat_u64)
  moreover have "unat (of_nat (unat pp) :: u64) = unat pp"
    using unat_u32_less [of pp] by (intro unat_of_nat_u64) simp
  moreover have "(?p - 1) * unat pp \<le> 2 ^ 64 - 1"
  proof -
    have "(?p - 1) * unat pp \<le> (2 ^ 32 - 1) * (2 ^ 32 - 1)"
      using p unat_u32_less [of pp] by (intro mult_le_mono) auto
    then show ?thesis by simp
  qed
  ultimately show ?thesis by (simp add: offset_def m unat_saturating_mul_u64)
qed

lemma unat_total_pages:
  assumes "unat items < 2 ^ 32"
  shows "unat (total_pages items pp) = (unat items + unat (clamp_per_page pp) - 1) div unat (clamp_per_page pp)"
proof -
  let ?p = "unat (clamp_per_page pp)"
  have p: "0 < ?p" by (rule clamp_per_page_bounds)
  have "(unat items + ?p - 1) div ?p \<le> unat items"
  proof (cases "unat items = 0")
    case False
    have "unat items + ?p - 1 \<le> unat items * ?p"
    proof -
      obtain a b where "unat items = Suc a" "?p = Suc b" using False p by (metis not0_implies_Suc less_irrefl)
      then show ?thesis by (simp add: algebra_simps)
    qed
    then have "(unat items + ?p - 1) div ?p \<le> unat items * ?p div ?p" by (rule div_le_mono)
    then show ?thesis using p by simp
  qed (use p in simp)
  then show ?thesis
    unfolding total_pages_def Let_def using assms by (intro unat_of_nat_u32) linarith
qed

text \<open>
  The pages of a list cover it: of fewer than two to the 32 rows, each lies on exactly one page
  between the first and \<open>total_pages\<close>, when the rows of a page are those from its offset on;
  no offset wraps, however deep the page is.
\<close>

theorem pages_cover_rows:
  assumes "unat items < 2 ^ 32" and "i < unat items"
  shows "\<exists>!page. 1 \<le> unat page \<and> unat page \<le> unat (total_pages items pp)
    \<and> unat (offset page (clamp_per_page pp)) \<le> i
    \<and> i < unat (offset page (clamp_per_page pp)) + unat (clamp_per_page pp)"
proof (rule ex1I)
  let ?p = "unat (clamp_per_page pp)"
  have p: "0 < ?p" by (rule clamp_per_page_bounds)
  let ?page = "of_nat (i div ?p + 1) :: u32"
  have "i div ?p \<le> i" by (rule div_le_dividend)
  then have u: "unat ?page = i div ?p + 1" using assms by (intro unat_of_nat_u32) linarith
  have o: "unat (offset page (clamp_per_page pp)) = (unat page - 1) * ?p" if "1 \<le> unat page" for page
    using that by (simp add: unat_offset max_def)
  have "(unat items + ?p - 1) div ?p = (unat items - 1) div ?p + 1"
    using div_add_self2 [of ?p "unat items - 1"] assms(2) p by simp
  moreover have "i div ?p \<le> (unat items - 1) div ?p" using assms(2) by (intro div_le_mono) simp
  ultimately have "unat ?page \<le> unat (total_pages items pp)"
    by (simp only: u unat_total_pages [OF assms(1)])
  moreover have "i div ?p * ?p \<le> i" "i < i div ?p * ?p + ?p"
    using dividend_less_div_times [OF p, of i] by (simp_all add: add.commute)
  ultimately show "1 \<le> unat ?page \<and> unat ?page \<le> unat (total_pages items pp)
    \<and> unat (offset ?page (clamp_per_page pp)) \<le> i \<and> i < unat (offset ?page (clamp_per_page pp)) + ?p"
    using o [of ?page] by (simp only: u) simp
  fix page
  assume a: "1 \<le> unat page \<and> unat page \<le> unat (total_pages items pp)
    \<and> unat (offset page (clamp_per_page pp)) \<le> i \<and> i < unat (offset page (clamp_per_page pp)) + ?p"
  then have "i div ?p = unat page - 1"
    using o [of page] by (intro div_nat_eqI) (auto simp: algebra_simps)
  then have "unat page = unat ?page" using a u by simp
  then show "page = ?page" by (simp only: word_unat_eq_iff)
qed

theorem pages_cover_rows_witness:
  "\<exists>!page. 1 \<le> unat page \<and> unat page \<le> unat (total_pages 250 0)
    \<and> unat (offset page (clamp_per_page 0)) \<le> 249
    \<and> 249 < unat (offset page (clamp_per_page 0)) + unat (clamp_per_page 0)"
  by (rule pages_cover_rows) simp_all

text \<open>
  With exactly \<open>MAX_FAILS\<close> failures in the window, an account is free again one second after the
  announced time, when there are no new failures.
\<close>

lemma fold_min_mem: "fold min ts t \<in> set (t # ts)" for t :: int
  by (induction ts arbitrary: t) (auto simp: min_def)

lemma lockout_ends:
  assumes "length (filter (\<lambda>t. now - lockout_window \<le> t) failures) = MAX_FAILS"
    and "later = now + (retry_after_seconds failures now + 1) * 10 ^ 9"
  shows "\<not> is_locked_out failures later"
proof -
  define inside where "inside = filter (\<lambda>t. now - lockout_window \<le> t) failures"
  have len: "length inside = MAX_FAILS" using assms(1) by (simp add: inside_def)
  then have "inside \<noteq> []" by (auto simp: MAX_FAILS_def)
  then obtain t ts where f: "inside = t # ts" by (auto simp: neq_Nil_conv)
  let ?m = "fold min ts t"
  have "?m \<in> set inside" using fold_min_mem [of ts t] by (simp add: f)
  have r: "?m + lockout_window - now < (retry_after_seconds failures now + 1) * 10 ^ 9"
  proof (cases "0 \<le> ?m + lockout_window - now")
    case True
    then have "num_seconds (?m + lockout_window - now) = (?m + lockout_window - now) div 10 ^ 9"
      by (auto simp: num_seconds_def sgn_if)
    then show ?thesis
      using True f by (simp add: retry_after_seconds_def flip: inside_def)
  next
    case False
    then show ?thesis using f by (simp add: retry_after_seconds_def flip: inside_def)
  qed
  have "now \<le> later" using f by (simp add: assms(2) retry_after_seconds_def flip: inside_def)
  then have "filter (\<lambda>t. later - lockout_window \<le> t) failures
      = filter (\<lambda>t. later - lockout_window \<le> t) inside"
    unfolding inside_def by (simp add: filter_filter) (rule filter_cong, auto)
  moreover have "\<not> later - lockout_window \<le> ?m" using r assms(2) by simp
  then have "length (filter (\<lambda>t. later - lockout_window \<le> t) inside) < length inside"
    using \<open>?m \<in> set inside\<close> by (rule length_filter_less [rotated])
  ultimately show ?thesis using len by (simp add: is_locked_out_def)
qed

end
