(* ===== verification/Auth.thy ===== *)
theory Auth
  imports Permissions RateLimit
begin

text \<open>
  Who is calling: the authentication of a request by master key, API key or session cookie, and
  the scope, CSRF and permission checks behind it (\<open>api/middleware/mod.rs\<close>).

  The lookups of the database are arguments; \<open>Inl\<close> is a database error. Sessions and the rate
  limiter are the state the middleware changes. The clock is read at several places; \<open>clk i\<close> is
  the i-th reading.
\<close>

section \<open>Contexts\<close>

datatype scope = SGenerate | SRead | SAdmin

definition scope_parse :: "string \<Rightarrow> scope option" where
  "scope_parse s =
     (if trim s = ''generate'' then Some SGenerate
      else if trim s = ''read'' then Some SRead
      else if trim s = ''admin'' then Some SAdmin else None)"

record user_context =
  uc_user_id :: string
  uc_email :: string
  uc_role :: role

record key_context =
  kc_key_id :: "uuid option"
  kc_scopes :: "scope list"
  kc_rpm_limit :: "u32 option"
  kc_quota_remaining :: "f64 option"
  kc_webhook_url :: "string option"
  kc_user :: "user_context option"
  kc_permissions :: "permission list"
  kc_session_id :: "string option"
  kc_org_id :: "string option"
  kc_app_id :: "string option"

definition is_platform_admin :: "key_context \<Rightarrow> bool" where
  "is_platform_admin ctx = (kc_user ctx = None \<and> kc_key_id ctx = None \<and> kc_session_id ctx = None)"

definition grantable_scopes :: "key_context \<Rightarrow> scope list" where
  "grantable_scopes ctx =
     (if is_platform_admin ctx then [SGenerate, SRead, SAdmin]
      else if kc_user ctx \<noteq> None
      then if KeyWriteAny \<in> set (kc_permissions ctx) then [SGenerate, SRead, SAdmin]
           else [SGenerate, SRead]
      else kc_scopes ctx)"

section \<open>Rows and requests\<close>

record user_row =
  us_id :: string
  us_email :: string
  us_role :: role
  us_is_active :: bool

record session_row =
  sn_id :: string
  sn_user_id :: string
  sn_created_at :: datetime
  sn_expires_at :: datetime
  sn_ip :: "string option"
  sn_user_agent :: "string option"
  sn_csrf_token :: string

record api_key =
  ky_id :: uuid
  ky_name :: string
  ky_key_hash :: string
  ky_key_prefix :: string
  ky_created_at :: datetime
  ky_expires_at :: "datetime option"
  ky_is_active :: bool
  ky_token_quota :: "f64 option"
  ky_tokens_used :: f64
  ky_rpm_limit :: "u32 option"
  ky_scopes :: string
  ky_webhook_url :: "string option"
  ky_owner_user_id :: "string option"
  ky_org_id :: "string option"
  ky_app_id :: "string option"
  ky_public_id :: "string option"

datatype mode = SingleTenant | Hosted

record auth_config =
  au_master_key :: "string option"
  au_mode :: mode
  au_key_hash :: "string \<Rightarrow> string"

record auth_db =
  ad_session_fails :: "string \<Rightarrow> bool"
  ad_user :: "string \<Rightarrow> unit + user_row option"
  ad_membership :: "string \<Rightarrow> string \<Rightarrow> unit + role option"
  ad_orgs_for_user :: "string \<Rightarrow> unit + (string \<times> role) list"
  ad_app_org :: "string \<Rightarrow> unit + string option"
  ad_apps_for_org :: "string \<Rightarrow> unit + string list"
  ad_key_by_hash :: "string \<Rightarrow> unit + api_key option"

record auth_state =
  as_sessions :: "string \<rightharpoonup> session_row"
  as_limiter :: rate_limiter

record http_request =
  rq_method :: string
  rq_authorization :: "string option"
  rq_cookie :: "string option"
  rq_org_id :: "string option"
  rq_app_id :: "string option"
  rq_csrf_token :: "string option"

abbreviation header :: "string option \<Rightarrow> string option" where
  "header h \<equiv> Option.bind h header_text"

record denial =
  dn_status :: nat
  dn_type :: string
  dn_message :: string
  dn_headers :: "(string \<times> string) list"

datatype auth_result = Pass key_context | Deny denial

definition deny :: "nat \<Rightarrow> string \<Rightarrow> string \<Rightarrow> auth_result" where
  "deny status kind message =
     Deny \<lparr>dn_status = status, dn_type = kind, dn_message = message, dn_headers = []\<rparr>"

definition unauthorized_response :: "string \<Rightarrow> auth_result" where
  "unauthorized_response msg = deny 401 ''authentication_error'' msg"

definition forbidden_response :: "string \<Rightarrow> auth_result" where
  "forbidden_response msg = deny 403 ''forbidden'' msg"

definition internal_error_response :: "string \<Rightarrow> auth_result" where
  "internal_error_response msg = deny 500 ''internal_error'' msg"

definition constant_time_eq :: "string \<Rightarrow> string \<Rightarrow> bool" where
  "constant_time_eq a b =
     (let mx = max (length a) (length b); pad = (\<lambda>s. s @ replicate (mx - length s) (CHR 0x00))
      in pad a = pad b \<and> length a = length b)"

lemma constant_time_eq_iff [simp]: "constant_time_eq a b \<longleftrightarrow> a = b"
  by (auto simp: constant_time_eq_def Let_def)

definition DEFAULT_ORG_ID :: string where
  "DEFAULT_ORG_ID = ''00000000-0000-0000-0000-000000000001''"

definition DEFAULT_APP_ID :: string where
  "DEFAULT_APP_ID = ''00000000-0000-0000-0000-000000000002''"

definition cookie_value :: "string option \<Rightarrow> string \<Rightarrow> string option" where
  "cookie_value cookie name =
     Option.bind (header cookie) (\<lambda>c.
       case filter (\<lambda>kv. case split_once CHR ''='' kv of Some (k, v) \<Rightarrow> k = name | None \<Rightarrow> False)
              (map trim (split_on CHR '';'' c)) of
         [] \<Rightarrow> None
       | kv # _ \<Rightarrow> map_option snd (split_once CHR ''='' kv))"

section \<open>API keys\<close>

definition key_context_of :: "api_key \<Rightarrow> key_context" where
  "key_context_of key =
     \<lparr>kc_key_id = Some (ky_id key),
      kc_scopes = List.map_filter scope_parse (split_on CHR '','' (ky_scopes key)),
      kc_rpm_limit = ky_rpm_limit key,
      kc_quota_remaining = map_option (\<lambda>q. f64_sub q (ky_tokens_used key)) (ky_token_quota key),
      kc_webhook_url = ky_webhook_url key, kc_user = None, kc_permissions = [],
      kc_session_id = None, kc_org_id = ky_org_id key, kc_app_id = ky_app_id key\<rparr>"

text \<open>
  The answer to a request over the rate: \<open>secs\<close> is the present in seconds since the epoch. The
  sum wraps, as in a release build (a debug build panics), for the waiting time of a limit of 0.
\<close>

definition rate_limited :: "u32 \<Rightarrow> u64 \<Rightarrow> u64 \<Rightarrow> auth_result" where
  "rate_limited rpm wait secs =
     (let show_u64 = (\<lambda>w :: u64. nat_to_string (unat w)) in
      Deny \<lparr>dn_status = 429, dn_type = ''rate_limit_exceeded'',
        dn_message = ''Rate limit exceeded. Retry after '' @ show_u64 wait @ '' seconds.'',
        dn_headers = [(''retry-after'', show_u64 wait),
          (''x-ratelimit-limit'', nat_to_string (unat rpm)),
          (''x-ratelimit-remaining'', ''0''),
          (''x-ratelimit-reset'', show_u64 (secs + wait))]\<rparr>)"

definition handle_db_key ::
  "auth_config \<Rightarrow> auth_db \<Rightarrow> string \<Rightarrow> datetime \<Rightarrow> instant \<Rightarrow> u64 \<Rightarrow> auth_state \<Rightarrow> auth_result \<times> auth_state" where
  "handle_db_key cfg db k now tick secs st =
     (case ad_key_by_hash db (au_key_hash cfg k) of
        Inl _ \<Rightarrow> (internal_error_response ''Internal authentication error'', st)
      | Inr None \<Rightarrow> (unauthorized_response ''Invalid or inactive API key'', st)
      | Inr (Some key) \<Rightarrow>
          if (case ky_expires_at key of Some t \<Rightarrow> t < now | None \<Rightarrow> False)
          then (unauthorized_response ''API key expired'', st)
          else if (case ky_token_quota key of Some q \<Rightarrow> q \<le> ky_tokens_used key | None \<Rightarrow> False)
          then (deny 402 ''quota_exceeded'' ''Token quota exceeded for this API key'', st)
          else (case ky_rpm_limit key of
             None \<Rightarrow> (Pass (key_context_of key), st)
           | Some rpm \<Rightarrow>
               (case try_take (ky_id key) rpm tick (as_limiter st) of
                  (Inr _, bs) \<Rightarrow> (Pass (key_context_of key), st\<lparr>as_limiter := bs\<rparr>)
                | (Inl wait, bs) \<Rightarrow> (rate_limited rpm wait secs, st\<lparr>as_limiter := bs\<rparr>))))"

text \<open>The headers added to the response of a key with a rate limit.\<close>

definition rate_headers :: "key_context \<Rightarrow> instant \<Rightarrow> u64 \<Rightarrow> auth_state \<Rightarrow> (string \<times> string) list" where
  "rate_headers ctx tick secs st =
     (case (kc_key_id ctx, kc_rpm_limit ctx) of
        (Some k, Some rpm) \<Rightarrow>
          (let snap = snapshot k rpm tick (as_limiter st) in
           [(''x-ratelimit-limit'', nat_to_string (unat rpm)),
            (''x-ratelimit-remaining'', nat_to_string (unat (rl_remaining snap))),
            (''x-ratelimit-reset'',
              nat_to_string (unat (secs + of_nat (rl_reset_in snap div 10 ^ 9))))])
      | _ \<Rightarrow> [])"

section \<open>Sessions\<close>

text \<open>The active organization and the caller's role in it.\<close>

definition active_org ::
  "auth_config \<Rightarrow> auth_db \<Rightarrow> http_request \<Rightarrow> user_row \<Rightarrow> auth_result + string option \<times> role option" where
  "active_org cfg db rq user =
     (case header (rq_org_id rq) of
        Some o' \<Rightarrow>
          (case ad_membership db o' (us_id user) of
             Inr (Some r) \<Rightarrow> Inr (Some o', Some r)
           | Inr None \<Rightarrow> Inl (forbidden_response ''Not a member of the requested organization'')
           | Inl _ \<Rightarrow> Inl (internal_error_response ''organization lookup failed''))
      | None \<Rightarrow>
          (case ad_orgs_for_user db (us_id user) of
             Inr ((o', r) # _) \<Rightarrow> Inr (Some o', Some r)
           | _ \<Rightarrow> Inr (if au_mode cfg = SingleTenant then Some DEFAULT_ORG_ID else None, None)))"

definition active_app ::
  "auth_db \<Rightarrow> http_request \<Rightarrow> string option \<Rightarrow> auth_result + string option" where
  "active_app db rq org =
     (case (org, header (rq_app_id rq)) of
        (Some o', Some a) \<Rightarrow>
          (case ad_app_org db a of
             Inr app \<Rightarrow>
               if app = Some o' then Inr (Some a)
               else Inl (forbidden_response ''Application does not belong to the active organization'')
           | Inl _ \<Rightarrow> Inl (internal_error_response ''application lookup failed''))
      | (Some o', None) \<Rightarrow>
          if o' = DEFAULT_ORG_ID then Inr (Some DEFAULT_APP_ID)
          else (case ad_apps_for_org db o' of
                  Inr apps \<Rightarrow> Inr (case apps of [] \<Rightarrow> None | a # _ \<Rightarrow> Some a)
                | Inl _ \<Rightarrow> Inl (internal_error_response ''application listing failed''))
      | _ \<Rightarrow> Inr None)"

definition hours :: "int \<Rightarrow> int" where "hours n = n * (3600 * 10 ^ 9)"

definition session_context ::
  "user_row \<Rightarrow> string \<Rightarrow> role option \<Rightarrow> string option \<Rightarrow> string option \<Rightarrow> key_context" where
  "session_context user sid membership org app =
     \<lparr>kc_key_id = None, kc_scopes = [SGenerate, SRead, SAdmin], kc_rpm_limit = None,
      kc_quota_remaining = None, kc_webhook_url = None,
      kc_user = Some \<lparr>uc_user_id = us_id user, uc_email = us_email user, uc_role = us_role user\<rparr>,
      kc_permissions = permissions_for (unwrap_or (us_role user) membership),
      kc_session_id = Some sid, kc_org_id = org, kc_app_id = app\<rparr>"

definition session_auth ::
  "auth_config \<Rightarrow> auth_db \<Rightarrow> http_request \<Rightarrow> string \<Rightarrow> (nat \<Rightarrow> datetime) \<Rightarrow> auth_state
   \<Rightarrow> auth_result \<times> auth_state" where
  "session_auth cfg db rq sid clk st =
     (case (if ad_session_fails db sid then None else as_sessions st sid) of
        None \<Rightarrow> (unauthorized_response ''Invalid session'', st)
      | Some sess \<Rightarrow>
          if sn_expires_at sess < clk 0
          then (unauthorized_response ''Session expired'',
                st\<lparr>as_sessions := (as_sessions st)(sid := None)\<rparr>)
          else (case ad_user db (sn_user_id sess) of
             Inr (Some user) \<Rightarrow>
               if \<not> us_is_active user then (unauthorized_response ''Account inactive'', st)
               else
                 let st' = (if sn_expires_at sess < clk 1 + hours 24
                            then st\<lparr>as_sessions := (as_sessions st)
                                   (sid \<mapsto> sess\<lparr>sn_expires_at := clk 2 + hours (7 * 24)\<rparr>)\<rparr>
                            else st)
                 in (case active_org cfg db rq user of
                       Inl r \<Rightarrow> (r, st')
                     | Inr (org, membership) \<Rightarrow>
                         (case active_app db rq org of
                            Inl r \<Rightarrow> (r, st')
                          | Inr app \<Rightarrow> (Pass (session_context user sid membership org app), st')))
           | _ \<Rightarrow> (unauthorized_response ''Invalid session'', st)))"

section \<open>The middleware\<close>

definition bearer :: "http_request \<Rightarrow> string option" where
  "bearer rq =
     opt_filter (\<lambda>k. k \<noteq> [])
       (map_option (\<lambda>v. unwrap_or v (strip_prefix ''Bearer '' v)) (header (rq_authorization rq)))"

definition root_context :: "string option \<Rightarrow> string option \<Rightarrow> key_context" where
  "root_context org app =
     \<lparr>kc_key_id = None, kc_scopes = [SGenerate, SRead, SAdmin], kc_rpm_limit = None,
      kc_quota_remaining = None, kc_webhook_url = None, kc_user = None, kc_permissions = [],
      kc_session_id = None, kc_org_id = org, kc_app_id = app\<rparr>"

definition cookie_or_bypass ::
  "auth_config \<Rightarrow> auth_db \<Rightarrow> http_request \<Rightarrow> (nat \<Rightarrow> datetime) \<Rightarrow> auth_state \<Rightarrow> auth_result \<times> auth_state" where
  "cookie_or_bypass cfg db rq clk st =
     (case cookie_value (rq_cookie rq) ''litegen_session'' of
        Some sid \<Rightarrow> session_auth cfg db rq sid clk st
      | None \<Rightarrow>
          if au_master_key cfg = None \<and> au_mode cfg = SingleTenant
          then (Pass (root_context (Some DEFAULT_ORG_ID) (Some DEFAULT_APP_ID)), st)
          else (unauthorized_response
                  ''Missing API key. Provide via Authorization: Bearer <key>'', st))"

definition auth_middleware ::
  "auth_config \<Rightarrow> auth_db \<Rightarrow> http_request \<Rightarrow> (nat \<Rightarrow> datetime) \<Rightarrow> instant \<Rightarrow> u64 \<Rightarrow> auth_state
   \<Rightarrow> auth_result \<times> auth_state" where
  "auth_middleware cfg db rq clk tick secs st =
     (case bearer rq of
        None \<Rightarrow> cookie_or_bypass cfg db rq clk st
      | Some k \<Rightarrow>
          (case au_master_key cfg of
             Some master \<Rightarrow>
               if constant_time_eq k master
               then (Pass (case au_mode cfg of
                             SingleTenant \<Rightarrow> root_context (Some DEFAULT_ORG_ID) (Some DEFAULT_APP_ID)
                           | Hosted \<Rightarrow> root_context None None), st)
               else handle_db_key cfg db k (clk 0) tick secs st
           | None \<Rightarrow>
               if au_mode cfg = SingleTenant
               then (Pass (root_context (Some DEFAULT_ORG_ID) (Some DEFAULT_APP_ID)), st)
               else cookie_or_bypass cfg db rq clk st))"

text \<open>The checks behind it: \<open>Some\<close> is the refusal of a request.\<close>

definition check_scope :: "scope \<Rightarrow> key_context option \<Rightarrow> auth_result option" where
  "check_scope required ctx =
     (case ctx of
        Some c \<Rightarrow>
          if required \<in> set (kc_scopes c) then None
          else Some (deny 403 ''forbidden_scope'' ''Insufficient scope for this endpoint'')
      | None \<Rightarrow> Some (unauthorized_response ''Not authenticated''))"

definition check_permission :: "permission \<Rightarrow> key_context option \<Rightarrow> auth_result option" where
  "check_permission required ctx =
     (case ctx of
        Some c \<Rightarrow>
          if required \<in> set (kc_permissions c) then None
          else Some (deny 403 ''forbidden_permission''
            (''Permission '' @ [CHR 0x27] @ perm_string required @ [CHR 0x27] @ '' required''))
      | None \<Rightarrow> Some (unauthorized_response ''Not authenticated''))"

definition csrf_middleware :: "auth_db \<Rightarrow> http_request \<Rightarrow> key_context option \<Rightarrow> auth_state \<Rightarrow> auth_result option" where
  "csrf_middleware db rq ctx st =
     (if rq_method rq \<notin> {''POST'', ''PUT'', ''PATCH'', ''DELETE''} then None
      else case Option.bind ctx kc_session_id of
        None \<Rightarrow> None
      | Some sid \<Rightarrow>
          (case header (rq_csrf_token rq) of
             None \<Rightarrow> Some (deny 403 ''csrf_error'' ''CSRF token missing'')
           | Some token \<Rightarrow>
               (case (if ad_session_fails db sid then None else as_sessions st sid) of
                  None \<Rightarrow> Some (unauthorized_response ''Session not found'')
                | Some sess \<Rightarrow>
                    if constant_time_eq (sn_csrf_token sess) token then None
                    else Some (deny 403 ''csrf_error'' ''Invalid CSRF token''))))"

section \<open>Properties\<close>

lemma deny_not_Pass [simp]:
  "deny n k m \<noteq> Pass ctx" "unauthorized_response m \<noteq> Pass ctx"
  "forbidden_response m \<noteq> Pass ctx" "internal_error_response m \<noteq> Pass ctx"
  by (simp_all add: deny_def unauthorized_response_def forbidden_response_def internal_error_response_def)

lemma active_org_denies: "active_org cfg db rq user = Inl r \<Longrightarrow> r \<noteq> Pass ctx"
  by (auto simp: active_org_def split: option.splits sum.splits list.splits)

lemma active_app_denies: "active_app db rq org = Inl r \<Longrightarrow> r \<noteq> Pass ctx"
  by (auto simp: active_app_def split: option.splits sum.splits if_splits)



lemma session_pass:
  assumes "session_auth cfg db rq sid clk st = (Pass ctx, st')"
  shows "\<exists>sess user org membership app.
    as_sessions st sid = Some sess \<and> clk 0 \<le> sn_expires_at sess
    \<and> ad_user db (sn_user_id sess) = Inr (Some user) \<and> us_is_active user
    \<and> active_org cfg db rq user = Inr (org, membership) \<and> active_app db rq org = Inr app
    \<and> ctx = session_context user sid membership org app"
proof -
  from assms obtain sess where s: "as_sessions st sid = Some sess" "\<not> sn_expires_at sess < clk 0"
    by (auto simp: session_auth_def split: option.splits if_splits)
  with assms obtain user where u: "ad_user db (sn_user_id sess) = Inr (Some user)" "us_is_active user"
    by (auto simp: session_auth_def split: option.splits sum.splits if_splits)
  obtain org membership where o: "active_org cfg db rq user = Inr (org, membership)"
    using assms s u active_org_denies
    by (cases "active_org cfg db rq user") (auto simp: session_auth_def Let_def split: if_splits)
  obtain app where a: "active_app db rq org = Inr app"
    using assms s u o active_app_denies
    by (cases "active_app db rq org") (auto simp: session_auth_def Let_def split: if_splits)
  have "ctx = session_context user sid membership org app"
    using assms s u o a by (simp add: session_auth_def Let_def split: if_splits)
  with s u o a show ?thesis by force
qed

lemma db_key_pass:
  assumes "handle_db_key cfg db k now tick secs st = (Pass ctx, st')"
  shows "\<exists>key. ad_key_by_hash db (au_key_hash cfg k) = Inr (Some key) \<and> ctx = key_context_of key
    \<and> (case ky_expires_at key of None \<Rightarrow> True | Some t \<Rightarrow> now \<le> t)
    \<and> (case ky_token_quota key of None \<Rightarrow> True | Some q \<Rightarrow> ky_tokens_used key < q)"
  using assms
  by (auto simp: handle_db_key_def rate_limited_def Let_def not_less split: sum.splits option.splits if_splits prod.splits)

lemma cookie_pass:
  assumes "cookie_or_bypass cfg db rq clk st = (Pass ctx, st')"
  shows "(\<exists>sid. session_auth cfg db rq sid clk st = (Pass ctx, st'))
    \<or> (au_master_key cfg = None \<and> au_mode cfg = SingleTenant
       \<and> ctx = root_context (Some DEFAULT_ORG_ID) (Some DEFAULT_APP_ID))"
  using assms
  by (auto simp: cookie_or_bypass_def split: option.splits if_splits)

lemma contexts [simp]:
  "\<not> is_platform_admin (session_context user sid m org app)"
  "\<not> is_platform_admin (key_context_of key)" "is_platform_admin (root_context org app)"
  by (simp_all add: is_platform_admin_def session_context_def key_context_of_def root_context_def)

text \<open>C4:
  In hosted mode only the holder of the master key is the platform admin: a request is let
  through with a context that counts as platform admin exactly when a master key is configured
  and the request carries it as its bearer token. (In single-tenant mode the bypass without a
  master key counts as one too.) So no session, no API key and no anonymous request gets there.
\<close>

theorem hosted_admin_needs_master_key:
  assumes "au_mode cfg = Hosted"
    and "auth_middleware cfg db rq clk tick secs st = (Pass ctx, st')"
  shows "is_platform_admin ctx \<longleftrightarrow> au_master_key cfg \<noteq> None \<and> bearer rq = au_master_key cfg"
proof (cases "bearer rq")
  case None
  with assms have "cookie_or_bypass cfg db rq clk st = (Pass ctx, st')" by (simp add: auth_middleware_def)
  from cookie_pass [OF this] assms(1) obtain sid where "session_auth cfg db rq sid clk st = (Pass ctx, st')"
    by auto
  from session_pass [OF this] None show ?thesis by auto
next
  case (Some k)
  show ?thesis
  proof (cases "au_master_key cfg")
    case None
    with assms Some have "cookie_or_bypass cfg db rq clk st = (Pass ctx, st')" by (simp add: auth_middleware_def)
    from cookie_pass [OF this] assms(1) obtain sid where "session_auth cfg db rq sid clk st = (Pass ctx, st')"
      by auto
    from session_pass [OF this] None show ?thesis by auto
  next
    case (Some master)
    show ?thesis
    proof (cases "k = master")
      case True
      then show ?thesis using assms \<open>bearer rq = Some k\<close> Some by (auto simp: auth_middleware_def)
    next
      case False
      with assms \<open>bearer rq = Some k\<close> Some
      have "handle_db_key cfg db k (clk 0) tick secs st = (Pass ctx, st')"
        by (simp add: auth_middleware_def)
      from db_key_pass [OF this] False Some \<open>bearer rq = Some k\<close> show ?thesis by auto
    qed
  qed
qed


text \<open>
  No cross-site request changes anything: when a request with a changing method is let through
  both by the authentication with a session and by the CSRF check, it carries the token stored
  with that session. A request with a bearer token or a reading method needs none.
\<close>

theorem session_changes_need_csrf_token:
  assumes "csrf_middleware db rq (Some ctx) st = None"
    and "rq_method rq \<in> {''POST'', ''PUT'', ''PATCH'', ''DELETE''}"
    and "kc_session_id ctx = Some sid"
  shows "\<exists>sess. as_sessions st sid = Some sess \<and> header (rq_csrf_token rq) = Some (sn_csrf_token sess)"
  using assms by (auto simp: csrf_middleware_def split: option.splits if_splits)

section \<open>Examples\<close>

definition example_user :: user_row where
  "example_user = \<lparr>us_id = ''u1'', us_email = ''a@b.c'', us_role = Owner, us_is_active = True\<rparr>"

definition example_session :: session_row where
  "example_session = \<lparr>sn_id = ''s1'', sn_user_id = ''u1'', sn_created_at = 0, sn_expires_at = 10 ^ 20,
     sn_ip = None, sn_user_agent = None, sn_csrf_token = ''tok''\<rparr>"

definition example_auth_db :: auth_db where
  "example_auth_db = \<lparr>ad_session_fails = (\<lambda>_. False), ad_user = (\<lambda>_. Inr (Some example_user)),
     ad_membership = (\<lambda>_ _. Inr None), ad_orgs_for_user = (\<lambda>_. Inr [(''org'', Member)]),
     ad_app_org = (\<lambda>_. Inr (Some ''org'')), ad_apps_for_org = (\<lambda>_. Inr [''app'']),
     ad_key_by_hash = (\<lambda>_. Inr None)\<rparr>"

definition example_auth_config :: auth_config where
  "example_auth_config = \<lparr>au_master_key = Some ''root'', au_mode = Hosted, au_key_hash = (\<lambda>k. k)\<rparr>"

definition example_request :: http_request where
  "example_request = \<lparr>rq_method = ''POST'', rq_authorization = None,
     rq_cookie = Some ''a=b; litegen_session=s1'', rq_org_id = None, rq_app_id = None,
     rq_csrf_token = Some ''tok''\<rparr>"

definition example_auth_state :: auth_state where
  "example_auth_state = \<lparr>as_sessions = [''s1'' \<mapsto> example_session], as_limiter = Map.empty\<rparr>"

text \<open>The global role of the user is owner, but in the organization it is a member.\<close>

definition example_context :: key_context where
  "example_context = session_context example_user ''s1'' (Some Member) (Some ''org'') (Some ''app'')"


lemma example_master_passes:
  "auth_middleware example_auth_config example_auth_db
     (example_request\<lparr>rq_authorization := Some ''Bearer root''\<rparr>) (\<lambda>_. 1) 0 0 example_auth_state
     = (Pass (root_context None None), example_auth_state)"
proof -
  have "bearer (example_request\<lparr>rq_authorization := Some ''Bearer root''\<rparr>) = Some ''root''" by code_simp
  then show ?thesis by (simp add: auth_middleware_def example_auth_config_def)
qed

theorem hosted_admin_needs_master_key_witness:
  "bearer (example_request\<lparr>rq_authorization := Some ''Bearer root''\<rparr>) = Some ''root''
   \<and> \<not> is_platform_admin example_context"
proof -
  have h: "au_mode example_auth_config = Hosted" "au_master_key example_auth_config = Some ''root''"
    by (simp_all add: example_auth_config_def)
  show ?thesis
    using hosted_admin_needs_master_key [OF h(1) example_master_passes] h(2)
    by (simp add: example_context_def)
qed


theorem session_changes_need_csrf_token_witness:
  "header (rq_csrf_token example_request) = Some (sn_csrf_token example_session)"
proof -
  have "header (rq_csrf_token example_request) = Some ''tok''" by code_simp
  then have "csrf_middleware example_auth_db example_request (Some example_context) example_auth_state = None"
    by (simp add: csrf_middleware_def example_request_def example_context_def session_context_def
        example_auth_db_def example_auth_state_def example_session_def)
  from session_changes_need_csrf_token [OF this, of "''s1''"] show ?thesis
    by (simp add: example_request_def example_context_def session_context_def example_auth_state_def)
qed

end
