(* ===== verification/KeyStore.thy ===== *)
theory KeyStore
  imports Auth
begin

text \<open>
  The table of API keys: the statements of \<open>db/sqlite.rs\<close> on \<open>api_keys\<close>, and the minting of
  a key's identifier and secret (\<open>auth/secrets.rs\<close>).

  The table is the list of its rows. A statement is atomic. The \<open>i\<close>-th statement of a request
  fails, and changes nothing, when \<open>fl i\<close> is an error text. The primary key and the unique
  columns are checked where a statement writes them.
\<close>

type_synonym faults = "nat \<Rightarrow> string option"

definition db_try :: "faults \<Rightarrow> nat \<Rightarrow> 'a \<Rightarrow> string + 'a" where
  "db_try fl i x = (case fl i of Some e \<Rightarrow> Inl e | None \<Rightarrow> Inr x)"

definition find_key :: "uuid \<Rightarrow> api_key list \<Rightarrow> api_key option" where
  "find_key kid keys = find (\<lambda>k. ky_id k = kid) keys"

definition update_rows :: "(api_key \<Rightarrow> bool) \<Rightarrow> (api_key \<Rightarrow> api_key) \<Rightarrow> api_key list \<Rightarrow> api_key list" where
  "update_rows p f keys = map (\<lambda>k. if p k then f k else k) keys"

abbreviation update_key :: "uuid \<Rightarrow> (api_key \<Rightarrow> api_key) \<Rightarrow> api_key list \<Rightarrow> api_key list" where
  "update_key kid \<equiv> update_rows (\<lambda>k. ky_id k = kid)"

definition newest_first :: "api_key list \<Rightarrow> api_key list" where
  "newest_first keys = sort_key (\<lambda>k. - ky_created_at k) keys"

definition unique_error :: string where
  "unique_error = ''UNIQUE constraint failed''"

definition row_not_found :: string where
  "row_not_found = ''no rows returned by a query that expected to return at least one row''"

section \<open>Statements\<close>

definition get_api_key :: "faults \<Rightarrow> nat \<Rightarrow> uuid \<Rightarrow> api_key list \<Rightarrow> string + api_key option" where
  "get_api_key fl i kid keys = db_try fl i (find_key kid keys)"

definition lookup_api_key_by_hash :: "faults \<Rightarrow> nat \<Rightarrow> string \<Rightarrow> api_key list \<Rightarrow> string + api_key option" where
  "lookup_api_key_by_hash fl i hash keys =
     db_try fl i (find (\<lambda>k. ky_key_hash k = hash \<and> ky_is_active k) keys)"

definition list_api_keys_for_app :: "faults \<Rightarrow> nat \<Rightarrow> string \<Rightarrow> api_key list \<Rightarrow> string + api_key list" where
  "list_api_keys_for_app fl i app keys =
     db_try fl i (newest_first (filter (\<lambda>k. ky_app_id k = Some app) keys))"

definition list_api_keys_for_owner :: "faults \<Rightarrow> nat \<Rightarrow> string \<Rightarrow> api_key list \<Rightarrow> string + api_key list" where
  "list_api_keys_for_owner fl i user keys =
     db_try fl i (newest_first (filter (\<lambda>k. ky_owner_user_id k = Some user) keys))"

text \<open>A row that \<open>create_api_key_scoped\<close> inserts; \<open>id\<close> is the random id and \<open>now\<close> the database's clock.\<close>

definition new_row ::
  "uuid \<Rightarrow> datetime \<Rightarrow> string \<Rightarrow> string \<Rightarrow> string \<Rightarrow> string \<Rightarrow> string \<Rightarrow> string \<Rightarrow> f64 option
   \<Rightarrow> u32 option \<Rightarrow> string \<Rightarrow> string option \<Rightarrow> datetime option \<Rightarrow> api_key" where
  "new_row kid now org app public_id name hash prefix quota rpm scopes webhook expires =
     \<lparr>ky_id = kid, ky_name = name, ky_key_hash = hash, ky_key_prefix = prefix, ky_created_at = now,
      ky_expires_at = expires, ky_is_active = True, ky_token_quota = quota, ky_tokens_used = 0,
      ky_rpm_limit = rpm, ky_scopes = scopes, ky_webhook_url = webhook, ky_owner_user_id = None,
      ky_org_id = Some org, ky_app_id = Some app, ky_public_id = Some public_id\<rparr>"

definition insert_key :: "faults \<Rightarrow> nat \<Rightarrow> api_key \<Rightarrow> api_key list \<Rightarrow> (string + api_key) \<times> api_key list" where
  "insert_key fl i row keys =
     (case fl i of
        Some e \<Rightarrow> (Inl e, keys)
      | None \<Rightarrow>
          if list_ex (\<lambda>k. ky_id k = ky_id row \<or> ky_key_hash k = ky_key_hash row
                \<or> (ky_public_id k = ky_public_id row \<and> ky_public_id row \<noteq> None)) keys
          then (Inl unique_error, keys)
          else let keys' = keys @ [row] in
            (and_then (get_api_key fl (i + 1) (ky_id row) keys')
               (\<lambda>r. case r of None \<Rightarrow> Inl row_not_found | Some k \<Rightarrow> Inr k), keys'))"

definition set_api_key_owner :: "faults \<Rightarrow> nat \<Rightarrow> uuid \<Rightarrow> string \<Rightarrow> api_key list \<Rightarrow> api_key list" where
  "set_api_key_owner fl i kid user keys =
     (if fl i = None then update_key kid (ky_owner_user_id_update (\<lambda>_. Some user)) keys else keys)"

definition revoke_row :: "faults \<Rightarrow> nat \<Rightarrow> uuid \<Rightarrow> api_key list \<Rightarrow> (string + bool) \<times> api_key list" where
  "revoke_row fl i kid keys =
     (case fl i of
        Some e \<Rightarrow> (Inl e, keys)
      | None \<Rightarrow> (Inr (find_key kid keys \<noteq> None), update_key kid (ky_is_active_update (\<lambda>_. False)) keys))"

definition rotate_row ::
  "faults \<Rightarrow> nat \<Rightarrow> uuid \<Rightarrow> string \<Rightarrow> string \<Rightarrow> string \<Rightarrow> api_key list
   \<Rightarrow> (string + api_key option) \<times> api_key list" where
  "rotate_row fl i kid public_id hash prefix keys =
     (case fl i of
        Some e \<Rightarrow> (Inl e, keys)
      | None \<Rightarrow>
          if find_key kid keys = None then (Inr None, keys)
          else if list_ex (\<lambda>k. ky_id k \<noteq> kid \<and> (ky_key_hash k = hash \<or> ky_public_id k = Some public_id)) keys
          then (Inl unique_error, keys)
          else let keys' = update_key kid
                 (\<lambda>k. k\<lparr>ky_public_id := Some public_id, ky_key_hash := hash, ky_key_prefix := prefix\<rparr>) keys
            in (get_api_key fl (i + 1) kid keys', keys'))"

record update_request =
  up_name :: "string option"
  up_token_quota :: "f64 option"
  up_rpm_limit :: "u32 option"
  up_scopes :: "string option"
  up_webhook_url :: "string option"
  up_expires_at :: "datetime option"
  up_is_active :: "bool option"

text \<open>The columns of an \<open>UPDATE\<close>: an absent field is not set.\<close>

definition set_columns :: "update_request \<Rightarrow> api_key \<Rightarrow> api_key" where
  "set_columns r k = k\<lparr>
     ky_name := unwrap_or (ky_name k) (up_name r),
     ky_token_quota := opt_or (up_token_quota r) (ky_token_quota k),
     ky_rpm_limit := opt_or (up_rpm_limit r) (ky_rpm_limit k),
     ky_scopes := unwrap_or (ky_scopes k) (up_scopes r),
     ky_webhook_url := opt_or (up_webhook_url r) (ky_webhook_url k),
     ky_expires_at := opt_or (up_expires_at r) (ky_expires_at k),
     ky_is_active := unwrap_or (ky_is_active k) (up_is_active r)\<rparr>"

definition no_columns :: "update_request \<Rightarrow> bool" where
  "no_columns r = (up_name r = None \<and> up_token_quota r = None \<and> up_rpm_limit r = None
     \<and> up_scopes r = None \<and> up_webhook_url r = None \<and> up_expires_at r = None \<and> up_is_active r = None)"

definition update_row ::
  "faults \<Rightarrow> nat \<Rightarrow> uuid \<Rightarrow> update_request \<Rightarrow> api_key list
   \<Rightarrow> (string + api_key option) \<times> api_key list" where
  "update_row fl i kid r keys =
     (if no_columns r then (get_api_key fl i kid keys, keys)
      else case fl i of
        Some e \<Rightarrow> (Inl e, keys)
      | None \<Rightarrow>
          if find_key kid keys = None then (Inr None, keys)
          else let keys' = update_key kid (set_columns r) keys in (get_api_key fl (i + 1) kid keys', keys'))"

text \<open>The quota of a key: a conditional increment, and an unconditional one by a difference.\<close>

definition reserve_tokens :: "faults \<Rightarrow> nat \<Rightarrow> uuid \<Rightarrow> f64 \<Rightarrow> api_key list \<Rightarrow> (string + bool) \<times> api_key list" where
  "reserve_tokens fl i kid amount keys =
     (case fl i of
        Some e \<Rightarrow> (Inl e, keys)
      | None \<Rightarrow>
          (let fits = (\<lambda>k. ky_id k = kid
                 \<and> (case ky_token_quota k of None \<Rightarrow> True | Some q \<Rightarrow> f64_add (ky_tokens_used k) amount \<le> q))
           in (Inr (list_ex fits keys),
               update_rows fits (\<lambda>k. k\<lparr>ky_tokens_used := f64_add (ky_tokens_used k) amount\<rparr>) keys)))"

definition atomic_charge_tokens ::
  "faults \<Rightarrow> nat \<Rightarrow> uuid \<Rightarrow> f64 \<Rightarrow> api_key list \<Rightarrow> (string + f64) \<times> api_key list" where
  "atomic_charge_tokens fl i kid cost keys =
     (case fl i of
        Some e \<Rightarrow> (Inl e, keys)
      | None \<Rightarrow>
          (let keys' = update_key kid (\<lambda>k. k\<lparr>ky_tokens_used := f64_add (ky_tokens_used k) cost\<rparr>) keys
           in (case find_key kid keys' of
                 None \<Rightarrow> Inl row_not_found | Some k \<Rightarrow> Inr (ky_tokens_used k), keys')))"

section \<open>Secrets\<close>

record key_pair =
  kp_public_id :: string
  kp_secret :: string
  kp_secret_hash :: string
  kp_prefix :: string

definition hex_digit :: "nat \<Rightarrow> char" where
  "hex_digit d = (if d < 10 then char_of (48 + d) else char_of (87 + d))"

definition hex_encode :: "u8 list \<Rightarrow> string" where
  "hex_encode bs = concat (map (\<lambda>b. [hex_digit (unat b div 16), hex_digit (unat b mod 16)]) bs)"

text \<open>\<open>sha\<close> is SHA-256; the random bytes are arguments, 12 for the identifier and 24 for the secret.\<close>

definition sha256_hex :: "(string \<Rightarrow> u8 list) \<Rightarrow> string \<Rightarrow> string" where
  "sha256_hex sha s = hex_encode (sha s)"

definition generate_key_pair :: "(string \<Rightarrow> u8 list) \<Rightarrow> u8 list \<Rightarrow> u8 list \<Rightarrow> key_pair" where
  "generate_key_pair sha id_bytes secret_bytes =
     (let secret = ''sk_live_'' @ hex_encode secret_bytes in
      \<lparr>kp_public_id = ''pk_live_'' @ hex_encode id_bytes, kp_secret = secret,
       kp_secret_hash = sha256_hex sha secret, kp_prefix = take 16 secret\<rparr>)"

section \<open>Lemmas on the table\<close>

definition keys_wf :: "api_key list \<Rightarrow> bool" where
  "keys_wf keys = (distinct (map ky_id keys) \<and> distinct (map ky_key_hash keys))"

lemma find_key_Some: "find_key kid keys = Some k \<Longrightarrow> k \<in> set keys \<and> ky_id k = kid"
  by (auto simp: find_key_def find_Some_iff)

lemma find_key_None: "find_key kid keys = None \<longleftrightarrow> kid \<notin> ky_id ` set keys"
  by (auto simp: find_key_def find_None_iff)

lemma find_key_unique:
  "distinct (map ky_id keys) \<Longrightarrow> k \<in> set keys \<Longrightarrow> find_key (ky_id k) keys = Some k"
  by (induction keys) (auto simp: find_key_def)

lemma update_key_ids [simp]:
  "(\<And>k. ky_id (f k) = ky_id k) \<Longrightarrow> map ky_id (update_key kid f keys) = map ky_id keys"
  by (simp add: update_rows_def)

lemma update_key_absent: "kid \<notin> ky_id ` set keys \<Longrightarrow> update_key kid f keys = keys"
  by (auto simp: update_rows_def intro!: map_idI)

lemma find_update_key:
  "(\<And>k. ky_id (f k) = ky_id k) \<Longrightarrow>
     find_key kid (update_key kid' f keys) = map_option (if kid = kid' then f else id) (find_key kid keys)"
  by (induction keys) (auto simp: find_key_def update_rows_def)

lemma filter_update_key:
  assumes "distinct (map ky_id keys)" and "find_key kid keys = Some k" and "\<not> P k" and "\<not> P (f k)"
  shows "filter P (update_key kid f keys) = filter P keys"
  using assms
proof (induction keys)
  case (Cons x xs)
  show ?case
  proof (cases "ky_id x = kid")
    case True
    with Cons.prems have "x = k" "kid \<notin> ky_id ` set xs" by (auto simp: find_key_def)
    with True Cons.prems update_key_absent [of kid xs f] show ?thesis
      by (simp add: update_rows_def)
  next
    case False
    with Cons show ?thesis by (simp add: find_key_def update_rows_def)
  qed
qed (simp add: find_key_def)

text \<open>
  What a statement on one row may do to the table: nothing, or change columns of the row with the
  given id other than its id, organization and application.
\<close>

definition row_change :: "(api_key \<Rightarrow> api_key) \<Rightarrow> bool" where
  "row_change f = (\<forall>k. ky_id (f k) = ky_id k \<and> ky_org_id (f k) = ky_org_id k \<and> ky_app_id (f k) = ky_app_id k)"

definition touches :: "uuid \<Rightarrow> api_key list \<Rightarrow> api_key list \<Rightarrow> bool" where
  "touches kid keys keys' = (keys' = keys \<or> (\<exists>f. row_change f \<and> keys' = update_key kid f keys))"

lemma touches_refl [simp]: "touches kid keys keys"
  by (simp add: touches_def)

lemma touches_update: "row_change f \<Longrightarrow> touches kid keys (update_key kid f keys)"
  by (auto simp: touches_def)

lemma statement_touches:
  "touches kid keys (snd (revoke_row fl i kid keys))"
  "touches kid keys (snd (update_row fl i kid r keys))"
  "touches kid keys (snd (rotate_row fl i kid p h x keys))"
  "touches kid keys (set_api_key_owner fl i kid user keys)"
  by (auto simp: revoke_row_def update_row_def rotate_row_def set_api_key_owner_def Let_def
      set_columns_def row_change_def split: option.splits intro!: touches_update)

lemma touches_ids: "touches kid keys keys' \<Longrightarrow> map ky_id keys' = map ky_id keys"
  by (auto simp: touches_def row_change_def)

lemma touches_filter:
  assumes "touches kid keys keys'" and "distinct (map ky_id keys)"
    and "find_key kid keys = Some k" and "ky_org_id k \<noteq> Some org"
  shows "filter (\<lambda>k. ky_org_id k = Some org) keys' = filter (\<lambda>k. ky_org_id k = Some org) keys"
  using assms by (auto simp: touches_def row_change_def intro!: filter_update_key)

lemma distinct_hashes_update:
  assumes "distinct (map ky_id keys)" and "distinct (map ky_key_hash keys)"
    and "\<And>k. k \<in> set keys \<Longrightarrow> ky_id k = kid \<Longrightarrow> ky_key_hash (f k) = h"
    and "\<And>k. k \<in> set keys \<Longrightarrow> ky_id k \<noteq> kid \<Longrightarrow> ky_key_hash k \<noteq> h"
  shows "distinct (map ky_key_hash (update_key kid f keys))"
  using assms
proof (induction keys)
  case (Cons a keys)
  show ?case
  proof (cases "ky_id a = kid")
    case True
    with Cons.prems(1) have r: "kid \<notin> ky_id ` set keys" by simp
    with True have "update_key kid f (a # keys) = f a # keys"
      using update_key_absent [OF r, of f] by (simp add: update_rows_def)
    moreover have "ky_key_hash (f a) = h" using Cons.prems(3) True by simp
    moreover have "h \<notin> ky_key_hash ` set keys"
    proof
      assume "h \<in> ky_key_hash ` set keys"
      then obtain x where "x \<in> set keys" "h = ky_key_hash x" by blast
      moreover from this r have "ky_id x \<noteq> kid" by auto
      ultimately show False using Cons.prems(4) [of x] by simp
    qed
    ultimately show ?thesis using Cons.prems(2) by simp
  next
    case False
    have "ky_key_hash a \<notin> ky_key_hash ` set (update_key kid f keys)"
      using Cons.prems False by (auto simp: update_rows_def)
    moreover have "update_key kid f (a # keys) = a # update_key kid f keys"
      using False by (simp add: update_rows_def)
    moreover have "distinct (map ky_key_hash (update_key kid f keys))" using Cons by simp
    ultimately show ?thesis by simp
  qed
qed (simp add: update_rows_def)

lemma hashes_kept:
  "(\<And>k. ky_key_hash (f k) = ky_key_hash k) \<Longrightarrow> map ky_key_hash (update_key kid f keys) = map ky_key_hash keys"
  by (simp add: update_rows_def)

lemma statement_hashes:
  "map ky_key_hash (snd (revoke_row fl i kid keys)) = map ky_key_hash keys"
  "map ky_key_hash (snd (update_row fl i kid r keys)) = map ky_key_hash keys"
  "map ky_key_hash (set_api_key_owner fl i kid user keys) = map ky_key_hash keys"
  by (auto simp: revoke_row_def update_row_def set_api_key_owner_def Let_def set_columns_def
      split: option.splits intro!: hashes_kept)

lemma rotate_wf: "keys_wf keys \<Longrightarrow> keys_wf (snd (rotate_row fl i kid p h x keys))"
  unfolding keys_wf_def
  using touches_ids [OF statement_touches(3)]
  by (auto simp: rotate_row_def Let_def list_ex_iff split: option.splits
      intro!: distinct_hashes_update [where h = h])

lemma statement_wf:
  assumes "keys_wf keys"
  shows "keys_wf (snd (revoke_row fl i kid keys))" "keys_wf (snd (update_row fl i kid r keys))"
    "keys_wf (set_api_key_owner fl i kid user keys)"
  using assms touches_ids [OF statement_touches(1)] touches_ids [OF statement_touches(2)]
    touches_ids [OF statement_touches(4)]
  by (simp_all add: keys_wf_def statement_hashes)

lemma insert_key_cases:
  assumes "insert_key fl i row keys = (res, keys')"
  shows "keys' = keys \<and> (\<exists>e. res = Inl e)
    \<or> keys' = keys @ [row] \<and> ky_id row \<notin> ky_id ` set keys \<and> ky_key_hash row \<notin> ky_key_hash ` set keys
       \<and> (case res of Inr k \<Rightarrow> k = row | Inl _ \<Rightarrow> True)"
proof -
  have f: "find_key (ky_id row) (keys @ [row]) = Some row" if "\<forall>k\<in>set keys. ky_id k \<noteq> ky_id row"
    using that by (induction keys) (auto simp: find_key_def)
  show ?thesis
    using assms f
    by (auto simp: insert_key_def get_api_key_def db_try_def Let_def list_ex_iff
        split: option.splits if_splits)
qed

end
