(* ===== verification/Types.thy ===== *)
theory Types
  imports Prelude
begin

text \<open>
  The data the gateway's components exchange (\<open>types/mod.rs\<close>): generation requests and
  results, costs, and the routing configuration. A struct is a record whose fields carry a
  short prefix, an enum a datatype. JSON documents (\<open>serde_json::Value\<close>) are kept as trees;
  an object is the list of its members in the order of the map.
\<close>

section \<open>JSON\<close>

datatype json =
  JNull | JBool bool | JNum rat | JStr string | JArr "json list" | JObj "(string \<times> json) list"

fun json_object :: "json \<Rightarrow> (string \<times> json) list option" where
  "json_object (JObj ms) = Some ms"
| "json_object _ = None"

fun json_string :: "json \<Rightarrow> string option" where
  "json_string (JStr s) = Some s"
| "json_string _ = None"

fun json_get :: "string \<Rightarrow> json \<Rightarrow> json option" where
  "json_get k (JObj ms) = map_of ms k"
| "json_get k _ = None"

section \<open>Requests\<close>

datatype ref_image_kind = RefBase64 | RefUrl | RefBlob

record reference_image =
  ri_kind :: ref_image_kind
  ri_value :: string
  ri_role :: "string option"

record base_request =
  br_prompt :: string
  br_model :: string
  br_n :: u32
  br_negative_prompt :: "string option"
  br_seed :: "i64 option"
  br_reference_images :: "reference_image list"
  br_strict :: bool
  br_extra :: "json option"
  br_metadata :: "json option"

record image_request =
  ir_base :: base_request
  ir_size :: "string option"
  ir_aspect_ratio :: "string option"
  ir_quality :: "string option"
  ir_style :: "string option"
  ir_steps :: "u32 option"
  ir_guidance_scale :: "f64 option"
  ir_strength :: "f64 option"
  ir_response_format :: string

record video_request =
  vr_base :: base_request
  vr_duration_seconds :: "f64 option"
  vr_aspect_ratio :: "string option"
  vr_resolution :: "string option"
  vr_fps :: "u32 option"

section \<open>Results and costs\<close>

datatype generation_status = Pending | Processing | Completed | Failed | Cancelled

fun status_string :: "generation_status \<Rightarrow> string" where
  "status_string Pending = ''pending''"
| "status_string Processing = ''processing''"
| "status_string Completed = ''completed''"
| "status_string Failed = ''failed''"
| "status_string Cancelled = ''cancelled''"

datatype cost_source = Dynamic | Estimated

record usage_info =
  us_cost_usd :: f64
  us_tokens :: u64
  us_cost_source :: cost_source

record cost_estimate =
  ce_base_cost_usd :: f64
  ce_markup_usd :: f64
  ce_total_cost_usd :: f64
  ce_tokens_required :: u64
  ce_cost_source :: cost_source
  ce_breakdown :: "json option"

record image_result =
  im_url :: "string option"
  im_b64_json :: "string option"
  im_revised_prompt :: "string option"
  im_content_type :: string
  im_index :: u32

record image_response =
  ig_created :: i64
  ig_data :: "image_result list"
  ig_model :: string
  ig_provider :: string
  ig_usage :: "usage_info option"
  ig_id :: string

record video_response =
  vg_id :: string
  vg_status :: generation_status
  vg_model :: string
  vg_provider :: string
  vg_video_url :: "string option"
  vg_progress :: u8
  vg_error :: "string option"
  vg_usage :: "usage_info option"
  vg_created :: i64

section \<open>Credentials and routing\<close>

record api_key_entry =
  ak_key :: string
  ak_weight :: u32
  ak_label :: "string option"

record credential_entry =
  cr_key_id :: string
  cr_key_secret :: string
  cr_region :: "string option"
  cr_weight :: u32
  cr_label :: "string option"

record credential_field_spec =
  cf_key :: string
  cf_label :: string
  cf_secret :: bool
  cf_optional :: bool

record provider_catalog_entry =
  pc_name :: string
  pc_modalities :: "string list"
  pc_auth_scheme :: string
  pc_pool_field :: string
  pc_fields :: "credential_field_spec list"

datatype routing_strategy = Fallback | WeightedRoundRobin | LowestCost | LowestLatency

record deployment =
  dp_provider :: string
  dp_weight :: u32
  dp_max_retries :: u32
  dp_timeout_seconds :: u64
  dp_rpm_limit :: u32
  dp_respect_health :: bool

record cache_config =
  cc_enabled :: bool
  cc_ttl_seconds :: u64
  cc_max_items :: u64

record model_route =
  mr_model :: string
  mr_deployments :: "deployment list"
  mr_strategy :: routing_strategy
  mr_cache :: "cache_config option"

text \<open>The same settings as they are configured (\<open>config/mod.rs\<close>) and edited at runtime
  (\<open>management/types.rs\<close>).\<close>

record deployment_config =
  dc_provider :: string
  dc_weight :: u32
  dc_max_retries :: u32
  dc_timeout_seconds :: u64
  dc_rpm_limit :: u32

record cache_route_config =
  cx_enabled :: bool
  cx_ttl_seconds :: u64

record model_route_config =
  rc_model :: string
  rc_deployments :: "deployment_config list"
  rc_strategy :: "string option"
  rc_cache :: "cache_route_config option"

record gateway_settings =
  gs_cost_markup_percent :: "f64 option"
  gs_alert_webhook_url :: "string option"
  gs_default_end_user_max_budget_usd :: "f64 option"
  gs_default_end_user_budget_duration :: "string option"

end
