(* ===== verification/Enforce.thy ===== *)
theory Enforce
  imports Budget KeyStore Types
begin

text \<open>
  Limits on billable requests (\<open>management/enforce.rs\<close>): budgets, model allowlists, request rates
  and parallel slots of the principals a request is attributed to, with the statements of
  \<open>management/sql.rs\<close> they run.

  The gate state holds the tables, the slots and the rate limiter that all requests share. Every
  database call of a request is counted: before the \<open>n\<close>-th one the other requests act
  (\<open>en_other\<close>), and it may fail (\<open>en_fault\<close>), changing nothing.
\<close>

section \<open>Types\<close>

datatype entity_type = EKey | EOrg | EApp | EMember | EEndUser

fun entity_string :: "entity_type \<Rightarrow> string" where
  "entity_string EKey = ''key''"
| "entity_string EOrg = ''org''"
| "entity_string EApp = ''app''"
| "entity_string EMember = ''member''"
| "entity_string EEndUser = ''end_user''"

definition entity_parse :: "string \<Rightarrow> entity_type option" where
  "entity_parse s =
     (if s = ''key'' then Some EKey else if s = ''org'' then Some EOrg
      else if s = ''app'' then Some EApp else if s = ''member'' then Some EMember
      else if s = ''end_user'' then Some EEndUser else None)"

definition member_entity_id :: "string \<Rightarrow> string \<Rightarrow> string" where
  "member_entity_id org user = org @ '':'' @ user"

definition end_user_entity_id :: "string \<Rightarrow> string \<Rightarrow> string" where
  "end_user_entity_id org eu = org @ '':'' @ eu"

type_synonym entity = "entity_type \<times> string"

record entity_limits =
  el_entity :: entity
  el_org_id :: "string option"
  el_max_budget :: "f64 option"
  el_soft_budget :: "f64 option"
  el_duration :: "string option"
  el_spend :: f64
  el_reset_at :: "datetime option"
  el_alerted_at :: "datetime option"
  el_allowed_models :: "string list option"
  el_max_parallel :: "u32 option"
  el_rpm :: "u32 option"
  el_metadata :: "json option"
  el_created_at :: datetime
  el_updated_at :: datetime

record end_user =
  eu_alias :: "string option"
  eu_blocked :: bool
  eu_metadata :: "json option"
  eu_created_at :: datetime
  eu_updated_at :: datetime
  eu_last_seen_at :: "datetime option"

record attribution =
  at_key_id :: "string option"
  at_user_id :: "string option"
  at_end_user :: "string option"
  at_tags :: "string list"

record request_attribution =
  ra_end_user :: "string option"
  ra_tags :: "string list"

definition from_headers :: "string option \<Rightarrow> string option \<Rightarrow> request_attribution" where
  "from_headers end_user_header tags_header =
     \<lparr>ra_end_user = map_option (take 256) (opt_filter (\<lambda>s. s \<noteq> [])
        (map_option trim (Option.bind end_user_header header_text))),
      ra_tags = take 20 (remdups_adj (sort (unwrap_or [] (map_option
        (\<lambda>s. map (take 64) (filter (\<lambda>t. t \<noteq> []) (map trim (split_on CHR '','' s))))
        (Option.bind tags_header header_text)))))\<rparr>"

record soft_alert =
  sa_entity :: entity
  sa_org_id :: "string option"
  sa_spend :: f64
  sa_soft_budget :: f64
  sa_max_budget :: "f64 option"
  sa_reset_at :: "datetime option"
  sa_at :: datetime

type_synonym slots = "entity \<Rightarrow> u32 option"

record gate =
  ga_keys :: "api_key list"
  ga_limits :: "entity \<Rightarrow> entity_limits option"
  ga_end_users :: "string \<times> string \<Rightarrow> end_user option"
  ga_slots :: slots
  ga_limiter :: rate_limiter
  ga_audit :: "soft_alert list"
  ga_alerts :: "soft_alert list"
  ga_calls :: nat

record gate_env =
  en_fault :: "nat \<Rightarrow> bool"
  en_other :: "nat \<Rightarrow> gate \<Rightarrow> gate"
  en_now :: "nat \<Rightarrow> datetime"
  en_tick :: "nat \<Rightarrow> instant"
  en_months :: add_months
  en_sha256 :: "string \<Rightarrow> u8 list"
  en_rfc3339 :: "datetime \<Rightarrow> string"
  en_managed :: bool
  en_org_models :: "string \<Rightarrow> string list"
  en_app_access :: "string \<Rightarrow> string \<times> string list"
  en_default_budget :: "f64 option"
  en_default_duration :: "string option"
  en_alert_webhook :: bool

text \<open>
  A refused request has a status, a kind, a message and maybe a retry time. \<open>Hang\<close> is a budget
  window that is rolled for ever.
\<close>

datatype refusal = Refuse nat string string "u64 option" | Hang

type_synonym 'a act = "gate \<Rightarrow> (refusal + 'a) \<times> gate"

definition bind_act :: "'a act \<Rightarrow> ('a \<Rightarrow> 'b act) \<Rightarrow> 'b act" where
  "bind_act m f s = (case m s of (Inl e, s') \<Rightarrow> (Inl e, s') | (Inr a, s') \<Rightarrow> f a s')"

definition give :: "'a \<Rightarrow> 'a act" where "give a s = (Inr a, s)"

definition refuse :: "nat \<Rightarrow> string \<Rightarrow> string \<Rightarrow> 'a act" where
  "refuse status kind message s = (Inl (Refuse status kind message None), s)"

definition hang :: "'a act" where "hang s = (Inl Hang, s)"

text \<open>\<open>Utc::now()\<close>\<close>

definition with_clock :: "gate_env \<Rightarrow> (datetime \<Rightarrow> 'a act) \<Rightarrow> 'a act" where
  "with_clock env f s = f (en_now env (ga_calls s)) s"

definition store_error :: refusal where
  "store_error = Refuse 503 ''service_unavailable'' ''temporarily unable to authorize request'' (Some 1)"

text \<open>One database call: \<open>None\<close> is an error.\<close>

definition db_call :: "gate_env \<Rightarrow> (datetime \<Rightarrow> gate \<Rightarrow> 'a \<times> gate) \<Rightarrow> gate \<Rightarrow> 'a option \<times> gate" where
  "db_call env op s =
     (let n = ga_calls s; s1 = (en_other env n s)\<lparr>ga_calls := Suc n\<rparr>
      in if en_fault env n then (None, s1) else let (a, s2) = op (en_now env n) s1 in (Some a, s2))"

text \<open>\<open>.await.map_err(store_error)?\<close>\<close>

definition db_need :: "gate_env \<Rightarrow> (datetime \<Rightarrow> gate \<Rightarrow> 'a \<times> gate) \<Rightarrow> 'a act" where
  "db_need env op s = (case db_call env op s of (None, s') \<Rightarrow> (Inl store_error, s') | (Some a, s') \<Rightarrow> (Inr a, s'))"

definition reads :: "(gate \<Rightarrow> 'a) \<Rightarrow> datetime \<Rightarrow> gate \<Rightarrow> 'a \<times> gate" where
  "reads f now s = (f s, s)"

section \<open>Parallel slots\<close>

definition try_acquire :: "entity \<Rightarrow> u32 \<Rightarrow> slots \<Rightarrow> bool \<times> slots" where
  "try_acquire e max_n slots =
     (let n = unwrap_or 0 (slots e)
      in if max_n \<le> n then (False, slots(e \<mapsto> n)) else (True, slots(e \<mapsto> n + 1)))"

definition drop_slot :: "entity \<Rightarrow> slots \<Rightarrow> slots" where
  "drop_slot e slots =
     (case slots e of
        None \<Rightarrow> slots
      | Some n \<Rightarrow> (let m = (if n = 0 then 0 else n - 1)
                  in if m = 0 then slots(e := None) else slots(e \<mapsto> m)))"

definition in_flight_of :: "entity \<Rightarrow> slots \<Rightarrow> u32" where
  "in_flight_of e slots = unwrap_or 0 (slots e)"

definition uuid_of_bytes :: "u8 list \<Rightarrow> uuid" where
  "uuid_of_bytes bs = of_nat (foldl (\<lambda>n b. n * 256 + unat b) 0 bs)"

definition bucket_id :: "gate_env \<Rightarrow> entity \<Rightarrow> uuid" where
  "bucket_id env e =
     uuid_of_bytes (take 16 (en_sha256 env (''limits:'' @ entity_string (fst e) @ '':'' @ snd e)))"

text \<open>The text of a UUID: 32 hexadecimal digits in groups.\<close>

definition uuid_text :: "uuid \<Rightarrow> string" where
  "uuid_text u =
     (let ds = map (\<lambda>i. hex_digit (unat u div 16 ^ (31 - i) mod 16)) [0..<32]
      in take 8 ds @ ''-'' @ take 4 (drop 8 ds) @ ''-'' @ take 4 (drop 12 ds) @ ''-''
         @ take 4 (drop 16 ds) @ ''-'' @ drop 20 ds)"

section \<open>Statements\<close>

definition row_update :: "(entity_limits \<Rightarrow> bool) \<Rightarrow> (entity_limits \<Rightarrow> entity_limits) \<Rightarrow> entity \<Rightarrow> gate \<Rightarrow> bool \<times> gate" where
  "row_update p f e s =
     (case ga_limits s e of
        Some l \<Rightarrow> if p l then (True, s\<lparr>ga_limits := (ga_limits s)(e \<mapsto> f l)\<rparr>) else (False, s)
      | None \<Rightarrow> (False, s))"

definition get_limits :: "entity \<Rightarrow> datetime \<Rightarrow> gate \<Rightarrow> entity_limits option \<times> gate" where
  "get_limits e = reads (\<lambda>s. ga_limits s e)"

definition upsert_limits :: "entity_limits \<Rightarrow> datetime \<Rightarrow> gate \<Rightarrow> unit \<times> gate" where
  "upsert_limits l now s =
     (let created = (case ga_limits s (el_entity l) of Some old \<Rightarrow> el_created_at old | None \<Rightarrow> el_created_at l)
      in ((), s\<lparr>ga_limits := (ga_limits s)(el_entity l \<mapsto> l\<lparr>el_created_at := created\<rparr>)\<rparr>))"

definition roll_limits_window :: "entity \<Rightarrow> datetime option \<Rightarrow> datetime option \<Rightarrow> datetime \<Rightarrow> gate \<Rightarrow> bool \<times> gate" where
  "roll_limits_window e expected next_at now =
     row_update (\<lambda>l. el_reset_at l = expected)
       (\<lambda>l. l\<lparr>el_spend := 0, el_alerted_at := None, el_reset_at := next_at, el_updated_at := now\<rparr>) e"

definition reserve_limits_spend :: "entity \<Rightarrow> f64 \<Rightarrow> datetime \<Rightarrow> gate \<Rightarrow> bool \<times> gate" where
  "reserve_limits_spend e amount now =
     row_update (\<lambda>l. case el_max_budget l of None \<Rightarrow> True | Some cap \<Rightarrow> f64_add (el_spend l) amount \<le> cap)
       (\<lambda>l. l\<lparr>el_spend := f64_add (el_spend l) amount\<rparr>) e"

definition charge_limits_spend :: "entity \<Rightarrow> f64 \<Rightarrow> datetime \<Rightarrow> gate \<Rightarrow> f64 option \<times> gate" where
  "charge_limits_spend e delta now s =
     (let (found, s') = row_update (\<lambda>_. True) (\<lambda>l. l\<lparr>el_spend := f64_add (el_spend l) delta\<rparr>) e s
      in (if found then map_option el_spend (ga_limits s' e) else None, s'))"

definition mark_soft_budget_alerted :: "entity \<Rightarrow> datetime \<Rightarrow> datetime \<Rightarrow> gate \<Rightarrow> bool \<times> gate" where
  "mark_soft_budget_alerted e at_time now =
     row_update (\<lambda>l. el_alerted_at l = None) (\<lambda>l. l\<lparr>el_alerted_at := Some at_time\<rparr>) e"

definition touch_end_user :: "string \<Rightarrow> string \<Rightarrow> datetime \<Rightarrow> gate \<Rightarrow> unit \<times> gate" where
  "touch_end_user org eu now s =
     (let row = (case ga_end_users s (org, eu) of
            Some u \<Rightarrow> u\<lparr>eu_last_seen_at := Some now\<rparr>
          | None \<Rightarrow> \<lparr>eu_alias = None, eu_blocked = False, eu_metadata = None, eu_created_at = now,
                eu_updated_at = now, eu_last_seen_at = Some now\<rparr>)
      in ((), s\<lparr>ga_end_users := (ga_end_users s)((org, eu) \<mapsto> row)\<rparr>))"

section \<open>Model access\<close>

definition tenant_allows_model :: "gate_env \<Rightarrow> string option \<Rightarrow> string option \<Rightarrow> string \<Rightarrow> bool act" where
  "tenant_allows_model env org app model =
     bind_act (case org of
         None \<Rightarrow> give True
       | Some o' \<Rightarrow> bind_act (db_need env (reads (\<lambda>_. en_org_models env o')))
           (\<lambda>pool. give (pool = [] \<or> model \<in> set pool)))
       (\<lambda>org_ok. if \<not> org_ok then give False
         else case app of
           None \<Rightarrow> give True
         | Some a \<Rightarrow> bind_act (db_need env (reads (\<lambda>_. en_app_access env a)))
             (\<lambda>(mode, models). give (mode \<noteq> ''select'' \<or> model \<in> set models)))"

definition tenant_model_filter :: "gate_env \<Rightarrow> string option \<Rightarrow> string option \<Rightarrow> string set option act" where
  "tenant_model_filter env org app =
     bind_act (case org of
         None \<Rightarrow> give None
       | Some o' \<Rightarrow> bind_act (db_need env (reads (\<lambda>_. en_org_models env o')))
           (\<lambda>pool. give (if pool = [] then None else Some (set pool))))
       (\<lambda>allowed. case app of
           None \<Rightarrow> give allowed
         | Some a \<Rightarrow> bind_act (db_need env (reads (\<lambda>_. en_app_access env a)))
             (\<lambda>(mode, models). give
               (if mode = ''select''
                then Some (case allowed of Some pool \<Rightarrow> pool \<inter> set models | None \<Rightarrow> set models)
                else allowed)))"

section \<open>Windows\<close>

definition load_current :: "gate_env \<Rightarrow> entity \<Rightarrow> entity_limits option act" where
  "load_current env e =
     bind_act (db_need env (get_limits e)) (\<lambda>row. case row of
       None \<Rightarrow> give None
     | Some l \<Rightarrow> with_clock env (\<lambda>now.
         case lapsed_window_next_reset (en_months env) (el_duration l) (el_reset_at l) now of
           None \<Rightarrow> hang
         | Some lapsed \<Rightarrow>
             (case lapsed of
                None \<Rightarrow> give (Some l)
              | Some next_at \<Rightarrow>
                  bind_act (db_need env (roll_limits_window e (el_reset_at l) (Some next_at)))
                    (\<lambda>rolled. if rolled
                      then give (Some (l\<lparr>el_spend := 0, el_alerted_at := None, el_reset_at := Some next_at\<rparr>))
                      else bind_act (db_need env (get_limits e))
                        (\<lambda>fresh. give (Some (unwrap_or l fresh)))))))"

section \<open>The guard\<close>

record limit_guard =
  lg_store_backed :: bool
  lg_reserved :: f64
  lg_charged :: "entity_limits list"
  lg_attribution :: attribution
  lg_slots :: "entity list"

definition raise_soft_budget_alert :: "gate_env \<Rightarrow> entity_limits \<Rightarrow> f64 \<Rightarrow> f64 \<Rightarrow> gate \<Rightarrow> gate" where
  "raise_soft_budget_alert env l spend soft s =
     (let now = en_now env (ga_calls s)
      in case db_call env (mark_soft_budget_alerted (el_entity l) now) s of
           (Some True, s1) \<Rightarrow>
             (let alert = \<lparr>sa_entity = el_entity l, sa_org_id = el_org_id l, sa_spend = spend,
                    sa_soft_budget = soft, sa_max_budget = el_max_budget l, sa_reset_at = el_reset_at l,
                    sa_at = now\<rparr>;
                  (_, s2) = db_call env (\<lambda>_ s. ((), s\<lparr>ga_audit := ga_audit s @ [alert]\<rparr>)) s1
              in if en_alert_webhook env then s2\<lparr>ga_alerts := ga_alerts s2 @ [alert]\<rparr> else s2)
         | (_, s1) \<Rightarrow> s1)"

definition settle_one :: "gate_env \<Rightarrow> f64 \<Rightarrow> f64 \<Rightarrow> entity_limits \<Rightarrow> gate \<Rightarrow> gate" where
  "settle_one env reserved actual l s =
     (let delta = f64_sub actual reserved;
          (spend, s1) = (if f64_epsilon < \<bar>delta\<bar>
            then (case db_call env (charge_limits_spend (el_entity l) delta) s of
                    (Some sp, s') \<Rightarrow> (sp, s') | (None, s') \<Rightarrow> (None, s'))
            else (Some (f64_add (el_spend l) reserved), s))
      in case (spend, el_soft_budget l) of
           (Some sp, Some soft) \<Rightarrow>
             if 0 < actual \<and> soft \<le> sp \<and> el_alerted_at l = None
             then raise_soft_budget_alert env l sp soft s1 else s1
         | _ \<Rightarrow> s1)"

definition settle :: "gate_env \<Rightarrow> f64 \<Rightarrow> limit_guard \<Rightarrow> gate \<Rightarrow> limit_guard \<times> gate" where
  "settle env actual g s =
     (if \<not> lg_store_backed g \<or> \<not> en_managed env then (g, s)
      else (g\<lparr>lg_reserved := 0, lg_charged := []\<rparr>,
            fold (settle_one env (lg_reserved g) actual) (lg_charged g) s))"

text \<open>The end of the guard's life frees its slots.\<close>

definition release :: "entity list \<Rightarrow> gate \<Rightarrow> gate" where
  "release held s = s\<lparr>ga_slots := fold drop_slot held (ga_slots s)\<rparr>"

definition drop_guard :: "limit_guard \<Rightarrow> gate \<Rightarrow> gate" where
  "drop_guard g = release (lg_slots g)"

section \<open>Admission\<close>

definition passthrough :: "key_context option \<Rightarrow> request_attribution \<Rightarrow> limit_guard" where
  "passthrough ctx req =
     \<lparr>lg_store_backed = False, lg_reserved = 0, lg_charged = [],
      lg_attribution = \<lparr>at_key_id = map_option uuid_text (Option.bind ctx kc_key_id),
        at_user_id = map_option uc_user_id (Option.bind ctx kc_user),
        at_end_user = ra_end_user req, at_tags = ra_tags req\<rparr>,
      lg_slots = []\<rparr>"

definition ensure_default_end_user_limits :: "gate_env \<Rightarrow> string \<Rightarrow> string \<Rightarrow> unit act" where
  "ensure_default_end_user_limits env org eu =
     (case en_default_budget env of
        None \<Rightarrow> give ()
      | Some cap \<Rightarrow>
          (let e = (EEndUser, end_user_entity_id org eu) in
           bind_act (db_need env (get_limits e)) (\<lambda>row.
             if row \<noteq> None then give ()
             else with_clock env (\<lambda>now.
               let reset = (case initial_reset_at (en_months env) (en_default_duration env) now of
                              Inr r \<Rightarrow> r | Inl _ \<Rightarrow> None)
               in db_need env (upsert_limits \<lparr>el_entity = e, el_org_id = Some org,
                    el_max_budget = Some cap, el_soft_budget = None,
                    el_duration = (if reset \<noteq> None then en_default_duration env else None),
                    el_spend = 0, el_reset_at = reset, el_alerted_at = None, el_allowed_models = None,
                    el_max_parallel = None, el_rpm = None, el_metadata = None, el_created_at = now,
                    el_updated_at = now\<rparr>)))))"

text \<open>The member a request is billed to: the session's user, or the owner of the key.\<close>

definition billed_user :: "gate_env \<Rightarrow> key_context option \<Rightarrow> string option act" where
  "billed_user env ctx =
     (case (map_option uc_user_id (Option.bind ctx kc_user), Option.bind ctx kc_key_id) of
        (None, Some k) \<Rightarrow>
          bind_act (db_need env (reads (\<lambda>s. find_key k (ga_keys s))))
            (\<lambda>row. give (Option.bind row ky_owner_user_id))
      | (u, _) \<Rightarrow> give u)"

definition admit_end_user :: "gate_env \<Rightarrow> string option \<Rightarrow> string option \<Rightarrow> unit act" where
  "admit_end_user env org eu =
     (case (org, eu) of
        (Some o', Some e) \<Rightarrow>
          bind_act (db_need env (reads (\<lambda>s. ga_end_users s (o', e)))) (\<lambda>row.
            if (case row of Some u \<Rightarrow> eu_blocked u | None \<Rightarrow> False)
            then refuse 403 ''end_user_blocked''
              (''end user '' @ [CHR 0x27] @ e @ [CHR 0x27] @ '' is blocked'')
            else bind_act (db_need env (touch_end_user o' e))
              (\<lambda>_. ensure_default_end_user_limits env o' e))
      | _ \<Rightarrow> give ())"

definition principals_of ::
  "uuid option \<Rightarrow> string option \<Rightarrow> string option \<Rightarrow> string option \<Rightarrow> string option \<Rightarrow> entity list" where
  "principals_of key org app user eu =
     (case key of Some k \<Rightarrow> [(EKey, uuid_text k)] | None \<Rightarrow> [])
     @ (case org of
          None \<Rightarrow> []
        | Some o' \<Rightarrow> (EOrg, o')
            # (case user of Some u \<Rightarrow> [(EMember, member_entity_id o' u)] | None \<Rightarrow> [])
            @ (case eu of Some e \<Rightarrow> [(EEndUser, end_user_entity_id o' e)] | None \<Rightarrow> []))
     @ (case app of Some a \<Rightarrow> [(EApp, a)] | None \<Rightarrow> [])"

fun load_rows :: "gate_env \<Rightarrow> entity list \<Rightarrow> entity_limits list act" where
  "load_rows env [] = give []"
| "load_rows env (e # es) =
     bind_act (load_current env e) (\<lambda>row. bind_act (load_rows env es) (\<lambda>rows.
       give (case row of Some l \<Rightarrow> l # rows | None \<Rightarrow> rows)))"

fun check_models :: "string \<Rightarrow> entity_limits list \<Rightarrow> unit act" where
  "check_models model [] = give ()"
| "check_models model (l # ls) =
     (if (case el_allowed_models l of Some ms \<Rightarrow> model \<notin> set ms | None \<Rightarrow> False)
      then refuse 403 ''model_not_allowed'' (''model '' @ [CHR 0x27] @ model @ [CHR 0x27]
        @ '' is not in the '' @ entity_string (fst (el_entity l)) @ '' allowlist'')
      else check_models model ls)"

text \<open>
  Slots and rates: the slots taken so far are freed when the request is refused, as the guard
  that holds them is dropped; the tokens taken from rate limits are not given back.
\<close>

definition take_slot :: "entity_limits \<Rightarrow> gate \<Rightarrow> bool \<times> gate" where
  "take_slot l s =
     (case el_max_parallel l of
        None \<Rightarrow> (True, s)
      | Some n \<Rightarrow> (let (ok, sl) = try_acquire (el_entity l) n (ga_slots s) in (ok, s\<lparr>ga_slots := sl\<rparr>)))"

definition slot_of :: "entity_limits \<Rightarrow> entity list" where
  "slot_of l = (if el_max_parallel l = None then [] else [el_entity l])"

definition take_rate :: "gate_env \<Rightarrow> entity_limits \<Rightarrow> gate \<Rightarrow> (u64 + unit) \<times> gate" where
  "take_rate env l s =
     (case opt_filter (\<lambda>r. 0 < r) (el_rpm l) of
        None \<Rightarrow> (Inr (), s)
      | Some rpm \<Rightarrow>
          (let (r, bs) = try_take (bucket_id env (el_entity l)) rpm (en_tick env (ga_calls s)) (ga_limiter s)
           in (r, s\<lparr>ga_limiter := bs\<rparr>)))"

definition parallel_refusal :: "entity_limits \<Rightarrow> refusal" where
  "parallel_refusal l = Refuse 429 ''parallel_limit_exceeded'' (entity_string (fst (el_entity l)) @ '' has ''
     @ nat_to_string (unat (the (el_max_parallel l))) @ '' requests in flight already'') None"

definition rate_refusal :: "entity_limits \<Rightarrow> u64 \<Rightarrow> refusal" where
  "rate_refusal l retry = Refuse 429 ''rate_limit_exceeded'' (entity_string (fst (el_entity l))
     @ '' rate limit of '' @ nat_to_string (unat (the (el_rpm l))) @ '' requests/minute exceeded'') (Some retry)"

fun take_slots :: "gate_env \<Rightarrow> entity list \<Rightarrow> entity_limits list \<Rightarrow> entity list act" where
  "take_slots env held [] s = (Inr held, s)"
| "take_slots env held (l # ls) s =
     (let (ok, s1) = take_slot l s
      in if \<not> ok then (Inl (parallel_refusal l), release held s1)
         else (case take_rate env l s1 of
                 (Inl retry, s2) \<Rightarrow> (Inl (rate_refusal l retry), release (held @ slot_of l) s2)
               | (Inr _, s2) \<Rightarrow> take_slots env (held @ slot_of l) ls s2))"

text \<open>Reserving the estimate on every row; a refusal settles what was charged to nothing.\<close>

fun reserve_rows ::
  "gate_env \<Rightarrow> f64 \<Rightarrow> limit_guard \<Rightarrow> entity_limits list \<Rightarrow> limit_guard act" where
  "reserve_rows env amount g [] s = (Inr (g\<lparr>lg_reserved := amount\<rparr>), s)"
| "reserve_rows env amount g (l # ls) s =
     (let undo = (\<lambda>err s. let (g', s') = settle env 0 (g\<lparr>lg_reserved := amount\<rparr>) s
                          in (Inl err, drop_guard g' s'))
      in if 0 < amount
         then (case db_call env (reserve_limits_spend (el_entity l) amount) s of
             (Some True, s') \<Rightarrow> reserve_rows env amount (g\<lparr>lg_charged := lg_charged g @ [l]\<rparr>) ls s'
           | (Some False, s') \<Rightarrow>
               undo (Refuse 402 ''budget_exceeded'' (entity_string (fst (el_entity l)) @ '' budget exceeded''
                 @ (case el_reset_at l of Some t \<Rightarrow> ''; resets at '' @ en_rfc3339 env t | None \<Rightarrow> [])) None) s'
           | (None, s') \<Rightarrow> undo store_error s')
         else reserve_rows env amount (g\<lparr>lg_charged := lg_charged g @ [l]\<rparr>) ls s)"

definition begin_limits ::
  "gate_env \<Rightarrow> key_context option \<Rightarrow> request_attribution \<Rightarrow> string \<Rightarrow> f64 \<Rightarrow> limit_guard act" where
  "begin_limits env ctx req model estimate =
     (let org = Option.bind ctx kc_org_id; app = Option.bind ctx kc_app_id; key = Option.bind ctx kc_key_id in
      bind_act (tenant_allows_model env org app model) (\<lambda>allowed.
      if \<not> allowed
      then refuse 403 ''model_not_allowed'' (''model '' @ [CHR 0x27] @ model @ [CHR 0x27]
        @ '' is not enabled for this organization or application'')
      else if \<not> en_managed env then give (passthrough ctx req)
      else bind_act (billed_user env ctx) (\<lambda>user.
        bind_act (admit_end_user env org (ra_end_user req)) (\<lambda>_.
        bind_act (load_rows env (principals_of key org app user (ra_end_user req))) (\<lambda>rows.
        bind_act (check_models model rows) (\<lambda>_.
        bind_act (take_slots env [] rows) (\<lambda>held.
          reserve_rows env (max estimate 0)
            \<lparr>lg_store_backed = True, lg_reserved = 0, lg_charged = [],
             lg_attribution = \<lparr>at_key_id = map_option uuid_text key, at_user_id = user,
               at_end_user = ra_end_user req, at_tags = ra_tags req\<rparr>,
             lg_slots = held\<rparr> rows)))))))"

section \<open>Reasoning about calls\<close>

lemma bind_act_Inr:
  "bind_act m f s = (Inr b, s') \<longleftrightarrow> (\<exists>a s1. m s = (Inr a, s1) \<and> f a s1 = (Inr b, s'))"
  by (auto simp: bind_act_def split: prod.splits sum.splits)

lemma bind_act_Inl:
  "bind_act m f s = (Inl e, s') \<longleftrightarrow>
     m s = (Inl e, s') \<or> (\<exists>a s1. m s = (Inr a, s1) \<and> f a s1 = (Inl e, s'))"
  by (auto simp: bind_act_def split: prod.splits sum.splits)

text \<open>
  An action keeps a property of the state when the other requests and each of its statements do:
  the rules follow the structure of the program.
\<close>

definition keeps :: "(gate \<Rightarrow> bool) \<Rightarrow> 'a act \<Rightarrow> bool" where
  "keeps P m = (\<forall>s. P s \<longrightarrow> P (snd (m s)))"

definition others_keep :: "(gate \<Rightarrow> bool) \<Rightarrow> gate_env \<Rightarrow> bool" where
  "others_keep P env = (\<forall>n s. P s \<longrightarrow> P ((en_other env n s)\<lparr>ga_calls := Suc n\<rparr>))"

named_theorems keeps_rules \<open>an action keeps a property of the state\<close>

lemma keepsD: "keeps P m \<Longrightarrow> P s \<Longrightarrow> m s = (r, s') \<Longrightarrow> P s'"
  unfolding keeps_def by (metis snd_conv)

lemma keeps_bind [keeps_rules]: "keeps P m \<Longrightarrow> (\<And>a. keeps P (f a)) \<Longrightarrow> keeps P (bind_act m f)"
  unfolding keeps_def
proof (intro allI impI)
  fix s
  assume m: "\<forall>s. P s \<longrightarrow> P (snd (m s))" and f: "\<And>a. \<forall>s. P s \<longrightarrow> P (snd (f a s))" and "P s"
  obtain r s1 where r: "m s = (r, s1)" by (cases "m s")
  with m \<open>P s\<close> have "P s1" by (metis snd_conv)
  with f r show "P (snd (bind_act m f s))" by (cases r) (simp_all add: bind_act_def)
qed

lemma keeps_give [keeps_rules]: "keeps P (give a)"
  by (simp add: keeps_def give_def)

lemma keeps_refuse [keeps_rules]: "keeps P (refuse n k m)"
  by (simp add: keeps_def refuse_def)

lemma keeps_hang [keeps_rules]: "keeps P hang"
  by (simp add: keeps_def hang_def)

lemma keeps_clock [keeps_rules]: "(\<And>now. keeps P (f now)) \<Longrightarrow> keeps P (with_clock env f)"
  by (simp add: keeps_def with_clock_def)

lemma keeps_let [keeps_rules]: "keeps P (f x) \<Longrightarrow> keeps P (Let x f)"
  by simp

lemma keeps_if [keeps_rules]: "keeps P a \<Longrightarrow> keeps P b \<Longrightarrow> keeps P (if c then a else b)"
  by simp

lemma keeps_option [keeps_rules]:
  "keeps P a \<Longrightarrow> (\<And>x. keeps P (b x)) \<Longrightarrow> keeps P (case o' of None \<Rightarrow> a | Some x \<Rightarrow> b x)"
  by (cases o') auto

lemma keeps_pair [keeps_rules]: "(\<And>x y. keeps P (f x y)) \<Longrightarrow> keeps P (case p of (x, y) \<Rightarrow> f x y)"
  by (cases p) auto

lemma db_call_keeps:
  assumes "others_keep P env" and "\<And>now s. P s \<Longrightarrow> P (snd (op now s))" and "P s"
  shows "P (snd (db_call env op s))"
  using assms(1,3) assms(2) [of "(en_other env (ga_calls s) s)\<lparr>ga_calls := Suc (ga_calls s)\<rparr>" "en_now env (ga_calls s)"]
  by (auto simp: db_call_def others_keep_def Let_def split: prod.splits)

lemma keeps_db_need [keeps_rules]:
  assumes "others_keep P env" and "\<And>now s. P s \<Longrightarrow> P (snd (op now s))"
  shows "keeps P (db_need env op)"
  unfolding keeps_def
proof (intro allI impI)
  fix s
  assume "P s"
  obtain r s1 where r: "db_call env op s = (r, s1)" by (cases "db_call env op s")
  have "P (snd (db_call env op s))" using assms \<open>P s\<close> by (rule db_call_keeps)
  with r have "P s1" by simp
  with r show "P (snd (db_need env op s))" by (cases r) (simp_all add: db_need_def)
qed

lemma reads_keeps [simp]: "snd (reads f now s) = s"
  by (simp add: reads_def)

section \<open>Budgets\<close>

text \<open>Every spend is a double within its row's cap.\<close>

definition row_capped :: "entity_limits \<Rightarrow> bool" where
  "row_capped l = (round_f64 (el_spend l) = el_spend l
     \<and> (case el_max_budget l of None \<Rightarrow> True | Some c \<Rightarrow> 0 \<le> c \<and> el_spend l \<le> c))"

definition capped :: "gate \<Rightarrow> bool" where
  "capped s = (\<forall>e l. ga_limits s e = Some l \<longrightarrow> row_capped l)"

lemma capped_cong: "ga_limits s' = ga_limits s \<Longrightarrow> capped s' = capped s"
  by (simp add: capped_def)

lemma capped_row_update:
  assumes "capped s" and "\<And>l. row_capped l \<Longrightarrow> p l \<Longrightarrow> row_capped (f l)"
  shows "capped (snd (row_update p f e s))"
  using assms by (auto simp: row_update_def capped_def split: option.splits)

lemma f64_add_fixed [simp]: "round_f64 (f64_add x y) = f64_add x y"
  by (simp add: f64_add_def)

lemma f64_add_nonpos_le: "round_f64 x = x \<Longrightarrow> y \<le> 0 \<Longrightarrow> f64_add x y \<le> x"
  using round_f64_mono [of "x + y" x] by (simp add: f64_add_def)

lemma capped_statements:
  assumes "capped s"
  shows "capped (snd (reserve_limits_spend e a now s))"
    and "capped (snd (roll_limits_window e x nx now s))"
    and "capped (snd (mark_soft_budget_alerted e t now s))"
    and "delta \<le> 0 \<Longrightarrow> capped (snd (charge_limits_spend e delta now s))"
    and "row_capped l \<Longrightarrow> capped (snd (upsert_limits l now s))"
    and "capped (snd (touch_end_user org eu now s))"
    and "capped (snd (get_limits e now s))"
proof -
  show "capped (snd (reserve_limits_spend e a now s))"
    unfolding reserve_limits_spend_def
    by (rule capped_row_update [OF assms]) (auto simp: row_capped_def split: option.splits)
  show "capped (snd (roll_limits_window e x nx now s))"
    unfolding roll_limits_window_def
    by (rule capped_row_update [OF assms]) (auto simp: row_capped_def split: option.splits)
  show "capped (snd (mark_soft_budget_alerted e t now s))"
    unfolding mark_soft_budget_alerted_def
    by (rule capped_row_update [OF assms]) (auto simp: row_capped_def split: option.splits)
  show "capped (snd (charge_limits_spend e delta now s))" if "delta \<le> 0"
  proof -
    have "capped (snd (row_update (\<lambda>_. True) (\<lambda>l. l\<lparr>el_spend := f64_add (el_spend l) delta\<rparr>) e s))"
      using f64_add_nonpos_le [OF _ that]
      by (intro capped_row_update [OF assms]) (fastforce simp: row_capped_def split: option.splits)
    then show ?thesis by (simp add: charge_limits_spend_def split_beta Let_def)
  qed
  show "capped (snd (upsert_limits l now s))" if "row_capped l"
  proof -
    have "row_capped (l\<lparr>el_created_at := t\<rparr>)" for t using that by (simp add: row_capped_def split: option.splits)
    with assms show ?thesis by (auto simp: capped_def upsert_limits_def Let_def)
  qed
  show "capped (snd (touch_end_user org eu now s))" "capped (snd (get_limits e now s))"
    using assms by (auto simp: capped_def touch_end_user_def get_limits_def Let_def)
qed

lemma load_current_keeps [keeps_rules]:
  assumes "others_keep P env"
    and "\<And>t t' now s. P s \<Longrightarrow> P (snd (roll_limits_window e (Some t) (Some t') now s))"
  shows "keeps P (load_current env e)"
proof -
  have g: "keeps P (db_need env (get_limits e))"
    using assms(1) by (rule keeps_db_need) (simp add: get_limits_def)
  have r: "keeps P (db_need env (roll_limits_window e (Some t) (Some t')))" for t t'
    using assms by (rule keeps_db_need)
  have rolled: "keeps P (with_clock env (\<lambda>now.
      case lapsed_window_next_reset (en_months env) (el_duration l) (el_reset_at l) now of
        None \<Rightarrow> hang
      | Some None \<Rightarrow> give (Some l)
      | Some (Some next_at) \<Rightarrow>
          bind_act (db_need env (roll_limits_window e (el_reset_at l) (Some next_at)))
            (\<lambda>rolled. if rolled
              then give (Some (l\<lparr>el_spend := 0, el_alerted_at := None, el_reset_at := Some next_at\<rparr>))
              else bind_act (db_need env (get_limits e)) (\<lambda>fresh. give (Some (unwrap_or l fresh))))))" for l
  proof (cases "el_reset_at l")
    case None
    then have "lapsed_window_next_reset (en_months env) (el_duration l) (el_reset_at l) now = Some None" for now
      by (auto simp: lapsed_window_next_reset_def split: option.split)
    then show ?thesis by (auto intro!: keeps_rules)
  next
    case (Some t)
    show ?thesis unfolding Some by (intro keeps_rules g r)
  qed
  show ?thesis
    unfolding load_current_def by (intro keeps_bind g keeps_option keeps_give rolled)
qed

text \<open>
  What the admission and the settlement of a request ask of a property they are to keep: one law
  per kind of write to the tables. The lookups before the reservation write least; the default
  limits of a new end user are an empty row with a cap.
\<close>

definition default_cap_ok :: "gate_env \<Rightarrow> bool" where
  "default_cap_ok env = (case en_default_budget env of None \<Rightarrow> True | Some c \<Rightarrow> 0 \<le> c)"

text \<open>A row has the end of a window if it has a duration, which is one that can be read.\<close>

definition window_set :: "entity_limits \<Rightarrow> bool" where
  "window_set l = (case el_duration l of
     None \<Rightarrow> el_reset_at l = None
   | Some d \<Rightarrow> el_reset_at l \<noteq> None \<and> (case parse_duration d of Inl _ \<Rightarrow> False | Inr _ \<Rightarrow> True))"

lemma initial_parsed:
  "initial_reset_at months duration now = Inr (Some t) \<Longrightarrow> \<exists>d w. duration = Some d \<and> parse_duration d = Inr w"
  by (cases duration; cases "parse_duration (the duration)") (simp_all add: initial_reset_at_def)

lemma initial_window:
  assumes "duration = None \<or> (\<exists>d w. duration = Some d \<and> parse_duration d = Inr w)"
  shows "window_set (l\<lparr>el_duration := duration,
    el_reset_at := (case initial_reset_at months duration now of Inr r \<Rightarrow> r | Inl _ \<Rightarrow> None)\<rparr>)"
  using assms by (auto simp: initial_reset_at_def window_set_def)

text \<open>The limits given to an end user that is seen for the first time.\<close>

definition default_row :: "entity_limits \<Rightarrow> bool" where
  "default_row l = (el_spend l = 0 \<and> (\<exists>c \<ge> 0. el_max_budget l = Some c) \<and> el_soft_budget l = None
     \<and> window_set l \<and> el_max_parallel l = None \<and> el_rpm l = None)"

locale lookup_invariant =
  fixes P :: "gate \<Rightarrow> bool"
  assumes roll: "P s \<Longrightarrow> P (snd (roll_limits_window e (Some t) (Some t') now s))"
    and touch: "P s \<Longrightarrow> P (snd (touch_end_user org eu now s))"
    and fresh: "P s \<Longrightarrow> default_row l \<Longrightarrow> P (snd (upsert_limits l now s))"
begin

lemma default_limits_keeps:
  assumes "others_keep P env" and "default_cap_ok env"
  shows "keeps P (ensure_default_end_user_limits env org eu)"
proof (cases "en_default_budget env")
  case (Some c)
  with assms(2) have c: "0 \<le> c" by (simp add: default_cap_ok_def)
  show ?thesis
    unfolding ensure_default_end_user_limits_def Some option.case Let_def
    using assms(1) by (intro keeps_rules) (auto simp: get_limits_def default_row_def window_set_def c
      dest!: initial_parsed intro!: fresh split: sum.splits option.splits)
qed (simp add: ensure_default_end_user_limits_def keeps_give)

lemma lookups_keep:
  assumes "others_keep P env"
  shows "keeps P (tenant_allows_model env o' a m)" and "keeps P (billed_user env ctx)"
    and "keeps P (load_rows env es)" and "keeps P (check_models m ls)"
proof -
  show "keeps P (tenant_allows_model env o' a m)"
    unfolding tenant_allows_model_def using assms by (intro keeps_rules) simp_all
  show "keeps P (billed_user env ctx)"
    unfolding billed_user_def using assms by (auto split: option.splits intro!: keeps_rules)
  show "keeps P (load_rows env es)"
    by (induction es) (auto intro!: keeps_rules assms roll)
  show "keeps P (check_models m ls)"
    by (induction ls) (auto intro!: keeps_rules split: option.splits)
qed

lemma end_user_keeps:
  assumes "others_keep P env" and "default_cap_ok env"
  shows "keeps P (admit_end_user env o' eu)"
  unfolding admit_end_user_def using assms default_limits_keeps
  by (auto split: option.splits intro!: keeps_rules touch)

end

text \<open>\<open>D\<close> says by which differences a spend may be corrected.\<close>

locale table_invariant = lookup_invariant +
  fixes D :: "f64 \<Rightarrow> bool"
  assumes reserve: "P s \<Longrightarrow> P (snd (reserve_limits_spend e a now s))"
    and correct: "P s \<Longrightarrow> D d \<Longrightarrow> P (snd (charge_limits_spend e d now s))"
    and refunds: "0 < a \<Longrightarrow> D (f64_sub 0 a)"
    and mark: "P s \<Longrightarrow> P (snd (mark_soft_budget_alerted e t now s))"
    and audit: "P s \<Longrightarrow> P (s\<lparr>ga_audit := as\<rparr>)"
    and alerts: "P s \<Longrightarrow> P (s\<lparr>ga_alerts := as\<rparr>)"
begin

lemma raise_keeps:
  assumes "others_keep P env" and "P s"
  shows "P (raise_soft_budget_alert env l spend soft s)"
proof -
  obtain r s1 where r: "db_call env (mark_soft_budget_alerted (el_entity l) (en_now env (ga_calls s))) s = (r, s1)"
    by (cases "db_call env (mark_soft_budget_alerted (el_entity l) (en_now env (ga_calls s))) s")
  have s1: "P s1"
    using db_call_keeps [OF assms(1) _ assms(2), of "mark_soft_budget_alerted (el_entity l) (en_now env (ga_calls s))"]
      mark r by simp
  have a: "P (snd (db_call env (\<lambda>_ s. ((), s\<lparr>ga_audit := ga_audit s @ [a]\<rparr>)) s1))" for a
    using assms(1) _ s1 by (rule db_call_keeps) (simp add: audit)
  show ?thesis
    using a s1 by (auto simp: raise_soft_budget_alert_def Let_def r split_beta alerts split: option.splits bool.splits)
qed

lemma settle_one_keeps:
  assumes "others_keep P env" and d: "D (f64_sub actual reserved)" and "P s"
  shows "P (settle_one env reserved actual l s)"
proof -
  obtain r s1 where r: "db_call env (charge_limits_spend (el_entity l) (f64_sub actual reserved)) s = (r, s1)"
    by (cases "db_call env (charge_limits_spend (el_entity l) (f64_sub actual reserved)) s")
  have "P (snd (db_call env (charge_limits_spend (el_entity l) (f64_sub actual reserved)) s))"
    using assms(1) _ assms(3) by (rule db_call_keeps) (simp add: correct d)
  with r have s1: "P s1" by simp
  have raised: "P (case (x, el_soft_budget l) of
        (Some sp, Some soft) \<Rightarrow>
          if 0 < actual \<and> soft \<le> sp \<and> el_alerted_at l = None
          then raise_soft_budget_alert env l sp soft s' else s'
      | _ \<Rightarrow> s')" if "P s'" for x s'
    using that raise_keeps [OF assms(1)] by (auto split: option.splits)
  show ?thesis
  proof (cases "f64_epsilon < \<bar>f64_sub actual reserved\<bar>")
    case True
    with raised [OF s1] r s1 show ?thesis
      by (cases r) (auto simp only: settle_one_def Let_def if_True prod.case option.case)
  next
    case False
    with raised [OF assms(3)] show ?thesis by (auto simp only: settle_one_def Let_def if_False prod.case)
  qed
qed

lemma settle_keeps:
  assumes "others_keep P env" and "D (f64_sub actual (lg_reserved g))" and "P s"
  shows "P (snd (settle env actual g s))"
proof -
  have "P (fold (settle_one env (lg_reserved g) actual) ls s)" if "P s" for ls s
    using that by (induction ls arbitrary: s) (simp_all add: settle_one_keeps [OF assms(1,2)])
  then show ?thesis using assms(3) by (simp add: settle_def)
qed

end

text \<open>The slots and the rate limiter are shared memory, not tables.\<close>

locale gate_invariant = table_invariant +
  assumes slots: "P s \<Longrightarrow> P (s\<lparr>ga_slots := sl\<rparr>)"
    and limiter: "P s \<Longrightarrow> P (s\<lparr>ga_limiter := bs\<rparr>)"
    and calls: "P s \<Longrightarrow> P (s\<lparr>ga_calls := n\<rparr>)"
begin

lemma release_keeps: "P s \<Longrightarrow> P (release held s)"
  by (simp add: release_def slots)

lemma take_slot_keeps: "P s \<Longrightarrow> P (snd (take_slot l s))" "P s \<Longrightarrow> P (snd (take_rate env l s))"
  by (simp_all add: take_slot_def take_rate_def slots limiter split_beta split: option.splits)

lemma take_slots_keeps: "P s \<Longrightarrow> P (snd (take_slots env held ls s))"
proof (induction ls arbitrary: held s)
  case (Cons l ls)
  obtain ok s1 where 1: "take_slot l s = (ok, s1)" by (cases "take_slot l s")
  obtain r s2 where 2: "take_rate env l s1 = (r, s2)" by (cases "take_rate env l s1")
  have p: "P s1" "P s2" using take_slot_keeps Cons.prems 1 2 by (metis snd_conv)+
  with Cons.IH [OF p(2)] show ?case by (cases r) (simp_all add: 1 2 release_keeps)
qed simp

lemma reserve_rows_keeps:
  assumes "others_keep P env" and "P s"
  shows "P (snd (reserve_rows env amount g ls s))"
  using assms(2)
proof (induction ls arbitrary: g s)
  case (Cons l ls)
  show ?case
  proof (cases "0 < amount")
    case True
    obtain r s1 where r: "db_call env (reserve_limits_spend (el_entity l) amount) s = (r, s1)"
      by (cases "db_call env (reserve_limits_spend (el_entity l) amount) s")
    have "P (snd (db_call env (reserve_limits_spend (el_entity l) amount) s))"
      using assms(1) _ Cons.prems by (rule db_call_keeps) (rule reserve)
    with r have s1: "P s1" by simp
    have "P (drop_guard g' (snd (settle env 0 (g\<lparr>lg_reserved := amount\<rparr>) s1)))" for g'
      unfolding drop_guard_def using assms(1) refunds [OF True] s1 by (intro release_keeps settle_keeps) simp_all
    with Cons.IH [OF s1] r True show ?thesis
      by (auto simp: Let_def split_beta split: option.splits bool.splits)
  next
    case False
    with Cons show ?thesis by simp
  qed
qed simp

lemma begin_keeps:
  assumes "others_keep P env" and "default_cap_ok env"
  shows "keeps P (begin_limits env ctx req model estimate)"
proof -
  have "keeps P (take_slots env held ls)" for held ls
    by (simp add: keeps_def take_slots_keeps)
  moreover have "keeps P (reserve_rows env a g ls)" for a g ls
    by (simp add: keeps_def reserve_rows_keeps [OF assms(1)])
  ultimately show ?thesis
    unfolding begin_limits_def Let_def
    by (intro keeps_rules lookups_keep [OF assms(1)] end_user_keeps [OF assms])
qed

end

lemma f64_sub_nonpos: "x \<le> y \<Longrightarrow> f64_sub x y \<le> 0"
  using f64.rnd_nonpos [of "x - y"] by (simp add: f64_sub_def)

interpretation budgets: gate_invariant capped "\<lambda>d. d \<le> 0"
proof unfold_locales
  show "capped s \<Longrightarrow> default_row l \<Longrightarrow> capped (snd (upsert_limits l now s))"
    for s l now by (rule capped_statements(5)) (auto simp: row_capped_def default_row_def)
  show "0 < a \<Longrightarrow> f64_sub 0 a \<le> 0" for a by (rule f64_sub_nonpos) simp
qed (simp_all add: capped_statements, simp_all add: capped_def)

lemmas statement_defs = roll_limits_window_def reserve_limits_spend_def charge_limits_spend_def
  mark_soft_budget_alerted_def touch_end_user_def upsert_limits_def row_update_def

interpretation key_table: gate_invariant "\<lambda>s. ga_keys s = keys" "\<lambda>_. True" for keys
  by unfold_locales (auto simp: statement_defs Let_def split: option.splits)

interpretation slot_table: table_invariant "\<lambda>s. ga_slots s = sl" "\<lambda>_. True" for sl
  by unfold_locales (auto simp: statement_defs Let_def split: option.splits)

text \<open>
  What the other requests may do: any sequence of admissions, settlements at no more than what
  was reserved, and ends of requests, each of them interrupted in turn at every database call.
\<close>

inductive traffic :: "(gate \<Rightarrow> gate) \<Rightarrow> bool" where
  idle: "traffic (\<lambda>s. s)"
| admission: "(\<And>n. traffic (en_other env n)) \<Longrightarrow> default_cap_ok env
    \<Longrightarrow> traffic (\<lambda>s. snd (begin_limits env ctx req model estimate s))"
| settlement: "(\<And>n. traffic (en_other env n)) \<Longrightarrow> actual \<le> lg_reserved g
    \<Longrightarrow> traffic (\<lambda>s. snd (settle env actual g s))"
| finish: "traffic (drop_guard g)"
| after: "traffic f \<Longrightarrow> traffic g \<Longrightarrow> traffic (\<lambda>s. g (f s))"

text \<open>Traffic keeps every invariant whose law allows to lower a spend.\<close>

context gate_invariant
begin

lemma traffic_keeps:
  assumes "\<And>d. d \<le> 0 \<Longrightarrow> D d" "traffic f" "P s"
  shows "P (f s)"
  using assms(2,3)
proof (induction arbitrary: s rule: traffic.induct)
  case (admission env ctx req model estimate)
  then have "others_keep P env" by (simp add: others_keep_def calls)
  then show ?case using begin_keeps admission by (simp add: keeps_def)
next
  case (settlement env actual g)
  then have "others_keep P env" by (simp add: others_keep_def calls)
  moreover have "D (f64_sub actual (lg_reserved g))" by (intro assms(1) f64_sub_nonpos settlement)
  ultimately show ?case using settlement by (intro settle_keeps)
next
  case (finish g)
  then show ?case by (simp add: drop_guard_def release_keeps)
qed simp_all

end

text \<open>C17:
  Budgets hold under every interleaving: whatever admissions, settlements and ends of requests
  run, cut into each other at any database call and with any database errors, no spend passes
  the hard cap of its row, as long as no request is settled above its reservation.
\<close>

theorem budget_never_exceeded:
  assumes "traffic f" and "capped s"
  shows "capped (f s)"
  using budgets.traffic_keeps assms by blast

end
