(* ===== verification/EnforceProps.thy ===== *)
theory EnforceProps
  imports Enforce
begin

text \<open>
  What the admission of a request guarantees, when no other request interferes: what holds for an
  admitted request, that a refused one leaves nothing behind, and that the answer always comes.
\<close>

text \<open>Entities stay whole: quantifiers over them are not split into the parts of a pair.\<close>

declare split_paired_All [simp del] split_paired_Ex [simp del]

section \<open>Counting slots\<close>

abbreviation busy :: "entity \<Rightarrow> slots \<Rightarrow> nat" where
  "busy e sl \<equiv> unat (in_flight_of e sl)"

lemma u32_suc: "(n :: u32) < m \<Longrightarrow> unat (n + 1) = Suc (unat n) \<and> n + 1 \<le> m"
  by unat_arith

lemma try_acquire_count:
  assumes "try_acquire e m sl = (ok, sl')"
  shows "busy x sl' = busy x sl + (if ok \<and> x = e then 1 else 0) \<and> (ok \<longrightarrow> busy e sl' \<le> unat m)"
proof (cases "m \<le> in_flight_of e sl")
  case True
  with assms show ?thesis by (auto simp: try_acquire_def in_flight_of_def Let_def)
next
  case False
  then have n: "in_flight_of e sl < m" by simp
  from assms False have "ok" "sl' = sl(e \<mapsto> in_flight_of e sl + 1)"
    by (auto simp: try_acquire_def in_flight_of_def Let_def split: if_splits)
  then show ?thesis
    using u32_suc [OF n] word_le_nat_alt [of "in_flight_of e sl + 1" m]
    by (simp add: in_flight_of_def)
qed

lemma u32_pred: "(n :: u32) \<noteq> 0 \<Longrightarrow> unat (n - 1) = unat n - 1"
  by unat_arith

lemma drop_slot_count: "busy x (drop_slot e sl) = busy x sl - (if x = e then 1 else 0)"
proof (cases "sl e")
  case None
  then show ?thesis by (auto simp: drop_slot_def in_flight_of_def)
next
  case (Some n)
  show ?thesis
  proof (cases "n = 0")
    case True with Some show ?thesis by (auto simp: drop_slot_def in_flight_of_def Let_def)
  next
    case False
    then have "n = 1 \<Longrightarrow> unat n = 1" "unat (n - 1) = unat n - 1" by (simp_all add: u32_pred)
    with Some False show ?thesis by (auto simp: drop_slot_def in_flight_of_def Let_def)
  qed
qed

lemma drop_slots_count: "busy x (fold drop_slot es sl) = busy x sl - count_list es x"
  by (induction es arbitrary: sl) (simp_all add: drop_slot_count)

text \<open>Slots and rates: the guard holds a slot for every row with a cap, or everything is as it was.\<close>

lemma take_slot_count:
  assumes "take_slot l s = (ok, s1)"
  shows "busy x (ga_slots s1) = busy x (ga_slots s) + (if ok then count_list (slot_of l) x else 0)"
    and "ok \<Longrightarrow> el_max_parallel l = Some n \<Longrightarrow> busy (el_entity l) (ga_slots s1) \<le> unat n"
proof -
  have "busy x (ga_slots s1) = busy x (ga_slots s) + (if ok then count_list (slot_of l) x else 0)
    \<and> (ok \<longrightarrow> (\<forall>n. el_max_parallel l = Some n \<longrightarrow> busy (el_entity l) (ga_slots s1) \<le> unat n))" for x
  proof (cases "el_max_parallel l")
    case None
    with assms show ?thesis by (simp add: take_slot_def slot_of_def)
  next
    case (Some m)
    obtain ok' sl where t: "try_acquire (el_entity l) m (ga_slots s) = (ok', sl)"
      by (cases "try_acquire (el_entity l) m (ga_slots s)")
    with assms Some have "ok' = ok" "s1 = s\<lparr>ga_slots := sl\<rparr>" by (auto simp: take_slot_def)
    with try_acquire_count [OF t, of x] try_acquire_count [OF t] Some show ?thesis
      by (auto simp: slot_of_def)
  qed
  then show "busy x (ga_slots s1) = busy x (ga_slots s) + (if ok then count_list (slot_of l) x else 0)"
    and "ok \<Longrightarrow> el_max_parallel l = Some n \<Longrightarrow> busy (el_entity l) (ga_slots s1) \<le> unat n"
    by blast+
qed

lemma take_rate_slots: "ga_slots (snd (take_rate env l s)) = ga_slots s"
  by (simp add: take_rate_def split_beta split: option.splits)

lemma take_slots_frame:
  "ga_limits (snd (take_slots env held ls s)) = ga_limits s \<and> ga_keys (snd (take_slots env held ls s)) = ga_keys s"
proof (induction ls arbitrary: held s)
  case (Cons l ls)
  obtain ok s1 where 1: "take_slot l s = (ok, s1)" by (cases "take_slot l s")
  obtain r s2 where 2: "take_rate env l s1 = (r, s2)" by (cases "take_rate env l s1")
  have "ga_limits s1 = ga_limits s \<and> ga_keys s1 = ga_keys s" "ga_limits s2 = ga_limits s1 \<and> ga_keys s2 = ga_keys s1"
    using 1 2 by (auto simp: take_slot_def take_rate_def split_beta split: option.splits)
  with Cons.IH [of _ s2] show ?case by (cases r) (simp_all add: 1 2 release_def)
qed simp

definition slots_of :: "entity_limits list \<Rightarrow> entity list" where
  "slots_of ls = concat (map slot_of ls)"

lemma slots_of_simps [simp]: "slots_of [] = []" "slots_of (l # ls) = slot_of l @ slots_of ls"
  by (simp_all add: slots_of_def)

lemma slots_of_subset: "set (slots_of ls) \<subseteq> el_entity ` set ls"
  by (auto simp: slots_of_def slot_of_def split: if_splits)

lemma take_slots_counts:
  assumes "take_slots env held ls s = (r, s')"
  shows "case r of
      Inr held' \<Rightarrow> held' = held @ slots_of ls
        \<and> (\<forall>x. busy x (ga_slots s') = busy x (ga_slots s) + count_list (slots_of ls) x)
        \<and> (distinct (map el_entity ls) \<longrightarrow>
             (\<forall>l\<in>set ls. \<forall>n. el_max_parallel l = Some n \<longrightarrow> busy (el_entity l) (ga_slots s') \<le> unat n))
    | Inl e \<Rightarrow> e \<noteq> Hang \<and> (\<forall>x. busy x (ga_slots s') = busy x (ga_slots s) - count_list held x)"
  using assms
proof (induction ls arbitrary: held s)
  case (Cons l ls)
  obtain ok s1 where 1: "take_slot l s = (ok, s1)" by (cases "take_slot l s")
  note c1 = take_slot_count [OF 1]
  obtain q s2 where 2: "take_rate env l s1 = (q, s2)" by (cases "take_rate env l s1")
  have s2: "ga_slots s2 = ga_slots s1" using take_rate_slots [of env l s1] 2 by simp
  show ?case
  proof (cases "ok \<and> q = Inr ()")
    case False
    then obtain held' e where "r = Inl e" "e \<noteq> Hang" "s' = release held' (if ok then s2 else s1)"
      "held' = held @ (if ok then slot_of l else [])"
      using Cons.prems 1 2 by (cases q) (auto simp: parallel_refusal_def rate_refusal_def split: if_splits)
    then show ?thesis using c1(1) s2 by (simp add: release_def drop_slots_count)
  next
    case True
    then have t: "take_slots env (held @ slot_of l) ls s2 = (r, s')" using Cons.prems 1 2 by simp
    show ?thesis
    proof (cases r)
      case (Inl e)
      with Cons.IH [OF t] c1(1) True s2 show ?thesis by simp
    next
      case (Inr h)
      with Cons.IH [OF t] s2 have i: "h = (held @ slot_of l) @ slots_of ls"
        "\<And>x. busy x (ga_slots s') = busy x (ga_slots s1) + count_list (slots_of ls) x"
        "distinct (map el_entity ls) \<Longrightarrow> \<forall>l\<in>set ls. \<forall>n. el_max_parallel l = Some n \<longrightarrow> busy (el_entity l) (ga_slots s') \<le> unat n"
        by auto
      have "busy (el_entity l) (ga_slots s') \<le> unat n"
        if "distinct (map el_entity (l # ls))" "el_max_parallel l = Some n" for n
      proof -
        have "el_entity l \<notin> set (slots_of ls)" using that(1) slots_of_subset [of ls] by auto
        then have "count_list (slots_of ls) (el_entity l) = 0" by (simp add: count_list_0_iff)
        with i(2) [of "el_entity l"] c1(2) [OF _ that(2)] True show ?thesis by simp
      qed
      with i c1(1) True Inr show ?thesis by auto
    qed
  qed
qed auto

section \<open>Without interference\<close>

definition quiet :: "gate_env \<Rightarrow> bool" where
  "quiet env = (en_other env = (\<lambda>_ s. s))"

definition healthy :: "gate_env \<Rightarrow> bool" where
  "healthy env = (\<forall>n. \<not> en_fault env n)"

lemma quiet_others: "quiet env \<Longrightarrow> (\<And>s n. P s \<Longrightarrow> P (s\<lparr>ga_calls := n\<rparr>)) \<Longrightarrow> others_keep P env"
  by (simp add: quiet_def others_keep_def)

lemma db_call_quiet:
  assumes "quiet env" and "db_call env op s = (r, s')"
  shows "(r = None \<and> \<not> healthy env \<and> s' = s\<lparr>ga_calls := Suc (ga_calls s)\<rparr>)
    \<or> (\<exists>a. r = Some a \<and> op (en_now env (ga_calls s)) (s\<lparr>ga_calls := Suc (ga_calls s)\<rparr>) = (a, s'))"
  using assms by (auto simp: db_call_def quiet_def healthy_def Let_def split: if_splits prod.splits)

text \<open>The effect of an update of one row.\<close>

definition update_spend :: "entity \<Rightarrow> f64 \<Rightarrow> (entity \<Rightarrow> entity_limits option) \<Rightarrow> entity \<Rightarrow> entity_limits option" where
  "update_spend e d m = (case m e of
      Some l \<Rightarrow> m(e \<mapsto> l\<lparr>el_spend := f64_add (el_spend l) d\<rparr>) | None \<Rightarrow> m)"

lemma update_spend_simps:
  "e' \<noteq> e \<Longrightarrow> update_spend e d m e' = m e'"
  "update_spend e d m e = map_option (\<lambda>l. l\<lparr>el_spend := f64_add (el_spend l) d\<rparr>) (m e)"
  by (simp_all add: update_spend_def split: option.splits)

lemma reserve_quiet:
  assumes "quiet env" and "db_call env (reserve_limits_spend e a) s = (r, s')"
  shows "ga_slots s' = ga_slots s \<and> ga_keys s' = ga_keys s
    \<and> (if r = Some True
       then (\<exists>l. ga_limits s e = Some l
          \<and> (case el_max_budget l of None \<Rightarrow> True | Some c \<Rightarrow> f64_add (el_spend l) a \<le> c))
          \<and> ga_limits s' = update_spend e a (ga_limits s)
       else ga_limits s' = ga_limits s)"
  using db_call_quiet [OF assms]
  by (auto simp: reserve_limits_spend_def row_update_def update_spend_def split: option.splits if_splits)

lemma charge_quiet:
  assumes "quiet env" and "healthy env" and "db_call env (charge_limits_spend e d) s = (r, s')"
  shows "ga_slots s' = ga_slots s \<and> ga_keys s' = ga_keys s \<and> ga_limits s' = update_spend e d (ga_limits s)"
  using db_call_quiet [OF assms(1,3)] assms(2)
  by (auto simp: charge_limits_spend_def row_update_def update_spend_def Let_def split: option.splits if_splits)

text \<open>A reservation of \<open>a\<close> on a spend of \<open>x\<close> that a refund undoes exactly.\<close>

definition refundable :: "f64 \<Rightarrow> f64 \<Rightarrow> bool" where
  "refundable a x = (f64_epsilon < \<bar>f64_sub 0 a\<bar> \<and> f64_add (f64_add x a) (f64_sub 0 a) = x)"

lemma refundable_dyadic:
  assumes "\<bar>m\<bar> \<le> 2 ^ 53" "\<bar>n\<bar> \<le> 2 ^ 53" "\<bar>m + n\<bar> \<le> 2 ^ 53" "0 < m" "k \<le> 51"
  shows "refundable (of_int m * 2 powi (- int k)) (of_int n * 2 powi (- int k))"
proof -
  let ?u = "2 powi (- int k) :: rat"
  have e: "- 1074 \<le> - int k" using assms(5) by simp
  have x: "round_f64 (of_int z * ?u) = of_int z * ?u" if "\<bar>z\<bar> \<le> 2 ^ 53" for z
    using that e by (rule round_f64_exact)
  have neg: "f64_sub 0 (of_int m * ?u) = of_int (- m) * ?u"
    using x [of "- m"] assms(1) by (simp add: f64_sub_def)
  have sum: "f64_add (of_int n * ?u) (of_int m * ?u) = of_int (m + n) * ?u"
    using x [of "m + n"] assms(3) by (simp add: f64_add_def algebra_simps)
  have "f64_add (of_int (m + n) * ?u) (of_int (- m) * ?u) = of_int n * ?u"
    using x [of n] assms(2) by (simp add: f64_add_def algebra_simps)
  moreover have "f64_epsilon < of_int m * ?u"
  proof -
    have "f64_epsilon < 2 powi (- 51 :: int)" by (simp add: f64_epsilon_def power_int_minus)
    also have "(2 powi (- 51 :: int) :: rat) \<le> ?u" using assms(5) by (intro power_int_increasing) simp_all
    also have "?u \<le> of_int m * ?u" using assms(4) by (simp add: mult_le_cancel_right2)
    finally show ?thesis .
  qed
  ultimately show ?thesis
    using assms(4) by (simp add: refundable_def neg sum abs_mult abs_of_pos)
qed

text \<open>Reservation and release on the rows of a request.\<close>

definition shift_spends :: "entity list \<Rightarrow> f64 \<Rightarrow> (entity \<Rightarrow> entity_limits option) \<Rightarrow> entity \<Rightarrow> entity_limits option" where
  "shift_spends es d m = fold (\<lambda>e. update_spend e d) es m"

lemma shift_spends_at:
  "distinct es \<Longrightarrow> shift_spends es d m e
     = (if e \<in> set es then map_option (\<lambda>l. l\<lparr>el_spend := f64_add (el_spend l) d\<rparr>) (m e) else m e)"
  unfolding shift_spends_def
proof (induction es arbitrary: m)
  case (Cons x xs)
  have "fold (\<lambda>e. update_spend e d) (x # xs) m e = fold (\<lambda>e. update_spend e d) xs (update_spend x d m) e" by simp
  with Cons.IH [of "update_spend x d m"] Cons.prems show ?case
    by (cases "e = x") (auto simp: update_spend_simps)
qed simp

lemma shift_spends_undo:
  assumes "distinct es" and "\<And>e l. e \<in> set es \<Longrightarrow> m e = Some l \<Longrightarrow> refundable a (el_spend l)"
  shows "shift_spends es (f64_sub 0 a) (shift_spends es a m) = m"
proof
  fix e
  show "shift_spends es (f64_sub 0 a) (shift_spends es a m) e = m e"
    using assms by (cases "m e") (auto simp: shift_spends_at refundable_def)
qed

lemma settle_zero_quiet:
  assumes "quiet env" and "healthy env" and "f64_epsilon < \<bar>f64_sub 0 a\<bar>"
  shows "ga_slots (fold (settle_one env a 0) ls s) = ga_slots s
    \<and> ga_keys (fold (settle_one env a 0) ls s) = ga_keys s
    \<and> ga_limits (fold (settle_one env a 0) ls s) = shift_spends (map el_entity ls) (f64_sub 0 a) (ga_limits s)"
proof (induction ls arbitrary: s)
  case (Cons l ls)
  obtain r s1 where c: "db_call env (charge_limits_spend (el_entity l) (f64_sub 0 a)) s = (r, s1)"
    by (cases "db_call env (charge_limits_spend (el_entity l) (f64_sub 0 a)) s")
  have "settle_one env a 0 l s = s1"
    using assms(3) by (cases r) (simp_all add: settle_one_def Let_def c split: option.splits)
  with Cons.IH [of s1] charge_quiet [OF assms(1,2) c] show ?case
    by (simp add: shift_spends_def)
qed (simp add: shift_spends_def)

lemma reserve_rows_admitted:
  assumes "quiet env" and "0 < a" and "reserve_rows env a g ls s = (Inr g', s')"
  shows "g' = g\<lparr>lg_charged := lg_charged g @ ls, lg_reserved := a\<rparr>
    \<and> ga_slots s' = ga_slots s \<and> ga_keys s' = ga_keys s
    \<and> ga_limits s' = shift_spends (map el_entity ls) a (ga_limits s)
    \<and> (distinct (map el_entity ls) \<longrightarrow> (\<forall>l\<in>set ls. \<exists>row. ga_limits s (el_entity l) = Some row
         \<and> (case el_max_budget row of None \<Rightarrow> True | Some c \<Rightarrow> f64_add (el_spend row) a \<le> c)))"
  using assms(3)
proof (induction ls arbitrary: g s)
  case (Cons l ls)
  obtain r s1 where c: "db_call env (reserve_limits_spend (el_entity l) a) s = (r, s1)"
    by (cases "db_call env (reserve_limits_spend (el_entity l) a) s")
  have r: "r = Some True" and rest: "reserve_rows env a (g\<lparr>lg_charged := lg_charged g @ [l]\<rparr>) ls s1 = (Inr g', s')"
    using Cons.prems assms(2) c by (auto simp: Let_def split_beta split: option.splits bool.splits)
  note q = reserve_quiet [OF assms(1) c]
  note IH = Cons.IH [OF rest]
  have "\<exists>row. ga_limits s (el_entity x) = Some row
      \<and> (case el_max_budget row of None \<Rightarrow> True | Some c \<Rightarrow> f64_add (el_spend row) a \<le> c)"
    if d: "distinct (map el_entity (l # ls))" and x: "x \<in> set (l # ls)" for x
  proof (cases "x = l")
    case True with q r show ?thesis by simp
  next
    case False
    with x have "x \<in> set ls" by simp
    moreover from this d have "el_entity x \<noteq> el_entity l" by (metis distinct.simps(2) image_eqI list.set_map list.simps(9))
    ultimately show ?thesis using IH d q r by (auto simp: update_spend_simps)
  qed
  with IH q r show ?case by (auto simp: shift_spends_def)
qed (auto simp: shift_spends_def)

lemma reserve_rows_nothing:
  "\<not> 0 < a \<Longrightarrow> reserve_rows env a g ls s = (Inr (g\<lparr>lg_charged := lg_charged g @ ls, lg_reserved := a\<rparr>), s)"
  by (induction ls arbitrary: g) simp_all

lemma reserve_rows_result:
  assumes "quiet env" and "reserve_rows env a g ls s = (Inr g', s')" and "distinct (map el_entity ls)"
  shows "g' = g\<lparr>lg_charged := lg_charged g @ ls, lg_reserved := a\<rparr>"
    and "ga_slots s' = ga_slots s \<and> ga_keys s' = ga_keys s"
    and "ga_limits s' = (if 0 < a then shift_spends (map el_entity ls) a (ga_limits s) else ga_limits s)"
    and "0 < a \<Longrightarrow> \<forall>l\<in>set ls. \<exists>row. ga_limits s (el_entity l) = Some row
      \<and> (case el_max_budget row of None \<Rightarrow> True | Some c \<Rightarrow> f64_add (el_spend row) a \<le> c)"
proof -
  note c = reserve_rows_admitted [OF assms(1) _ assms(2)] reserve_rows_nothing [of a env g ls s] assms(2,3)
  show "g' = g\<lparr>lg_charged := lg_charged g @ ls, lg_reserved := a\<rparr>" using c by (cases "0 < a") simp_all
  show "ga_slots s' = ga_slots s \<and> ga_keys s' = ga_keys s" using c by (cases "0 < a") simp_all
  show "ga_limits s' = (if 0 < a then shift_spends (map el_entity ls) a (ga_limits s) else ga_limits s)"
    using c by (cases "0 < a") simp_all
  show "0 < a \<Longrightarrow> \<forall>l\<in>set ls. \<exists>row. ga_limits s (el_entity l) = Some row
      \<and> (case el_max_budget row of None \<Rightarrow> True | Some c \<Rightarrow> f64_add (el_spend row) a \<le> c)"
    using c by blast
qed

lemma reserve_rows_slots:
  assumes "quiet env" and "en_managed env" and "lg_store_backed g" and "reserve_rows env a g ls s = (Inl e, s')"
  shows "e \<noteq> Hang \<and> (\<forall>x. busy x (ga_slots s') = busy x (ga_slots s) - count_list (lg_slots g) x)"
  using assms(3,4)
proof (induction ls arbitrary: g s)
  case (Cons l ls)
  have a: "0 < a"
  proof (rule ccontr)
    assume "\<not> 0 < a"
    from reserve_rows_nothing [OF this, of env g "l # ls" s] Cons.prems(2) show False by simp
  qed
  obtain r s1 where c: "db_call env (reserve_limits_spend (el_entity l) a) s = (r, s1)"
    by (cases "db_call env (reserve_limits_spend (el_entity l) a) s")
  have s1: "ga_slots s1 = ga_slots s" using reserve_quiet [OF assms(1) c] by simp
  show ?case
  proof (cases "r = Some True")
    case True
    with Cons.prems a c have "reserve_rows env a (g\<lparr>lg_charged := lg_charged g @ [l]\<rparr>) ls s1 = (Inl e, s')" by simp
    from Cons.IH [OF _ this] Cons.prems(1) s1 show ?thesis by simp
  next
    case False
    obtain g2 s2 where f: "settle env 0 (g\<lparr>lg_reserved := a\<rparr>) s1 = (g2, s2)"
      by (cases "settle env 0 (g\<lparr>lg_reserved := a\<rparr>) s1")
    have "others_keep (\<lambda>s. ga_slots s = ga_slots s1) env" using assms(1) by (rule quiet_others) simp
    from slot_table.settle_keeps [OF this TrueI refl, of 0 "g\<lparr>lg_reserved := a\<rparr>"] f
    have "ga_slots s2 = ga_slots s1" by simp
    moreover have "s' = drop_guard g2 s2" "e \<noteq> Hang"
      using Cons.prems a c False f
      by (auto simp: Let_def store_error_def split: option.splits bool.splits)
    moreover have "lg_slots g2 = lg_slots g" using f by (auto simp: settle_def split: if_splits)
    ultimately show ?thesis using s1 by (simp add: drop_guard_def release_def drop_slots_count)
  qed
qed simp

lemma reserve_rows_refused:
  assumes "quiet env" and "healthy env" and "en_managed env" and "lg_store_backed g"
    and "distinct (map el_entity (lg_charged g @ ls))"
    and "\<And>e l. m e = Some l \<Longrightarrow> refundable a (el_spend l)" and "f64_epsilon < \<bar>f64_sub 0 a\<bar>"
    and "ga_limits s = shift_spends (map el_entity (lg_charged g)) a m"
    and "reserve_rows env a g ls s = (Inl e, s')"
  shows "ga_limits s' = m \<and> ga_keys s' = ga_keys s"
  using assms(4,5,8,9)
proof (induction ls arbitrary: g s)
  case (Cons l ls)
  have a: "0 < a"
  proof (rule ccontr)
    assume "\<not> 0 < a"
    from reserve_rows_nothing [OF this, of env g "l # ls" s] Cons.prems(4) show False by simp
  qed
  obtain r s1 where c: "db_call env (reserve_limits_spend (el_entity l) a) s = (r, s1)"
    by (cases "db_call env (reserve_limits_spend (el_entity l) a) s")
  note q = reserve_quiet [OF assms(1) c]
  show ?case
  proof (cases "r = Some True")
    case True
    with Cons.prems(4) a c have rest: "reserve_rows env a (g\<lparr>lg_charged := lg_charged g @ [l]\<rparr>) ls s1 = (Inl e, s')" by simp
    have "ga_limits s1 = shift_spends (map el_entity (lg_charged g @ [l])) a m"
      using q True Cons.prems(3) by (simp add: shift_spends_def)
    from Cons.IH [OF _ _ _ rest] this Cons.prems(1,2) q show ?thesis by simp
  next
    case False
    let ?g = "g\<lparr>lg_reserved := a\<rparr>"
    have f: "settle env 0 ?g s1 = (?g\<lparr>lg_reserved := 0, lg_charged := []\<rparr>, fold (settle_one env a 0) (lg_charged g) s1)"
      using Cons.prems(1) assms(3) by (simp add: settle_def)
    have "s' = drop_guard (?g\<lparr>lg_reserved := 0, lg_charged := []\<rparr>) (fold (settle_one env a 0) (lg_charged g) s1)"
      using Cons.prems(4) a c False f by (auto simp: Let_def split: option.splits bool.splits)
    then have "ga_limits s' = shift_spends (map el_entity (lg_charged g)) (f64_sub 0 a)
        (shift_spends (map el_entity (lg_charged g)) a m)" "ga_keys s' = ga_keys s"
      using settle_zero_quiet [OF assms(1,2,7), of "lg_charged g" s1] q False Cons.prems(3)
      by (simp_all add: drop_guard_def release_def)
    with shift_spends_undo [of "map el_entity (lg_charged g)" m a] assms(6) Cons.prems(2) show ?thesis by simp
  qed
qed simp

section \<open>The phases of an admission\<close>

lemma bind_act_assoc: "bind_act (bind_act m f) g = bind_act m (\<lambda>a. bind_act (f a) g)"
  by (rule ext) (simp add: bind_act_def split: prod.splits sum.splits)

lemma bind_act_give: "bind_act (give a) f = f a"
  by (rule ext) (simp add: bind_act_def give_def)

definition admit_rows ::
  "gate_env \<Rightarrow> key_context option \<Rightarrow> request_attribution \<Rightarrow> string \<Rightarrow> (string option \<times> entity_limits list) act" where
  "admit_rows env ctx req model =
     bind_act (billed_user env ctx) (\<lambda>user.
     bind_act (admit_end_user env (Option.bind ctx kc_org_id) (ra_end_user req)) (\<lambda>_.
     bind_act (load_rows env (principals_of (Option.bind ctx kc_key_id) (Option.bind ctx kc_org_id)
         (Option.bind ctx kc_app_id) user (ra_end_user req))) (\<lambda>rows.
     bind_act (check_models model rows) (\<lambda>_. give (user, rows)))))"

definition fresh_guard :: "key_context option \<Rightarrow> request_attribution \<Rightarrow> string option \<Rightarrow> entity list \<Rightarrow> limit_guard" where
  "fresh_guard ctx req user held =
     \<lparr>lg_store_backed = True, lg_reserved = 0, lg_charged = [],
      lg_attribution = \<lparr>at_key_id = map_option uuid_text (Option.bind ctx kc_key_id), at_user_id = user,
        at_end_user = ra_end_user req, at_tags = ra_tags req\<rparr>,
      lg_slots = held\<rparr>"

lemma begin_phases:
  assumes "en_managed env"
  shows "begin_limits env ctx req model estimate =
     bind_act (tenant_allows_model env (Option.bind ctx kc_org_id) (Option.bind ctx kc_app_id) model) (\<lambda>allowed.
     if \<not> allowed
     then refuse 403 ''model_not_allowed'' (''model '' @ [CHR 0x27] @ model @ [CHR 0x27]
        @ '' is not enabled for this organization or application'')
     else bind_act (admit_rows env ctx req model) (\<lambda>(user, rows).
       bind_act (take_slots env [] rows) (\<lambda>held.
         reserve_rows env (max estimate 0) (fresh_guard ctx req user held) rows)))"
  by (simp add: begin_limits_def Let_def assms admit_rows_def fresh_guard_def bind_act_assoc bind_act_give
      cong: if_cong)

definition keyed :: "gate \<Rightarrow> bool" where
  "keyed s = (\<forall>e l. ga_limits s e = Some l \<longrightarrow> el_entity l = e)"

lemma keyedD: "keyed s \<Longrightarrow> ga_limits s e = Some l \<Longrightarrow> el_entity l = e"
  by (cases e) (simp add: keyed_def)

text \<open>The lookups may only start a window over, or create an empty row.\<close>

definition only_reset :: "gate \<Rightarrow> gate \<Rightarrow> bool" where
  "only_reset s s' = (\<forall>e. case ga_limits s' e of
       None \<Rightarrow> ga_limits s e = None
     | Some l' \<Rightarrow> el_spend l' = 0 \<or> (\<exists>l. ga_limits s e = Some l \<and> el_spend l' = el_spend l))"

lemma only_resetI:
  assumes "\<And>e. ga_limits s' e = None \<Longrightarrow> ga_limits s e = None"
    and "\<And>e l'. ga_limits s' e = Some l' \<Longrightarrow> el_spend l' \<noteq> 0 \<Longrightarrow> \<exists>l. ga_limits s e = Some l \<and> el_spend l' = el_spend l"
  shows "only_reset s s'"
  unfolding only_reset_def
proof
  fix e
  show "case ga_limits s' e of
       None \<Rightarrow> ga_limits s e = None
     | Some l' \<Rightarrow> el_spend l' = 0 \<or> (\<exists>l. ga_limits s e = Some l \<and> el_spend l' = el_spend l)"
    using assms [of e] by (cases "ga_limits s' e") auto
qed

lemma only_resetD:
  assumes "only_reset s s'"
  shows "ga_limits s' e = None \<Longrightarrow> ga_limits s e = None"
    and "ga_limits s' e = Some l' \<Longrightarrow> el_spend l' \<noteq> 0
     \<Longrightarrow> \<exists>l. ga_limits s e = Some l \<and> el_spend l' = el_spend l"
  using assms [unfolded only_reset_def, rule_format, of e] by simp_all

interpretation keyed_rows: lookup_invariant keyed
  by unfold_locales (auto simp: keyed_def statement_defs Let_def split: option.splits)

lemma only_reset_update:
  assumes "only_reset s0 s" and "ga_limits s' = (ga_limits s)(e \<mapsto> l)" and "el_spend l = 0"
  shows "only_reset s0 s'"
  using assms by (intro only_resetI) (auto dest: only_resetD split: if_splits)

interpretation reset_rows: lookup_invariant "only_reset s0" for s0
proof unfold_locales
  show "only_reset s0 s \<Longrightarrow> only_reset s0 (snd (roll_limits_window e (Some x) (Some y) now s))" for s e x y now
    by (auto simp: roll_limits_window_def row_update_def intro: only_reset_update split: option.splits)
  show "only_reset s0 s \<Longrightarrow> only_reset s0 (snd (touch_end_user org eu now s))" for s org eu now
    by (simp add: touch_end_user_def only_reset_def Let_def)
  show "only_reset s0 s \<Longrightarrow> default_row l \<Longrightarrow> only_reset s0 (snd (upsert_limits l now s))" for s l now
    by (auto simp: upsert_limits_def default_row_def Let_def intro: only_reset_update)
qed

lemma admit_rows_keeps:
  assumes "lookup_invariant P" and "others_keep P env" and "default_cap_ok env"
  shows "keeps P (admit_rows env ctx req model)"
  unfolding admit_rows_def
  by (intro keeps_rules lookup_invariant.lookups_keep [OF assms(1,2)]
      lookup_invariant.end_user_keeps [OF assms])

lemma before_reservation:
  assumes "quiet env" and "default_cap_ok env"
  shows "keeps (\<lambda>t. ga_slots t = ga_slots s \<and> ga_keys t = ga_keys s) (admit_rows env ctx req model)"
    and "keeps (only_reset s) (admit_rows env ctx req model)"
    and "keeps keyed (admit_rows env ctx req model)"
    and "keeps (\<lambda>t. ga_slots t = ga_slots s \<and> ga_keys t = ga_keys s) (tenant_allows_model env o' a m)"
    and "keeps (only_reset s) (tenant_allows_model env o' a m)"
    and "keeps keyed (tenant_allows_model env o' a m)"
proof -
  have i: "lookup_invariant (\<lambda>t. ga_slots t = ga_slots s \<and> ga_keys t = ga_keys s)"
    by unfold_locales (auto simp: statement_defs Let_def split: option.splits)
  have k: "others_keep (\<lambda>t. ga_slots t = ga_slots s \<and> ga_keys t = ga_keys s) env"
    "others_keep (only_reset s) env" "others_keep keyed env"
    using assms(1) by (auto intro!: quiet_others simp: only_reset_def keyed_def)
  note a = admit_rows_keeps [OF _ _ assms(2)]
  show "keeps (\<lambda>t. ga_slots t = ga_slots s \<and> ga_keys t = ga_keys s) (admit_rows env ctx req model)"
    "keeps (only_reset s) (admit_rows env ctx req model)" "keeps keyed (admit_rows env ctx req model)"
    using a [OF i k(1)] a [OF reset_rows.lookup_invariant_axioms k(2)]
      a [OF keyed_rows.lookup_invariant_axioms k(3)] by simp_all
  show "keeps (\<lambda>t. ga_slots t = ga_slots s \<and> ga_keys t = ga_keys s) (tenant_allows_model env o' a m)"
    "keeps (only_reset s) (tenant_allows_model env o' a m)" "keeps keyed (tenant_allows_model env o' a m)"
    using lookup_invariant.lookups_keep(1) [OF i k(1)] reset_rows.lookups_keep(1) [OF k(2)]
      keyed_rows.lookups_keep(1) [OF k(3)] by simp_all
qed

section \<open>The rows of a request\<close>

definition same_row :: "entity_limits \<Rightarrow> entity_limits \<Rightarrow> bool" where
  "same_row l row = (l\<lparr>el_updated_at := 0\<rparr> = row\<lparr>el_updated_at := 0\<rparr>)"

lemma same_rowD:
  assumes "same_row l row"
  shows "el_entity l = el_entity row" "el_allowed_models l = el_allowed_models row"
    "el_max_parallel l = el_max_parallel row" "el_max_budget l = el_max_budget row"
    "el_spend l = el_spend row" "el_rpm l = el_rpm row"
proof -
  have "f (l\<lparr>el_updated_at := 0\<rparr>) = f (row\<lparr>el_updated_at := 0\<rparr>)" for f :: "entity_limits \<Rightarrow> 'a"
    using assms by (simp add: same_row_def)
  from this [of el_entity] this [of el_allowed_models] this [of el_max_parallel] this [of el_max_budget]
    this [of el_spend] this [of el_rpm]
  show "el_entity l = el_entity row" "el_allowed_models l = el_allowed_models row"
    "el_max_parallel l = el_max_parallel row" "el_max_budget l = el_max_budget row"
    "el_spend l = el_spend row" "el_rpm l = el_rpm row" by simp_all
qed

lemma db_need_quiet:
  assumes "quiet env" and "db_need env op s = (Inr a, s')"
  shows "op (en_now env (ga_calls s)) (s\<lparr>ga_calls := Suc (ga_calls s)\<rparr>) = (a, s')"
proof -
  obtain r t where c: "db_call env op s = (r, t)" by (cases "db_call env op s")
  with assms(2) have "r = Some a" "t = s'" by (auto simp: db_need_def split: option.splits)
  with db_call_quiet [OF assms(1) c] show ?thesis by simp
qed

lemma get_limits_quiet:
  assumes "quiet env" and "db_need env (get_limits e) s = (Inr row, s')"
  shows "row = ga_limits s e \<and> ga_limits s' = ga_limits s"
  using db_need_quiet [OF assms] by (auto simp: get_limits_def reads_def)

lemma roll_quiet:
  assumes "quiet env" and "ga_limits s e = Some l"
    and "db_need env (roll_limits_window e (el_reset_at l) (Some t)) s = (Inr rolled, s')"
  shows "rolled \<and> (\<exists>row. ga_limits s' = (ga_limits s)(e \<mapsto> row)
    \<and> same_row (l\<lparr>el_spend := 0, el_alerted_at := None, el_reset_at := Some t\<rparr>) row)"
  using db_need_quiet [OF assms(1,3)] assms(2)
  by (auto simp: roll_limits_window_def row_update_def same_row_def split: if_splits)

lemma load_current_quiet:
  assumes "quiet env" and "load_current env e s = (Inr res, s')"
  shows "(\<forall>e'. e' \<noteq> e \<longrightarrow> ga_limits s' e' = ga_limits s e')
    \<and> (case res of None \<Rightarrow> ga_limits s' e = None | Some l \<Rightarrow> \<exists>row. ga_limits s' e = Some row \<and> same_row l row)"
proof -
  from assms(2) obtain r s1 where g: "db_need env (get_limits e) s = (Inr r, s1)"
    and rest: "(case r of None \<Rightarrow> give None
     | Some l \<Rightarrow> with_clock env (\<lambda>now.
         case lapsed_window_next_reset (en_months env) (el_duration l) (el_reset_at l) now of
           None \<Rightarrow> hang
         | Some lapsed \<Rightarrow>
             (case lapsed of
                None \<Rightarrow> give (Some l)
              | Some next_at \<Rightarrow>
                  bind_act (db_need env (roll_limits_window e (el_reset_at l) (Some next_at)))
                    (\<lambda>rolled. if rolled
                      then give (Some (l\<lparr>el_spend := 0, el_alerted_at := None, el_reset_at := Some next_at\<rparr>))
                      else bind_act (db_need env (get_limits e))
                        (\<lambda>fresh. give (Some (unwrap_or l fresh))))))) s1 = (Inr res, s')"
    unfolding load_current_def bind_act_Inr by blast
  note r = get_limits_quiet [OF assms(1) g]
  show ?thesis
  proof (cases r)
    case None with rest r have "res = None" "s' = s1" by (simp_all add: give_def)
    with r None show ?thesis by simp
  next
    case (Some l)
    let ?lapsed = "lapsed_window_next_reset (en_months env) (el_duration l) (el_reset_at l) (en_now env (ga_calls s1))"
    consider "?lapsed = Some None" | t where "?lapsed = Some (Some t)"
      using rest Some by (cases ?lapsed) (auto simp: with_clock_def hang_def)
    then show ?thesis
    proof cases
      case 1
      with rest Some have "res = Some l" "s' = s1" by (simp_all add: give_def with_clock_def)
      moreover have "ga_limits s e = Some l" "ga_limits s1 = ga_limits s" using r Some by simp_all
      ultimately show ?thesis by (simp add: same_row_def)
    next
      case 2
      with rest Some obtain rolled s2 where q:
        "db_need env (roll_limits_window e (el_reset_at l) (Some t)) s1 = (Inr rolled, s2)"
        and rest2: "(if rolled
            then give (Some (l\<lparr>el_spend := 0, el_alerted_at := None, el_reset_at := Some t\<rparr>))
            else bind_act (db_need env (get_limits e)) (\<lambda>fresh. give (Some (unwrap_or l fresh)))) s2 = (Inr res, s')"
        by (auto simp: with_clock_def bind_act_Inr)
      from r Some have "ga_limits s1 e = Some l" by simp
      from roll_quiet [OF assms(1) this q] rest2 r show ?thesis by (auto simp: give_def)
    qed
  qed
qed

lemma load_rows_quiet:
  assumes "quiet env" and "load_rows env es s = (Inr rows, s')" and "distinct es" and "keyed s'"
  shows "(\<forall>e. e \<notin> set es \<longrightarrow> ga_limits s' e = ga_limits s e)
    \<and> distinct (map el_entity rows) \<and> set (map el_entity rows) \<subseteq> set es
    \<and> (\<forall>e\<in>set es. \<forall>row. ga_limits s' e = Some row \<longrightarrow> (\<exists>l\<in>set rows. same_row l row))
    \<and> (\<forall>l\<in>set rows. \<exists>row. ga_limits s' (el_entity l) = Some row \<and> same_row l row)"
  using assms(2,3)
proof (induction es arbitrary: s rows)
  case (Cons e es)
  then obtain res s1 rows1 where c: "load_current env e s = (Inr res, s1)"
    and l: "load_rows env es s1 = (Inr rows1, s')"
    and rows: "rows = (case res of Some l \<Rightarrow> l # rows1 | None \<Rightarrow> rows1)"
    by (auto simp: bind_act_Inr give_def)
  note first = load_current_quiet [OF assms(1) c]
  note IH = Cons.IH [OF l]
  have d: "e \<notin> set es" "distinct es" using Cons.prems(2) by simp_all
  have e: "ga_limits s' e = ga_limits s1 e" using IH [OF d(2)] d(1) by blast
  show ?case
  proof (cases res)
    case None
    with first e have "ga_limits s' e = None" by simp
    with IH d first rows None show ?thesis by auto
  next
    case (Some x)
    with first e obtain row where row: "ga_limits s' e = Some row" "same_row x row" by auto
    have x: "el_entity x = e" using keyedD [OF assms(4) row(1)] same_rowD(1) [OF row(2)] by simp
    have "e \<notin> el_entity ` set rows1" using IH d by auto
    with IH d first rows Some row x show ?thesis by auto
  qed
qed (auto simp: give_def)

lemma check_models_ok:
  "check_models model ls s = (Inr u, s') \<Longrightarrow>
     s' = s \<and> (\<forall>l\<in>set ls. \<forall>ms. el_allowed_models l = Some ms \<longrightarrow> model \<in> set ms)"
  by (induction ls) (auto simp: give_def refuse_def split: if_splits option.splits)

lemma principals_distinct: "distinct (principals_of key org app user eu)"
  by (simp add: principals_of_def split: option.splits)

lemma admit_rows_quiet:
  assumes "quiet env" and "default_cap_ok env" and "keyed s"
    and "admit_rows env ctx req model s = (Inr (user, rows), s')"
  shows "distinct (map el_entity rows)
    \<and> (\<forall>e\<in>set (principals_of (Option.bind ctx kc_key_id) (Option.bind ctx kc_org_id)
         (Option.bind ctx kc_app_id) user (ra_end_user req)).
         \<forall>row. ga_limits s' e = Some row \<longrightarrow> (\<exists>l\<in>set rows. same_row l row))
    \<and> (\<forall>l\<in>set rows. (\<exists>row. ga_limits s' (el_entity l) = Some row \<and> same_row l row)
         \<and> (\<forall>ms. el_allowed_models l = Some ms \<longrightarrow> model \<in> set ms))"
proof -
  have k: "keyed s'" using keepsD [OF before_reservation(3) [OF assms(1,2)] assms(3,4)] .
  from assms(4) obtain s1 s2 where
    l: "load_rows env (principals_of (Option.bind ctx kc_key_id) (Option.bind ctx kc_org_id)
         (Option.bind ctx kc_app_id) user (ra_end_user req)) s1 = (Inr rows, s2)"
    and c: "check_models model rows s2 = (Inr (), s')"
    by (auto simp: admit_rows_def bind_act_Inr give_def)
  from check_models_ok [OF c] have "s' = s2" by simp
  with load_rows_quiet [OF assms(1) l principals_distinct] check_models_ok [OF c] k show ?thesis by blast
qed



section \<open>Nothing is left behind\<close>

text \<open>The spends a refund has to undo: those of the rows, and that of a row that starts over.\<close>

definition refunds_exact :: "gate \<Rightarrow> f64 \<Rightarrow> bool" where
  "refunds_exact s estimate = (0 < estimate \<longrightarrow> refundable estimate 0
     \<and> (\<forall>e l. ga_limits s e = Some l \<longrightarrow> refundable estimate (el_spend l)))"

definition no_trace :: "gate \<Rightarrow> gate \<Rightarrow> bool" where
  "no_trace s s' = ((\<forall>x. busy x (ga_slots s') = busy x (ga_slots s)) \<and> ga_keys s' = ga_keys s \<and> only_reset s s')"

lemma refunds_exactD:
  assumes "refunds_exact s a" and "only_reset s s2" and "0 < a" and "ga_limits s2 e = Some l"
  shows "refundable a (el_spend l)"
proof (cases "el_spend l = 0")
  case False
  from only_resetD(2) [OF assms(2,4) this] assms(1,3) show ?thesis by (auto simp: refunds_exact_def)
qed (use assms(1,3) in \<open>simp add: refunds_exact_def\<close>)

lemma only_reset_cong: "ga_limits s2 = ga_limits s1 \<Longrightarrow> only_reset s s2 = only_reset s s1"
  by (simp add: only_reset_def)

lemma only_reset_refl: "only_reset s s"
  by (rule only_resetI) auto

text \<open>The state in which the slots are taken.\<close>

lemma admission_start:
  assumes "quiet env" and "default_cap_ok env"
    and "tenant_allows_model env o' ap model s = (Inr ok, s1)"
    and "admit_rows env ctx req model s1 = (r, s2)"
  shows "ga_slots s2 = ga_slots s \<and> ga_keys s2 = ga_keys s \<and> only_reset s s2"
proof -
  have "ga_slots s1 = ga_slots s \<and> ga_keys s1 = ga_keys s"
    using keepsD [OF before_reservation(4) [OF assms(1,2), of s] _ assms(3)] by simp
  moreover have "only_reset s s1"
    using keepsD [OF before_reservation(5) [OF assms(1,2), of s] only_reset_refl assms(3)] .
  ultimately show ?thesis
    using keepsD [OF before_reservation(1) [OF assms(1,2), of s] _ assms(4)]
      keepsD [OF before_reservation(2) [OF assms(1,2), of s] _ assms(4)] by simp
qed

lemma begin_refused:
  assumes "en_managed env" and "begin_limits env ctx req model estimate s = (Inl err, s')"
  shows "(\<exists>r. tenant_allows_model env (Option.bind ctx kc_org_id) (Option.bind ctx kc_app_id) model s = (r, s'))
    \<or> (\<exists>s1 ok. tenant_allows_model env (Option.bind ctx kc_org_id) (Option.bind ctx kc_app_id) model s = (Inr ok, s1)
       \<and> ((\<exists>r. admit_rows env ctx req model s1 = (r, s'))
         \<or> (\<exists>user rows s2. admit_rows env ctx req model s1 = (Inr (user, rows), s2)
            \<and> (take_slots env [] rows s2 = (Inl err, s')
              \<or> (\<exists>held s3. take_slots env [] rows s2 = (Inr held, s3)
                 \<and> reserve_rows env (max estimate 0) (fresh_guard ctx req user held) rows s3 = (Inl err, s'))))))"
  using assms(2) unfolding begin_phases [OF assms(1)] bind_act_Inl
proof (elim disjE exE conjE)
  fix ok s1
  assume t: "tenant_allows_model env (Option.bind ctx kc_org_id) (Option.bind ctx kc_app_id) model s = (Inr ok, s1)"
    and rest: "(if \<not> ok
       then refuse 403 ''model_not_allowed'' (''model '' @ [CHR 0x27] @ model @ [CHR 0x27]
          @ '' is not enabled for this organization or application'')
       else bind_act (admit_rows env ctx req model) (\<lambda>(user, rows). bind_act (take_slots env [] rows)
          (\<lambda>held. reserve_rows env (max estimate 0) (fresh_guard ctx req user held) rows))) s1 = (Inl err, s')"
  show ?thesis
  proof (cases ok)
    case False
    with t rest show ?thesis by (auto simp: refuse_def)
  next
    case True
    with rest have "bind_act (admit_rows env ctx req model) (\<lambda>(user, rows). bind_act (take_slots env [] rows)
          (\<lambda>held. reserve_rows env (max estimate 0) (fresh_guard ctx req user held) rows)) s1 = (Inl err, s')" by simp
    then consider "admit_rows env ctx req model s1 = (Inl err, s')"
      | p s2 where "admit_rows env ctx req model s1 = (Inr p, s2)"
          "bind_act (take_slots env [] (snd p))
             (\<lambda>held. reserve_rows env (max estimate 0) (fresh_guard ctx req (fst p) held) (snd p)) s2 = (Inl err, s')"
      unfolding bind_act_Inl split_beta by blast
    then show ?thesis
    proof cases
      case 1 with t show ?thesis by blast
    next
      case 2
      obtain user rows where "p = (user, rows)" by (cases p)
      with 2 t show ?thesis unfolding bind_act_Inl by (intro disjI2) auto
    qed
  qed
qed blast

text \<open>
  A refused request leaves nothing behind: without interference and database errors, and where
  refunds are exact, no slot stays taken, no key changes, and no budget is used; the only change
  to the limits is that windows that had ended start over and a new end user gets its row.
\<close>

lemma refused_request_traceless:
  assumes "quiet env" and "healthy env" and "default_cap_ok env" and "en_managed env" and "keyed s"
    and "refunds_exact s estimate"
    and "begin_limits env ctx req model estimate s = (Inl err, s')"
  shows "no_trace s s'"
proof -
  define a where "a = max estimate 0"
  let ?tenant = "tenant_allows_model env (Option.bind ctx kc_org_id) (Option.bind ctx kc_app_id) model"
  from assms(7) consider
      (tenant) r where "?tenant s = (r, s')"
    | (lookup) s1 ok r where "?tenant s = (Inr ok, s1)" "admit_rows env ctx req model s1 = (r, s')"
    | (slot) s1 ok user rows s2 where "?tenant s = (Inr ok, s1)"
        "admit_rows env ctx req model s1 = (Inr (user, rows), s2)" "take_slots env [] rows s2 = (Inl err, s')"
    | (reserve) s1 ok user rows s2 held s3 where "?tenant s = (Inr ok, s1)"
        "admit_rows env ctx req model s1 = (Inr (user, rows), s2)" "take_slots env [] rows s2 = (Inr held, s3)"
        "reserve_rows env a (fresh_guard ctx req user held) rows s3 = (Inl err, s')"
    using begin_refused [OF assms(4,7)] unfolding a_def by metis
  then show ?thesis
  proof cases
    case tenant
    have "ga_slots s' = ga_slots s \<and> ga_keys s' = ga_keys s"
      using keepsD [OF before_reservation(4) [OF assms(1,3), of s] _ tenant] by simp
    moreover have "only_reset s s'"
      using keepsD [OF before_reservation(5) [OF assms(1,3), of s] only_reset_refl tenant] .
    ultimately show ?thesis by (simp add: no_trace_def)
  next
    case lookup
    then show ?thesis using admission_start [OF assms(1,3)] by (fastforce simp: no_trace_def)
  next
    case slot
    then show ?thesis
      using admission_start [OF assms(1,3) slot(1,2)] take_slots_counts [OF slot(3)]
        take_slots_frame [of env "[]" rows s2] only_reset_cong [of s' s2 s]
      by (simp add: no_trace_def)
  next
    case reserve
    note st = admission_start [OF assms(1,3) reserve(1,2)]
    have k1: "keyed s1" using keepsD [OF before_reservation(6) [OF assms(1,3)] assms(5) reserve(1)] .
    note rows = admit_rows_quiet [OF assms(1,3) k1 reserve(2)]
    have s3: "ga_limits s3 = ga_limits s2 \<and> ga_keys s3 = ga_keys s2"
      using take_slots_frame [of env "[]" rows s2] reserve(3) by simp
    have held: "held = slots_of rows" "busy x (ga_slots s3) = busy x (ga_slots s2) + count_list held x" for x
      using take_slots_counts [OF reserve(3)] by simp_all
    have a: "0 < a"
      using reserve(4) reserve_rows_nothing [of a env "fresh_guard ctx req user held" rows s3] by (cases "0 < a") simp_all
    then have a': "a = estimate" by (simp add: a_def max_def split: if_splits)
    have slots: "busy x (ga_slots s') = busy x (ga_slots s)" for x
      using reserve_rows_slots [OF assms(1,4) _ reserve(4)] held(2) [of x] st by (simp add: fresh_guard_def)
    have eps: "f64_epsilon < \<bar>f64_sub 0 a\<bar>" using assms(6) a a' by (simp add: refunds_exact_def refundable_def)
    have ex: "refundable a (el_spend l)" if "ga_limits s2 e = Some l" for e l
      using refunds_exactD [of s a s2 e l] assms(6) st a a' that by simp
    have "ga_limits s' = ga_limits s2 \<and> ga_keys s' = ga_keys s3"
      by (rule reserve_rows_refused [OF assms(1,2,4) _ _ ex eps _ reserve(4)])
        (use rows s3 in \<open>simp_all add: fresh_guard_def shift_spends_def\<close>)
    then show ?thesis using slots st s3 only_reset_cong [of s' s2 s] by (simp add: no_trace_def)
  qed
qed

text \<open>
  A generation that fails is never billed: an admitted request that is settled to nothing and
  ends leaves no slot taken and no budget used, under the same conditions; between the admission
  and the settlement only the keys may change.
\<close>

lemma failed_generation_traceless:
  assumes "quiet env" and "healthy env" and "default_cap_ok env" and "en_managed env" and "keyed s"
    and "refunds_exact s estimate"
    and "begin_limits env ctx req model estimate s = (Inr g, s1)"
    and "ga_limits s1' = ga_limits s1" and "ga_slots s1' = ga_slots s1"
    and "settle env 0 g s1' = (g', s2)"
  shows "ga_keys s1 = ga_keys s" and "no_trace (s\<lparr>ga_keys := ga_keys s1'\<rparr>) (drop_guard g' s2)"
proof -
  define a where "a = max estimate 0"
  let ?tenant = "tenant_allows_model env (Option.bind ctx kc_org_id) (Option.bind ctx kc_app_id) model"
  from assms(7) obtain t1 user rows t2 held t3 where
    t: "?tenant s = (Inr True, t1)"
    and adm: "admit_rows env ctx req model t1 = (Inr (user, rows), t2)"
    and h: "take_slots env [] rows t2 = (Inr held, t3)"
    and r: "reserve_rows env a (fresh_guard ctx req user held) rows t3 = (Inr g, s1)"
    unfolding begin_phases [OF assms(4)] bind_act_Inr a_def
    by (auto simp: refuse_def bind_act_Inr split: if_splits)
  note st = admission_start [OF assms(1,3) t adm]
  have k1: "keyed t1" using keepsD [OF before_reservation(6) [OF assms(1,3)] assms(5) t] .
  have d: "distinct (map el_entity rows)" using admit_rows_quiet [OF assms(1,3) k1 adm] by simp
  have t3: "ga_limits t3 = ga_limits t2 \<and> ga_keys t3 = ga_keys t2"
    using take_slots_frame [of env "[]" rows t2] h by simp
  have held: "busy x (ga_slots t3) = busy x (ga_slots t2) + count_list held x" for x
    using take_slots_counts [OF h] by simp
  note res = reserve_rows_result [OF assms(1) r d]
  have g: "lg_charged g = rows" "lg_reserved g = a" "lg_slots g = held" "lg_store_backed g"
    using res(1) by (simp_all add: fresh_guard_def)
  then have s2: "g' = g\<lparr>lg_reserved := 0, lg_charged := []\<rparr>" "s2 = fold (settle_one env a 0) rows s1'"
    using assms(4,10) by (simp_all add: settle_def)
  have undo: "ga_slots s2 = ga_slots s1 \<and> ga_keys s2 = ga_keys s1' \<and> ga_limits s2 = ga_limits t2"
  proof (cases "0 < a")
    case True
    then have a': "a = estimate" by (simp add: a_def max_def split: if_splits)
    have eps: "f64_epsilon < \<bar>f64_sub 0 a\<bar>" using assms(6) True a' by (simp add: refunds_exact_def refundable_def)
    have "shift_spends (map el_entity rows) (f64_sub 0 a) (shift_spends (map el_entity rows) a (ga_limits t2)) = ga_limits t2"
      using d refunds_exactD [of s a t2] assms(6) st True a' by (intro shift_spends_undo) simp_all
    with settle_zero_quiet [OF assms(1,2) eps, of rows s1'] res(3) True t3 assms(8,9) show ?thesis by (simp add: s2)
  next
    case False
    then have "a = 0" by (simp add: a_def)
    then have "settle_one env a 0 l x = x" for l x
      by (simp add: settle_one_def f64_sub_def f64_epsilon_def split: option.splits)
    then have "fold (settle_one env a 0) rows s1' = s1'" by (induction rows) simp_all
    with res(3) False t3 assms(8,9) show ?thesis by (simp add: s2)
  qed
  show "ga_keys s1 = ga_keys s" using res(2) t3 st by simp
  have "only_reset (s\<lparr>ga_keys := ks\<rparr>) x = only_reset s x" for ks x
    by (simp add: only_reset_def cong: option.case_cong)
  with undo show "no_trace (s\<lparr>ga_keys := ga_keys s1'\<rparr>) (drop_guard g' s2)"
    using res(2) t3 st held g s2 only_reset_cong [of "drop_guard g' s2" t2 s]
    by (simp add: no_trace_def drop_guard_def release_def drop_slots_count)
qed

section \<open>The answer always comes\<close>

definition answers :: "'a act \<Rightarrow> bool" where
  "answers m = (\<forall>s. fst (m s) \<noteq> Inl Hang)"

named_theorems answers_rules \<open>an action answers\<close>

lemma answers_bind [answers_rules]: "answers m \<Longrightarrow> (\<And>a. answers (f a)) \<Longrightarrow> answers (bind_act m f)"
  unfolding answers_def bind_act_def by (auto split: prod.splits sum.splits) (metis fst_conv)

lemma answers_basic [answers_rules]:
  "answers (give a)" "answers (refuse n k m)" "answers (db_need env op)"
  by (auto simp: answers_def give_def refuse_def db_need_def store_error_def split: prod.splits option.splits)

lemma answers_struct [answers_rules]:
  "answers a \<Longrightarrow> answers b \<Longrightarrow> answers (if c then a else b)"
  "answers a \<Longrightarrow> (\<And>x. answers (h x)) \<Longrightarrow> answers (case o' of None \<Rightarrow> a | Some x \<Rightarrow> h x)"
  "(\<And>x y. answers (k x y)) \<Longrightarrow> answers (case p of (x, y) \<Rightarrow> k x y)"
  "(\<And>now. answers (f now)) \<Longrightarrow> answers (with_clock env f)"
  "answers (g z) \<Longrightarrow> answers (Let z g)"
  by (auto simp: answers_def with_clock_def split: option.splits prod.splits)

lemma load_rows_answers:
  assumes "\<And>t n t'. 0 < n \<Longrightarrow> en_months env t n = Some t' \<Longrightarrow> t < t'"
  shows "answers (load_rows env es)"
proof (induction es)
  case (Cons e es)
  have "answers (with_clock env (\<lambda>now.
      case lapsed_window_next_reset (en_months env) (el_duration l) (el_reset_at l) now of
        None \<Rightarrow> hang
      | Some lapsed \<Rightarrow>
          (case lapsed of
             None \<Rightarrow> give (Some l)
           | Some next_at \<Rightarrow>
               bind_act (db_need env (roll_limits_window e (el_reset_at l) (Some next_at)))
                 (\<lambda>rolled. if rolled
                   then give (Some (l\<lparr>el_spend := 0, el_alerted_at := None, el_reset_at := Some next_at\<rparr>))
                   else bind_act (db_need env (get_limits e)) (\<lambda>fresh. give (Some (unwrap_or l fresh)))))))"
    for l :: entity_limits
  proof (rule answers_struct(4))
    fix now
    obtain x where x: "lapsed_window_next_reset (en_months env) (el_duration l) (el_reset_at l) now = Some x"
      using lapsed_window_returns [of "en_months env"] assms by blast
    show "answers (case lapsed_window_next_reset (en_months env) (el_duration l) (el_reset_at l) now of
        None \<Rightarrow> hang
      | Some lapsed \<Rightarrow>
          (case lapsed of
             None \<Rightarrow> give (Some l)
           | Some next_at \<Rightarrow>
               bind_act (db_need env (roll_limits_window e (el_reset_at l) (Some next_at)))
                 (\<lambda>rolled. if rolled
                   then give (Some (l\<lparr>el_spend := 0, el_alerted_at := None, el_reset_at := Some next_at\<rparr>))
                   else bind_act (db_need env (get_limits e)) (\<lambda>fresh. give (Some (unwrap_or l fresh))))))"
      unfolding x option.case by (intro answers_rules)
  qed
  then have "answers (load_current env e)"
    unfolding load_current_def by (intro answers_bind answers_basic answers_struct(2))
  with Cons show ?case unfolding load_rows.simps by (intro answers_rules)
qed (simp add: answers_basic)

text \<open>
  The admission of a request always ends with an answer, whatever the other requests and the
  database do: the only loop, over budget windows, ends for every length that can be configured.
  Of the calendar it is used only that adding months moves forward.
\<close>

theorem admission_terminates:
  assumes "\<And>t n t'. 0 < n \<Longrightarrow> en_months env t n = Some t' \<Longrightarrow> t < t'"
  shows "fst (begin_limits env ctx req model estimate s) \<noteq> Inl Hang"
proof -
  have slots: "answers (take_slots env held ls)" for held ls
    unfolding answers_def
  proof
    fix s
    obtain r s' where t: "take_slots env held ls s = (r, s')" by (cases "take_slots env held ls s")
    with take_slots_counts [OF t] show "fst (take_slots env held ls s) \<noteq> Inl Hang" by (cases r) auto
  qed
  have rows: "answers (reserve_rows env a g ls)" for a g ls
  proof -
    have "fst (reserve_rows env a g ls s) \<noteq> Inl Hang" for s
      by (induction ls arbitrary: g s) (auto simp: Let_def split_beta store_error_def split: option.splits bool.splits prod.splits)
    then show ?thesis by (simp add: answers_def)
  qed
  have models: "answers (check_models m ls)" for m ls
    by (induction ls) (auto intro: answers_rules)
  have "answers (begin_limits env ctx req model estimate)"
    unfolding begin_limits_def Let_def tenant_allows_model_def billed_user_def admit_end_user_def
      ensure_default_end_user_limits_def
    by (intro answers_rules load_rows_answers assms slots rows models)
  then show ?thesis by (simp add: answers_def)
qed

text \<open>
  The models a tenant is shown are those it may use: without interference and errors, a model is
  allowed exactly when the list of the tenant's models is open or contains it.
\<close>

theorem model_filter_agrees:
  assumes "quiet env" and "healthy env"
    and "tenant_model_filter env org app s = (res, s1)"
    and "tenant_allows_model env org app model s' = (res', s2)"
  shows "\<exists>listed ok. res = Inr listed \<and> res' = Inr ok
    \<and> (ok \<longleftrightarrow> (case listed of None \<Rightarrow> True | Some models \<Rightarrow> model \<in> models))"
proof -
  have call: "db_need env op t = (Inr (fst (op (en_now env (ga_calls t)) (t\<lparr>ga_calls := Suc (ga_calls t)\<rparr>))),
      snd (op (en_now env (ga_calls t)) (t\<lparr>ga_calls := Suc (ga_calls t)\<rparr>)))"
    for op :: "datetime \<Rightarrow> gate \<Rightarrow> 'z \<times> gate" and t
    using assms(1,2) by (simp add: db_need_def db_call_def quiet_def healthy_def Let_def split_beta)
  show ?thesis
    using assms(3,4)
    by (auto simp: tenant_model_filter_def tenant_allows_model_def bind_act_def give_def call reads_def split_beta
        split: option.splits if_splits)
qed

section \<open>Examples\<close>

lemma round_f64_neg_numeral [simp]:
  "numeral n \<le> (2 ^ 53 :: int) \<Longrightarrow> round_f64 (- numeral n) = - numeral n"
  using round_f64_of_int [of "- numeral n"] by simp

definition example_row :: entity_limits where
  "example_row = \<lparr>el_entity = (EOrg, ''org''), el_org_id = Some ''org'', el_max_budget = Some 10,
     el_soft_budget = None, el_duration = None, el_spend = 3, el_reset_at = None, el_alerted_at = None,
     el_allowed_models = Some [''fal/flux''], el_max_parallel = Some 2, el_rpm = None, el_metadata = None,
     el_created_at = 0, el_updated_at = 0\<rparr>"

definition example_gate :: gate where
  "example_gate = \<lparr>ga_keys = [], ga_limits = [(EOrg, ''org'') \<mapsto> example_row], ga_end_users = Map.empty,
     ga_slots = Map.empty, ga_limiter = rate_limiter_new, ga_audit = [], ga_alerts = [], ga_calls = 0\<rparr>"

definition example_gate_env :: gate_env where
  "example_gate_env = \<lparr>en_fault = (\<lambda>_. False), en_other = (\<lambda>_ s. s), en_now = (\<lambda>n. int n),
     en_tick = (\<lambda>n. n), en_months = (\<lambda>t n. Some (t + uint n)), en_sha256 = (\<lambda>_. []),
     en_rfc3339 = (\<lambda>_. []), en_managed = True, en_org_models = (\<lambda>_. []),
     en_app_access = (\<lambda>_. (''select'', [''fal/flux''])), en_default_budget = None,
     en_default_duration = None, en_alert_webhook = False\<rparr>"

definition no_attribution :: request_attribution where
  "no_attribution = \<lparr>ra_end_user = None, ra_tags = []\<rparr>"

lemma example_env_ok:
  "quiet example_gate_env" "healthy example_gate_env" "default_cap_ok example_gate_env"
  "en_managed example_gate_env" "keyed example_gate"
  by (simp_all add: quiet_def healthy_def default_cap_ok_def example_gate_env_def keyed_def
      example_gate_def example_row_def)

lemmas admission_defs = begin_limits_def bind_act_def tenant_allows_model_def db_need_def db_call_def
  reads_def give_def refuse_def billed_user_def admit_end_user_def principals_of_def load_current_def
  get_limits_def with_clock_def lapsed_window_next_reset_def take_slot_def take_rate_def slot_of_def
  try_acquire_def reserve_limits_spend_def row_update_def settle_def settle_one_def charge_limits_spend_def

lemma example_context_org [simp]:
  "kc_org_id example_context = Some ''org''" "kc_app_id example_context = Some ''app''"
  "kc_key_id example_context = None"
  "kc_user example_context = Some \<lparr>uc_user_id = ''u1'', uc_email = ''a@b.c'', uc_role = Owner\<rparr>"
  by (simp_all add: example_context_def session_context_def example_user_def)



lemma example_refunds: "refunds_exact example_gate 2" "refunds_exact example_gate 8"
  by (auto simp: refunds_exact_def refundable_def example_gate_def example_row_def f64_sub_def f64_add_def
      f64_epsilon_def)

theorem admission_terminates_witness:
  "fst (begin_limits example_gate_env (Some example_context) no_attribution ''fal/flux'' 2 example_gate) \<noteq> Inl Hang"
  by (rule admission_terminates) (auto simp: example_gate_env_def word_less_def)

theorem model_filter_agrees_witness:
  "\<exists>ok s2. tenant_allows_model example_gate_env (Some ''org'') (Some ''app'') ''other'' example_gate = (Inr ok, s2) \<and> \<not> ok"
proof -
  obtain s1 where l: "tenant_model_filter example_gate_env (Some ''org'') (Some ''app'') example_gate
      = (Inr (Some {''fal/flux''}), s1)"
    by (simp add: tenant_model_filter_def admission_defs example_gate_env_def)
  obtain res s2 where a: "tenant_allows_model example_gate_env (Some ''org'') (Some ''app'') ''other'' example_gate = (res, s2)"
    by (cases "tenant_allows_model example_gate_env (Some ''org'') (Some ''app'') ''other'' example_gate")
  from model_filter_agrees [OF example_env_ok(1,2) l a] a show ?thesis by auto
qed

theorem budget_never_exceeded_witness:
  "capped (snd (begin_limits example_gate_env (Some example_context) no_attribution ''fal/flux'' 2 example_gate))"
proof -
  have "traffic (en_other example_gate_env n)" for n
    using traffic.idle by (simp add: example_gate_env_def)
  then have t: "traffic (\<lambda>s. snd (begin_limits example_gate_env (Some example_context) no_attribution ''fal/flux'' 2 s))"
    by (rule traffic.admission) (rule example_env_ok)
  have "capped example_gate" by (simp add: capped_def row_capped_def example_gate_def example_row_def)
  from budget_never_exceeded [OF t this] show ?thesis .
qed

end
