(* ===== verification/Providers.thy ===== *)
theory Providers
  imports Types "HOL-Library.Multiset"
begin

text \<open>
  What all providers share: their errors, cost helpers and key pools (\<open>providers/mod.rs\<close>) and
  their credentials and authentication schemes (\<open>providers/auth/mod.rs\<close>). A provider itself,
  the code that talks to an upstream service, is a parameter wherever it is called.
\<close>

section \<open>Errors\<close>

datatype provider_error =
  NotConfigured string
| RequestFailed string "16 word option" "json option" bool
| RateLimited string u64
| Timeout u64
| ModelNotSupported string string
| PricingUnavailable string string string
| InvalidRequest string

fun is_retryable :: "provider_error \<Rightarrow> bool" where
  "is_retryable (RequestFailed _ _ _ retryable) = retryable"
| "is_retryable (RateLimited _ _) = True"
| "is_retryable (Timeout _) = True"
| "is_retryable (NotConfigured _) = False"
| "is_retryable (ModelNotSupported _ _) = False"
| "is_retryable (PricingUnavailable _ _ _) = False"
| "is_retryable (InvalidRequest _) = False"

text \<open>\<open>to_string()\<close>\<close>

fun provider_error_string :: "provider_error \<Rightarrow> string" where
  "provider_error_string (NotConfigured p) = ''Provider not configured: '' @ p"
| "provider_error_string (RequestFailed m _ _ _) = ''Request failed: '' @ m"
| "provider_error_string (RateLimited p ms) =
     ''Rate limited by '' @ p @ '': retry after '' @ nat_to_string (unat ms) @ ''ms''"
| "provider_error_string (Timeout ms) = ''Request timed out after '' @ nat_to_string (unat ms) @ ''ms''"
| "provider_error_string (ModelNotSupported m p) = ''Model not supported: '' @ m @ '' by provider '' @ p"
| "provider_error_string (PricingUnavailable p m r) =
     ''Pricing unavailable for '' @ p @ ''/'' @ m @ '': '' @ r"
| "provider_error_string (InvalidRequest m) = ''Invalid request: '' @ m"

section \<open>What a provider returns\<close>

record generation_output =
  go_data :: "u8 list"
  go_content_type :: string
  go_metadata :: "(string \<times> json) list"

record video_handle =
  vh_provider_job_id :: string
  vh_provider :: string
  vh_model :: string

record video_poll_result =
  vp_status :: generation_status
  vp_progress :: u8
  vp_video_url :: "string option"
  vp_video_data :: "u8 list option"
  vp_content_type :: "string option"
  vp_error :: "string option"

record image_extras =
  ie_size :: "string option"
  ie_aspect_ratio :: "string option"
  ie_quality :: "string option"
  ie_style :: "string option"
  ie_steps :: "u32 option"
  ie_guidance_scale :: "f64 option"
  ie_strength :: "f64 option"
  ie_response_format :: string
  ie_extra :: "json option"

record video_extras =
  ve_duration_seconds :: f64
  ve_aspect_ratio :: "string option"
  ve_resolution :: "string option"
  ve_fps :: "u32 option"
  ve_extra :: "json option"

section \<open>Costs\<close>

definition apply_markup :: "f64 \<Rightarrow> f64 \<Rightarrow> f64 \<times> f64" where
  "apply_markup base markup_percent =
     (let markup = f64_mul base (f64_div markup_percent 100) in (markup, f64_add base markup))"

definition usd_to_tokens :: "f64 \<Rightarrow> f64 \<Rightarrow> u64" where
  "usd_to_tokens usd rate = of_int (f64_to_unsigned 64 (of_int \<lceil>f64_div usd rate\<rceil>))"

definition build_cost_estimate :: "f64 \<Rightarrow> f64 \<Rightarrow> cost_source \<Rightarrow> json option \<Rightarrow> cost_estimate" where
  "build_cost_estimate base markup_percent src breakdown =
     (let (markup, total) = apply_markup base markup_percent
      in \<lparr>ce_base_cost_usd = base, ce_markup_usd = markup, ce_total_cost_usd = total,
          ce_tokens_required = usd_to_tokens total (round_f64 (1 / 1000)),
          ce_cost_source = src, ce_breakdown = breakdown\<rparr>)"

section \<open>Key pools\<close>

text \<open>
  A pool's rotation cursor lives outside of the pool: in the process-wide table under the
  fingerprint of the pool's entries, or privately. \<open>cursors\<close> is the state of all of them; a
  cursor not in it is 0. The fingerprint (\<open>DefaultHasher\<close>) is an argument.
\<close>

datatype cursor_id = Shared u64 | Private nat

type_synonym cursors = "cursor_id \<rightharpoonup> u64"

record 'e pool =
  pl_entries :: "'e list"
  pl_schedule :: "nat list"
  pl_cursor :: cursor_id

text \<open>\<open>weights.enumerate()\<close> from an index on, each index pushed \<open>w.max(1)\<close> times.\<close>

fun schedule_from :: "nat \<Rightarrow> u32 list \<Rightarrow> nat list" where
  "schedule_from i [] = []"
| "schedule_from i (w # ws) = replicate (unat (max w 1)) i @ schedule_from (Suc i) ws"

definition build_weighted_schedule :: "u32 list \<Rightarrow> nat list" where
  "build_weighted_schedule ws = schedule_from 0 ws"

text \<open>\<open>None\<close> is the panic of the assertion that there is an entry.\<close>

definition pool_build :: "('e \<Rightarrow> u32) \<Rightarrow> 'e list \<Rightarrow> cursor_id \<Rightarrow> 'e pool option" where
  "pool_build weight entries cursor =
     (if entries = [] then None
      else Some \<lparr>pl_entries = entries, pl_schedule = build_weighted_schedule (map weight entries),
                 pl_cursor = cursor\<rparr>)"

definition api_key_pool_shared ::
  "(api_key_entry list \<Rightarrow> u64) \<Rightarrow> api_key_entry list \<Rightarrow> api_key_entry pool option" where
  "api_key_pool_shared fingerprint entries =
     pool_build ak_weight entries (Shared (fingerprint entries))"

definition credential_pool_shared ::
  "(credential_entry list \<Rightarrow> u64) \<Rightarrow> credential_entry list \<Rightarrow> credential_entry pool option" where
  "credential_pool_shared fingerprint entries =
     pool_build cr_weight entries (Shared (fingerprint entries))"

definition pool_index :: "'e pool \<Rightarrow> u64 \<Rightarrow> nat" where
  "pool_index p pos = pl_schedule p ! (unat pos mod length (pl_schedule p))"

text \<open>\<open>fetch_add(1)\<close> returns the old value and wraps.\<close>

definition pool_next :: "'e pool \<Rightarrow> cursors \<Rightarrow> 'e \<times> cursors" where
  "pool_next p cs =
     (let pos = unwrap_or 0 (cs (pl_cursor p))
      in (pl_entries p ! pool_index p pos, cs(pl_cursor p \<mapsto> pos + 1)))"

text \<open>Successive calls of \<open>next\<close>.\<close>

fun pool_draws :: "nat \<Rightarrow> 'e pool \<Rightarrow> cursors \<Rightarrow> 'e list" where
  "pool_draws 0 p cs = []"
| "pool_draws (Suc n) p cs = (let (e, cs') = pool_next p cs in e # pool_draws n p cs')"

section \<open>Key lists\<close>

text \<open>\<open>part.rfind(':')\<close> with the two parts around it.\<close>

definition rsplit_once :: "char \<Rightarrow> string \<Rightarrow> (string \<times> string) option" where
  "rsplit_once c s = map_option (\<lambda>(a, b). (rev b, rev a)) (split_once c (rev s))"

definition parse_key_part :: "string \<Rightarrow> api_key_entry" where
  "parse_key_part part =
     (let plain = \<lparr>ak_key = part, ak_weight = 1, ak_label = None\<rparr>
      in case rsplit_once CHR '':'' part of
           None \<Rightarrow> plain
         | Some (key, maybe_weight) \<Rightarrow>
             (case parse_u32 maybe_weight of
                Some w \<Rightarrow> if 0 < w then \<lparr>ak_key = key, ak_weight = w, ak_label = None\<rparr> else plain
              | None \<Rightarrow> plain))"

definition parse_api_keys :: "string \<Rightarrow> api_key_entry list" where
  "parse_api_keys raw =
     (if trim raw = [] then []
      else map parse_key_part (filter (\<lambda>p. p \<noteq> []) (map trim (split_on CHR '','' raw))))"

section \<open>Credentials and authentication schemes\<close>

record provider_credentials =
  pr_api_key :: "string option"
  pr_api_keys :: "api_key_entry list"
  pr_credential_sets :: "credential_entry list"
  pr_key_id :: "string option"
  pr_key_secret :: "string option"
  pr_region :: "string option"
  pr_extra :: "(string \<times> string) list"

datatype auth_spec =
  Header string string
| QueryParam string
| AwsSigV4 string string
| KlingJwt
| TencentTc3 string string

definition auth_bearer :: auth_spec where
  "auth_bearer = Header ''Authorization'' ''Bearer ''"

fun scheme_name :: "auth_spec \<Rightarrow> string" where
  "scheme_name (Header _ _) = ''header''"
| "scheme_name (QueryParam _) = ''query_param''"
| "scheme_name (AwsSigV4 _ _) = ''aws_sigv4''"
| "scheme_name KlingJwt = ''kling_jwt''"
| "scheme_name (TencentTc3 _ _) = ''tencent_tc3''"

fun required_fields :: "auth_spec \<Rightarrow> string list" where
  "required_fields (Header _ _) = [''api_key'']"
| "required_fields (QueryParam _) = [''api_key'']"
| "required_fields (AwsSigV4 _ _) = [''key_id'', ''key_secret'', ''region'']"
| "required_fields KlingJwt = [''key_id'', ''key_secret'']"
| "required_fields (TencentTc3 _ _) = [''key_id'', ''key_secret'', ''region'']"

definition nonempty :: "string option \<Rightarrow> bool" where
  "nonempty v = (case v of Some s \<Rightarrow> s \<noteq> [] | None \<Rightarrow> False)"

definition field_satisfied :: "provider_credentials \<Rightarrow> string \<Rightarrow> bool" where
  "field_satisfied c f =
     (if f = ''api_key'' then nonempty (pr_api_key c) \<or> pr_api_keys c \<noteq> []
      else if f = ''key_id'' then nonempty (pr_key_id c) \<or> pr_credential_sets c \<noteq> []
      else if f = ''key_secret'' then nonempty (pr_key_secret c) \<or> pr_credential_sets c \<noteq> []
      else if f = ''region'' then nonempty (pr_region c) \<or> pr_credential_sets c \<noteq> []
      else False)"

definition is_satisfied_by :: "auth_spec \<Rightarrow> provider_credentials \<Rightarrow> bool" where
  "is_satisfied_by spec c = list_all (field_satisfied c) (required_fields spec)"

definition any_present :: "provider_credentials \<Rightarrow> bool" where
  "any_present c =
     (nonempty (pr_api_key c) \<or> pr_api_keys c \<noteq> [] \<or> pr_credential_sets c \<noteq> []
      \<or> nonempty (pr_key_id c))"

definition with_signing :: "credential_entry \<Rightarrow> provider_credentials \<Rightarrow> provider_credentials" where
  "with_signing e c =
     (let c' = c\<lparr>pr_key_id := Some (cr_key_id e), pr_key_secret := Some (cr_key_secret e)\<rparr>
      in if cr_region e \<noteq> None then c'\<lparr>pr_region := cr_region e\<rparr> else c')"

definition require_api_key :: "provider_credentials \<Rightarrow> provider_error + string" where
  "require_api_key c =
     (case opt_filter (\<lambda>k. k \<noteq> []) (pr_api_key c) of
        Some k \<Rightarrow> Inr k | None \<Rightarrow> Inl (NotConfigured ''missing api_key''))"

definition to_ascii_lowercase :: "string \<Rightarrow> string" where
  "to_ascii_lowercase s =
     map (\<lambda>c. if 65 \<le> byte c \<and> byte c \<le> 90 then char_of (byte c + 32) else c) s"

definition region_byte :: "char \<Rightarrow> bool" where
  "region_byte c = ((97 \<le> byte c \<and> byte c \<le> 122) \<or> is_digit c \<or> c = CHR ''-'')"

definition normalize_aws_region :: "string option \<Rightarrow> string \<Rightarrow> string" where
  "normalize_aws_region region dflt =
     (case opt_filter (\<lambda>s. s \<noteq> []) (map_option (\<lambda>s. to_ascii_lowercase (trim s)) region) of
        None \<Rightarrow> dflt
      | Some s \<Rightarrow> if list_all region_byte s then s else dflt)"

text \<open>
  \<open>from_json\<close>; the decoders of the two entry arrays (derived by \<open>serde\<close>) are arguments that
  return \<open>None\<close> on a decoding error.
\<close>

definition credentials_from_json ::
  "(json \<Rightarrow> api_key_entry list option) \<Rightarrow> (json \<Rightarrow> credential_entry list option)
   \<Rightarrow> json \<Rightarrow> provider_credentials" where
  "credentials_from_json decode_keys decode_sets v =
     (let s = (\<lambda>k. Option.bind (json_get k v) json_string);
          keys = (case json_get ''api_keys'' v of
              Some (JArr xs) \<Rightarrow> unwrap_or [] (decode_keys (JArr xs))
            | Some (JStr raw) \<Rightarrow> parse_api_keys raw
            | _ \<Rightarrow> []);
          sets = (case json_get ''credential_sets'' v of
              Some (JArr xs) \<Rightarrow> unwrap_or [] (decode_sets (JArr xs))
            | _ \<Rightarrow> [])
      in \<lparr>pr_api_key = s ''api_key'',
          pr_api_keys = filter (\<lambda>e. ak_key e \<noteq> []) keys,
          pr_credential_sets = filter (\<lambda>e. cr_key_id e \<noteq> [] \<and> cr_key_secret e \<noteq> []) sets,
          pr_key_id = s ''key_id'', pr_key_secret = s ''key_secret'', pr_region = s ''region'',
          pr_extra = List.map_filter
            (\<lambda>(k, val).
              if k \<in> {''api_key'', ''key_id'', ''key_secret'', ''region'', ''api_keys'', ''credential_sets''}
              then None else map_option (\<lambda>sv. (k, sv)) (json_string val))
            (unwrap_or [] (json_object v))\<rparr>)"

record instance_config =
  pi_api_key :: string
  pi_api_keys :: "api_key_entry list"
  pi_api_base :: "string option"
  pi_model_mapping :: "(string \<times> string) list"
  pi_extra_headers :: "(string \<times> string) list"
  pi_options :: "json option"
  pi_credentials :: provider_credentials

definition with_credentials :: "provider_credentials \<Rightarrow> instance_config \<Rightarrow> instance_config" where
  "with_credentials creds c =
     c\<lparr>pi_api_key := unwrap_or [] (pr_api_key creds), pi_api_keys := pr_api_keys creds,
       pi_credentials := creds\<rparr>"

section \<open>Round robin\<close>

text \<open>
  What drawing in turn from a pool gives, from the laws of a single draw: as long as the
  position does not wrap, one period of draws is one round over the items.
\<close>

locale round_robin =
  fixes ok :: "'p \<Rightarrow> bool"
    and nxt :: "'p \<Rightarrow> 's \<Rightarrow> 'e \<times> 's"
    and pos :: "'p \<Rightarrow> 's \<Rightarrow> nat"
    and items :: "'p \<Rightarrow> 'e list"
    and limit :: nat
  assumes next_item: "ok p \<Longrightarrow> fst (nxt p s) = items p ! (pos p s mod length (items p))"
    and next_pos: "pos p s + 1 < limit \<Longrightarrow> pos p (snd (nxt p s)) = pos p s + 1"
    and items_nonempty: "ok p \<Longrightarrow> items p \<noteq> []"
begin

fun draws :: "nat \<Rightarrow> 'p \<Rightarrow> 's \<Rightarrow> 'e list" where
  "draws 0 p s = []"
| "draws (Suc n) p s = (let (e, s') = nxt p s in e # draws n p s')"

lemma draws_nth:
  "ok p \<Longrightarrow> pos p s + n \<le> limit \<Longrightarrow>
   draws n p s = map (\<lambda>k. items p ! ((pos p s + k) mod length (items p))) [0..<n]"
proof (induction n arbitrary: s)
  case (Suc n)
  obtain e s' where e: "nxt p s = (e, s')" by (cases "nxt p s")
  have hd: "e = items p ! (pos p s mod length (items p))" using next_item [OF Suc.prems(1), of s] e by simp
  have tl: "draws n p s' = map (\<lambda>k. items p ! ((Suc (pos p s) + k) mod length (items p))) [0..<n]"
  proof (cases n)
    case (Suc m)
    then have "pos p s' = Suc (pos p s)" using next_pos [of p s] Suc.prems(2) e by simp
    with Suc.IH [of s'] Suc.prems show ?thesis by simp
  qed simp
  show ?case by (simp add: e hd tl upt_conv_Cons map_Suc_upt [symmetric] comp_def del: upt_Suc)
qed simp

lemma round_is_permutation:
  assumes "ok p" and "pos p s + length (items p) \<le> limit"
  shows "mset (draws (length (items p)) p s) = mset (items p)"
proof -
  have "draws (length (items p)) p s = rotate (pos p s) (items p)"
    using assms by (intro nth_equalityI) (simp_all add: draws_nth nth_rotate)
  then have "mset (draws (length (items p)) p s) =
      mset (take (pos p s mod length (items p)) (items p) @ drop (pos p s mod length (items p)) (items p))"
    by (simp only: rotate_drop_take mset_append union_commute)
  then show ?thesis by simp
qed

end

definition pool_ok :: "('e \<Rightarrow> u32) \<Rightarrow> 'e pool \<Rightarrow> bool" where
  "pool_ok weight p =
     (pl_entries p \<noteq> [] \<and> pl_schedule p = build_weighted_schedule (map weight (pl_entries p)))"

text \<open>The items of a round: every entry as often as its weight says, at least once.\<close>

definition weighted_items :: "('e \<Rightarrow> u32) \<Rightarrow> 'e list \<Rightarrow> 'e list" where
  "weighted_items weight es = concat (map (\<lambda>e. replicate (max (unat (weight e)) 1) e) es)"

definition pool_pos :: "'e pool \<Rightarrow> cursors \<Rightarrow> nat" where
  "pool_pos p cs = unat (unwrap_or 0 (cs (pl_cursor p)))"

lemma unat_max_one: "unat (max w 1) = max (unat w) 1" for w :: u32
  by (cases "w = 0") (auto simp: max_def word_le_nat_alt unat_gt_0 Suc_le_eq)

lemma schedule_items:
  "i + length ws = length es \<Longrightarrow> ws = map weight (drop i es) \<Longrightarrow>
   map (\<lambda>k. es ! k) (schedule_from i ws) = weighted_items weight (drop i es)"
proof (induction i ws rule: schedule_from.induct)
  case (2 i w ws)
  then have "i < length es" by (metis add.right_neutral add_Suc_right le_add1 length_Cons less_iff_Suc_add)
  then have "drop i es = es ! i # drop (Suc i) es" by (simp add: Cons_nth_drop_Suc)
  with 2 show ?case by (simp add: weighted_items_def unat_max_one)
qed (simp add: weighted_items_def)

lemma pool_items:
  "pool_ok weight p \<Longrightarrow>
   map (\<lambda>k. pl_entries p ! k) (pl_schedule p) = weighted_items weight (pl_entries p)"
proof -
  assume "pool_ok weight p"
  then have p: "pl_schedule p = schedule_from 0 (map weight (pl_entries p))"
    by (simp only: pool_ok_def build_weighted_schedule_def)
  have "map (\<lambda>k. pl_entries p ! k) (schedule_from 0 (map weight (pl_entries p))) =
      weighted_items weight (drop 0 (pl_entries p))"
    by (rule schedule_items) simp_all
  then show ?thesis by (simp only: p drop_0)
qed

lemma weighted_items_nonempty: "es \<noteq> [] \<Longrightarrow> weighted_items weight es \<noteq> []"
  by (cases es) (simp_all add: weighted_items_def)

interpretation rr: round_robin
    "pool_ok weight" pool_next pool_pos "\<lambda>p. weighted_items weight (pl_entries p)" "2 ^ 64" for weight
proof
  fix p :: "'a pool" and s
  show "fst (pool_next p s) = weighted_items weight (pl_entries p)
      ! (pool_pos p s mod length (weighted_items weight (pl_entries p)))"
    if "pool_ok weight p"
  proof -
    let ?n = "length (pl_schedule p)"
    have items: "weighted_items weight (pl_entries p) = map (\<lambda>k. pl_entries p ! k) (pl_schedule p)"
      using pool_items [OF that] by simp
    have "pl_schedule p \<noteq> []"
      using items weighted_items_nonempty [of "pl_entries p" weight] that
      by (metis list.map_disc_iff pool_ok_def)
    then show ?thesis
      by (simp add: items pool_next_def pool_index_def pool_pos_def Let_def)
  qed
  show "pool_pos p (snd (pool_next p s)) = pool_pos p s + 1" if "pool_pos p s + 1 < 2 ^ 64"
  proof -
    have "unat (unwrap_or 0 (s (pl_cursor p)) + 1) = unat (unwrap_or 0 (s (pl_cursor p))) + 1"
      using that by (simp add: pool_pos_def unat_word_ariths)
    then show ?thesis by (simp add: pool_pos_def pool_next_def Let_def)
  qed
  show "weighted_items weight (pl_entries p) \<noteq> []" if "pool_ok weight p"
    using that by (simp add: pool_ok_def weighted_items_nonempty)
qed

lemma pool_draws_rr: "pool_draws n p cs = rr.draws n p cs"
  by (induction n arbitrary: cs) simp_all

lemma pool_build_ok: "pool_build weight es c = Some p \<Longrightarrow> pool_ok weight p \<and> pl_entries p = es"
  by (auto simp: pool_build_def pool_ok_def split: if_splits)

text \<open>
  A pool is fair: whatever its cursor is when a round starts (and as long as the 64-bit cursor
  does not wrap within it), a round of as many calls of \<open>next\<close> as the schedule is long returns
  every entry exactly \<open>max(weight, 1)\<close> times.
\<close>

theorem pool_round_is_fair:
  assumes "pool_build weight es c = Some p"
    and "pool_pos p cs + length (weighted_items weight es) \<le> 2 ^ 64"
  shows "mset (pool_draws (length (pl_schedule p)) p cs) = mset (weighted_items weight es)"
proof -
  have ok: "pool_ok weight p" and e: "pl_entries p = es" using pool_build_ok [OF assms(1)] by auto
  have "length (pl_schedule p) = length (weighted_items weight es)"
    using arg_cong [OF pool_items [OF ok], of length] e by simp
  with rr.round_is_permutation [OF ok, of cs] assms(2) e show ?thesis
    by (simp add: pool_draws_rr)
qed

theorem pool_round_is_fair_witness:
  "mset (pool_draws 3 \<lparr>pl_entries = [''a'', ''b''], pl_schedule = [0, 0, 1], pl_cursor = Private 0\<rparr>
     [Private 0 \<mapsto> 7]) = {#''a'', ''a'', ''b''#}"
proof -
  let ?w = "\<lambda>e. if e = ''a'' then 2 else 0 :: u32"
  let ?p = "\<lparr>pl_entries = [''a'', ''b''], pl_schedule = [0, 0, 1], pl_cursor = Private 0\<rparr>"
  have b: "pool_build ?w [''a'', ''b''] (Private 0) = Some ?p" by code_simp
  have w: "weighted_items ?w [''a'', ''b''] = [''a'', ''a'', ''b'']" by code_simp
  have "pool_pos ?p [Private 0 \<mapsto> 7] = 7" by (simp add: pool_pos_def)
  with pool_round_is_fair [OF b, of "[Private 0 \<mapsto> 7]"] show ?thesis
    by (simp add: w numeral_3_eq_3 del: pool_draws.simps)
qed

section \<open>Key lists round trip\<close>

definition render_key :: "api_key_entry \<Rightarrow> string" where
  "render_key e = ak_key e @ '':'' @ nat_to_string (unat (ak_weight e))"

definition plain_entry :: "api_key_entry \<Rightarrow> bool" where
  "plain_entry e =
     (list_all (\<lambda>c. visible c \<and> c \<noteq> CHR '','') (ak_key e) \<and> 0 < ak_weight e \<and> ak_label e = None)"

lemma is_digit_visible: "is_digit c \<Longrightarrow> visible c \<and> c \<noteq> CHR '','' \<and> c \<noteq> CHR '':''"
  by (auto simp: is_digit_def visible_def)

lemma digits_visible:
  "list_all (\<lambda>c. visible c \<and> c \<noteq> CHR '','' \<and> c \<noteq> CHR '':'') (nat_to_string n)"
  using nat_to_string_digits [of n] is_digit_visible by (auto simp: list_all_iff)

lemma render_key_visible:
  "plain_entry e \<Longrightarrow> list_all visible (render_key e) \<and> CHR '','' \<notin> set (render_key e)"
  using digits_visible [of "unat (ak_weight e)"]
  by (auto simp: plain_entry_def render_key_def list_all_iff visible_def)

lemma rsplit_once_last: "c \<notin> set b \<Longrightarrow> rsplit_once c (a @ c # b) = Some (a, b)"
proof -
  assume "c \<notin> set b"
  then have "split_once c (rev b @ c # rev a) = Some (rev b, rev a)" by (simp add: split_once_Some)
  then show ?thesis by (simp add: rsplit_once_def)
qed

lemma parse_render_key: "plain_entry e \<Longrightarrow> parse_key_part (render_key e) = e"
proof -
  assume e: "plain_entry e"
  have "CHR '':'' \<notin> set (nat_to_string (unat (ak_weight e)))"
    using digits_visible [of "unat (ak_weight e)"] by (auto simp: list_all_iff)
  then have "rsplit_once CHR '':'' (render_key e) = Some (ak_key e, nat_to_string (unat (ak_weight e)))"
    by (simp add: render_key_def rsplit_once_last)
  moreover have "unat (ak_weight e) \<le> 2 ^ 32 - 1" using unat_u32_less [of "ak_weight e"] by simp
  then have "parse_u32 (nat_to_string (unat (ak_weight e))) = Some (ak_weight e)"
    unfolding parse_u32_def by (simp only: parse_to_string option.map of_nat_unat_u32)
  ultimately show ?thesis using e by (simp add: parse_key_part_def plain_entry_def)
qed

lemma render_key_nonempty: "render_key e \<noteq> []"
  by (simp add: render_key_def)

lemma join_visible:
  "\<forall>p\<in>set ps. list_all visible p \<Longrightarrow> list_all visible (join_with '','' ps)"
  by (induction "'',''" ps rule: join_with.induct) (auto simp: visible_def)

lemma join_nonempty: "p # ps \<noteq> [] \<Longrightarrow> p \<noteq> [] \<Longrightarrow> join_with s (p # ps) \<noteq> []"
  by (cases ps) auto

text \<open>
  The key list syntax round trips: entries with a positive weight, no label and keys of visible
  characters without a comma (a key may contain colons), written as \<open>key:weight\<close> and joined by
  commas, are read back by \<open>parse_api_keys\<close> as they were.
\<close>

theorem parse_api_keys_roundtrip:
  assumes "list_all plain_entry es"
  shows "parse_api_keys (join_with '','' (map render_key es)) = es"
proof (cases es)
  case Nil
  then show ?thesis by (simp add: parse_api_keys_def trim_visible)
next
  case (Cons e rest)
  let ?ps = "map render_key es"
  have v: "\<forall>p\<in>set ?ps. list_all visible p" "\<forall>p\<in>set ?ps. CHR '','' \<notin> set p"
    using assms render_key_visible by (auto simp: list_all_iff)
  have ne: "join_with '','' ?ps \<noteq> []"
    using Cons by (simp add: join_nonempty render_key_nonempty)
  have "split_on CHR '','' (join_with '','' ?ps) = ?ps"
    using Cons v(2) by (intro split_join) auto
  moreover have "map trim ?ps = ?ps" using v(1) by (auto intro!: map_idI simp: trim_visible)
  moreover have "filter (\<lambda>p. p \<noteq> []) ?ps = ?ps" by (simp add: render_key_nonempty filter_id_conv)
  moreover have "map parse_key_part ?ps = es"
    using assms by (auto simp: list_all_iff parse_render_key intro!: map_idI)
  ultimately show ?thesis
    using ne trim_visible [OF join_visible [OF v(1)]] by (simp only: parse_api_keys_def if_False)
qed

theorem parse_api_keys_roundtrip_witness:
  "parse_api_keys ''sk:a:3,b:1'' =
     [\<lparr>ak_key = ''sk:a'', ak_weight = 3, ak_label = None\<rparr>,
      \<lparr>ak_key = ''b'', ak_weight = 1, ak_label = None\<rparr>]"
proof -
  have "nat_to_string 3 = ''3''" "nat_to_string 1 = ''1''"
    by code_simp+
  with parse_api_keys_roundtrip
    [of "[\<lparr>ak_key = ''sk:a'', ak_weight = 3, ak_label = None\<rparr>,
      \<lparr>ak_key = ''b'', ak_weight = 1, ak_label = None\<rparr>]"]
  show ?thesis by (simp add: plain_entry_def visible_def render_key_def)
qed

section \<open>Credentials\<close>

text \<open>
  The region that becomes part of an upstream host name is either the operator's default or a
  non-empty string of lower case letters, digits and hyphens, whatever a tenant stored; and such
  a region is used as it is.
\<close>

theorem aws_region_cannot_inject_host:
  "normalize_aws_region region dflt = dflt
   \<or> (normalize_aws_region region dflt \<noteq> []
      \<and> list_all region_byte (normalize_aws_region region dflt))"
  by (auto simp: normalize_aws_region_def opt_filter_Some split: option.splits)

lemma region_byte_visible: "region_byte c \<Longrightarrow> visible c"
  by (auto simp: region_byte_def visible_def is_digit_def)

lemma lowercase_region: "list_all region_byte s \<Longrightarrow> to_ascii_lowercase s = s"
  unfolding to_ascii_lowercase_def
  by (auto simp: list_all_iff region_byte_def is_digit_def intro!: map_idI)

lemma good_region_kept: "s \<noteq> [] \<Longrightarrow> list_all region_byte s \<Longrightarrow> normalize_aws_region (Some s) d = s"
proof -
  assume s: "s \<noteq> []" "list_all region_byte s"
  then have "trim s = s" by (intro trim_visible) (auto simp: list_all_iff region_byte_visible)
  with s show ?thesis by (simp add: normalize_aws_region_def lowercase_region)
qed

section \<open>Costs are monotone\<close>

lemma f64_mul_mono: "0 \<le> a \<Longrightarrow> a \<le> b \<Longrightarrow> 0 \<le> c \<Longrightarrow> c \<le> d \<Longrightarrow> f64_mul a c \<le> f64_mul b d"
  unfolding f64_mul_def by (intro f64.rnd_mono mult_mono) auto

lemma f64_div_mono: "a \<le> b \<Longrightarrow> 0 \<le> c \<Longrightarrow> f64_div a c \<le> f64_div b c"
  unfolding f64_div_def by (intro f64.rnd_mono divide_right_mono) auto

lemma f64_add_mono: "a \<le> b \<Longrightarrow> c \<le> d \<Longrightarrow> f64_add a c \<le> f64_add b d"
  unfolding f64_add_def by (intro f64.rnd_mono add_mono)

lemma usd_to_tokens_mono: "x \<le> y \<Longrightarrow> 0 < r \<Longrightarrow> unat (usd_to_tokens x r) \<le> unat (usd_to_tokens y r)"
proof -
  assume le: "x \<le> y" and r: "0 < r"
  let ?t = "\<lambda>x. f64_to_unsigned 64 (of_int \<lceil>f64_div x r\<rceil>)"
  have "\<lceil>f64_div x r\<rceil> \<le> \<lceil>f64_div y r\<rceil>"
    using f64_div_mono [OF le] r by (intro ceiling_mono) simp
  then have t: "?t x \<le> ?t y" by (intro f64_to_unsigned_mono) simp
  have u: "unat (usd_to_tokens z r) = nat (?t z)" for z
  proof -
    have "0 \<le> ?t z" by (rule f64_to_unsigned_bounds)
    moreover have "?t z \<le> 2 ^ 64 - 1" by (rule f64_to_unsigned_bounds)
    ultimately show ?thesis by (simp add: usd_to_tokens_def unat_eq_nat_uint uint_word_of_int)
  qed
  show ?thesis unfolding u using t by simp
qed

text \<open>
  Markup: with a non-negative base cost (a double) and a non-negative percentage the total is at
  least the base cost, and a higher base cost or percentage never lowers the total or the tokens
  charged; a markup of 0 charges the base cost.
\<close>

theorem markup_monotone:
  assumes "0 \<le> b" and "b \<le> b'" and "0 \<le> m" and "m \<le> m'" and "round_f64 b = b"
  shows "b \<le> ce_total_cost_usd (build_cost_estimate b m src br)
    \<and> ce_total_cost_usd (build_cost_estimate b m src br)
      \<le> ce_total_cost_usd (build_cost_estimate b' m' src' br')
    \<and> unat (ce_tokens_required (build_cost_estimate b m src br))
      \<le> unat (ce_tokens_required (build_cost_estimate b' m' src' br'))
    \<and> ce_total_cost_usd (build_cost_estimate b 0 src br) = b"
proof -
  let ?mk = "\<lambda>b m. f64_mul b (f64_div m 100)"
  have nn: "0 \<le> f64_div m 100" using f64_div_mono [of 0 m 100] assms(3) by (simp add: f64_div_def)
  then have "0 \<le> ?mk b m" using f64_mul_mono [of 0 b 0 "f64_div m 100"] assms(1) by (simp add: f64_mul_def)
  then have ge: "b \<le> f64_add b (?mk b m)"
    unfolding f64_add_def using assms(5) by (intro f64.rnd_ge_fixed) auto
  have "?mk b m \<le> ?mk b' m'" using assms nn f64_div_mono [OF assms(4)] by (intro f64_mul_mono) auto
  then have le: "f64_add b (?mk b m) \<le> f64_add b' (?mk b' m')" using assms(2) by (intro f64_add_mono)
  have thousandth: "0 < round_f64 (1 / 1000)" by code_simp
  have zero: "f64_add b (?mk b 0) = b" using assms(5) by (simp add: f64_add_def f64_mul_def f64_div_def)
  show ?thesis
    using ge le zero usd_to_tokens_mono [OF le thousandth]
    by (simp add: build_cost_estimate_def apply_markup_def Let_def)
qed

theorem markup_monotone_witness:
  "unat (ce_tokens_required (build_cost_estimate (1 / 8) 10 Estimated None))
     \<le> unat (ce_tokens_required (build_cost_estimate (1 / 4) 20 Estimated None))"
proof -
  have "round_f64 (1 / 8) = 1 / 8" by code_simp
  from markup_monotone [OF _ _ _ _ this, of "1 / 4" 10 20 Estimated None Estimated None]
  show ?thesis by simp
qed

end
