(* ===== verification/Registry.thy ===== *)
theory Registry
  imports Providers
begin

text \<open>
  The registry of provider instances (\<open>proxy/registry.rs\<close>).

  An instance is the adapter's name with the configuration it was built from; what an adapter
  does with a call is a parameter where the router calls it. The three hash maps of the registry
  are only looked up by name, so they are maps. Per-request instances for a tenant's own
  credentials are built from the registered configuration with the credentials replaced.
\<close>

section \<open>Adapters\<close>

record provider_instance =
  pv_adapter :: string
  pv_config :: instance_config

text \<open>The match arms of the two factories.\<close>

definition build_image_provider :: "string \<Rightarrow> instance_config \<Rightarrow> provider_instance option" where
  "build_image_provider name config =
     (if name \<in> {''openai'', ''stability'', ''replicate'', ''google'', ''fal'', ''runway'', ''luma'',
        ''bfl'', ''ideogram'', ''recraft'', ''minimax'', ''hunyuan'', ''bedrock'', ''kling'',
        ''leonardo'', ''bytedance'', ''mock''}
      then Some \<lparr>pv_adapter = name, pv_config = config\<rparr> else None)"

definition build_video_provider :: "string \<Rightarrow> instance_config \<Rightarrow> provider_instance option" where
  "build_video_provider name config =
     (if name \<in> {''openai'', ''replicate'', ''google'', ''fal'', ''runway'', ''luma'', ''minimax'',
        ''vidu'', ''hunyuan'', ''bedrock'', ''kling'', ''leonardo'', ''pixverse'', ''bytedance'',
        ''mock''}
      then Some \<lparr>pv_adapter = name, pv_config = config\<rparr> else None)"

definition IMAGE_PROVIDERS :: "string list" where
  "IMAGE_PROVIDERS =
     [''openai'', ''stability'', ''replicate'', ''google'', ''fal'', ''runway'', ''luma'', ''bfl'',
      ''ideogram'', ''recraft'', ''minimax'', ''hunyuan'', ''bedrock'', ''kling'', ''leonardo'',
      ''bytedance'', ''mock'']"

definition VIDEO_PROVIDERS :: "string list" where
  "VIDEO_PROVIDERS =
     [''openai'', ''replicate'', ''google'', ''fal'', ''runway'', ''luma'', ''minimax'', ''vidu'',
      ''hunyuan'', ''bedrock'', ''kling'', ''leonardo'', ''pixverse'', ''bytedance'', ''mock'']"

section \<open>The catalog for the dashboard\<close>

definition field_spec :: "string \<Rightarrow> string \<Rightarrow> bool \<Rightarrow> bool \<Rightarrow> credential_field_spec" where
  "field_spec key label secret optional =
     \<lparr>cf_key = key, cf_label = label, cf_secret = secret, cf_optional = optional\<rparr>"

definition catalog_entry :: "string \<Rightarrow> provider_catalog_entry" where
  "catalog_entry name =
     (let modalities = (if name \<in> set IMAGE_PROVIDERS then [''image''] else [])
            @ (if name \<in> set VIDEO_PROVIDERS then [''video''] else []);
          (scheme, pool, fields) =
            (if name = ''bedrock'' then
               (''aws_sigv4'', ''credential_sets'',
                [field_spec ''key_id'' ''Access key ID'' False False,
                 field_spec ''key_secret'' ''Secret access key'' True False,
                 field_spec ''region'' ''Region'' False True])
             else if name = ''hunyuan'' then
               (''tencent_tc3'', ''credential_sets'',
                [field_spec ''key_id'' ''Secret ID'' False False,
                 field_spec ''key_secret'' ''Secret key'' True False,
                 field_spec ''region'' ''Region'' False True])
             else if name = ''kling'' then
               (''kling_jwt'', ''credential_sets'',
                [field_spec ''key_id'' ''Access key'' False False,
                 field_spec ''key_secret'' ''Secret key'' True False])
             else (''api_key'', ''api_keys'', [field_spec ''key'' ''API key'' True False]))
      in \<lparr>pc_name = name, pc_modalities = modalities, pc_auth_scheme = scheme,
          pc_pool_field = pool, pc_fields = fields\<rparr>)"

definition provider_catalog :: "provider_catalog_entry list" where
  "provider_catalog =
     map catalog_entry (sort (fold (\<lambda>n names. if n \<in> set names then names else names @ [n])
       (IMAGE_PROVIDERS @ VIDEO_PROVIDERS) []))"

section \<open>Configuration\<close>

record provider_env_config =
  pe_api_key :: "string option"
  pe_api_keys :: "string option"
  pe_api_base :: "string option"
  pe_model_mapping :: "(string \<times> string) list"
  pe_extra_headers :: "(string \<times> string) list"
  pe_options :: "json option"
  pe_key_id :: "string option"
  pe_key_secret :: "string option"
  pe_region :: "string option"
  pe_credentials_extra :: "(string \<times> string) list"
  pe_enabled :: bool

definition build_instance_config :: "provider_env_config \<Rightarrow> instance_config" where
  "build_instance_config c =
     (let api_key = unwrap_or [] (pe_api_key c);
          api_keys = (case pe_api_keys c of
              Some raw \<Rightarrow> parse_api_keys raw
            | None \<Rightarrow> if api_key = [] then []
                      else [\<lparr>ak_key = api_key, ak_weight = 1, ak_label = None\<rparr>]);
          keep = opt_filter (\<lambda>s. s \<noteq> [])
      in \<lparr>pi_api_key = api_key, pi_api_keys = api_keys, pi_api_base = pe_api_base c,
          pi_model_mapping = pe_model_mapping c, pi_extra_headers = pe_extra_headers c,
          pi_options = pe_options c,
          pi_credentials =
            \<lparr>pr_api_key = (if api_key = [] then None else Some api_key), pr_api_keys = api_keys,
             pr_credential_sets = [], pr_key_id = keep (pe_key_id c),
             pr_key_secret = keep (pe_key_secret c), pr_region = keep (pe_region c),
             pr_extra = pe_credentials_extra c\<rparr>\<rparr>)"

definition default_instance_config :: instance_config where
  "default_instance_config =
     \<lparr>pi_api_key = [], pi_api_keys = [], pi_api_base = None, pi_model_mapping = [],
      pi_extra_headers = [], pi_options = None,
      pi_credentials = \<lparr>pr_api_key = None, pr_api_keys = [], pr_credential_sets = [],
        pr_key_id = None, pr_key_secret = None, pr_region = None, pr_extra = []\<rparr>\<rparr>"

section \<open>The registry\<close>

record provider_registry =
  pg_image :: "string \<rightharpoonup> provider_instance"
  pg_video :: "string \<rightharpoonup> provider_instance"
  pg_configs :: "string \<rightharpoonup> instance_config"

definition registry_new :: provider_registry where
  "registry_new = \<lparr>pg_image = Map.empty, pg_video = Map.empty, pg_configs = Map.empty\<rparr>"

definition map_put :: "'k \<Rightarrow> 'v option \<Rightarrow> ('k \<rightharpoonup> 'v) \<Rightarrow> ('k \<rightharpoonup> 'v)" where
  "map_put k v m = (case v of Some x \<Rightarrow> m(k \<mapsto> x) | None \<Rightarrow> m)"

definition register_provider :: "string \<Rightarrow> instance_config \<Rightarrow> provider_registry \<Rightarrow> provider_registry" where
  "register_provider name config r =
     (let image = build_image_provider name config;
          video = build_video_provider name config
      in if image = None \<and> video = None then r
         else \<lparr>pg_image = map_put name image (pg_image r),
               pg_video = map_put name video (pg_video r),
               pg_configs = (pg_configs r)(name \<mapsto> config)\<rparr>)"

definition configure_provider ::
  "string \<Rightarrow> instance_config \<Rightarrow> provider_registry \<Rightarrow> bool \<times> provider_registry" where
  "configure_provider name config r =
     (if build_image_provider name config = None \<and> build_video_provider name config = None
      then (False, r) else (True, register_provider name config r))"

definition unregister_provider :: "string \<Rightarrow> provider_registry \<Rightarrow> provider_registry" where
  "unregister_provider name r =
     \<lparr>pg_image = (pg_image r)(name := None), pg_video = (pg_video r)(name := None),
      pg_configs = (pg_configs r)(name := None)\<rparr>"

text \<open>The enabled providers with credentials, and the mock provider without any.\<close>

fun init_from_config :: "(string \<times> provider_env_config) list \<Rightarrow> provider_registry \<Rightarrow> provider_registry" where
  "init_from_config [] r = r"
| "init_from_config ((name, pc) # rest) r =
     (if \<not> pe_enabled pc then init_from_config rest r
      else let c = build_instance_config pc
        in if name \<noteq> ''mock'' \<and> \<not> any_present (pi_credentials c) then init_from_config rest r
           else init_from_config rest (register_provider name c r))"

definition image_provider_for :: "string \<Rightarrow> provider_registry \<Rightarrow> provider_instance option" where
  "image_provider_for name r = pg_image r name"

definition video_provider_for :: "string \<Rightarrow> provider_registry \<Rightarrow> provider_instance option" where
  "video_provider_for name r = pg_video r name"

definition registered_config :: "string \<Rightarrow> provider_registry \<Rightarrow> instance_config option" where
  "registered_config name r = pg_configs r name"

definition image_provider_for_request ::
  "string \<Rightarrow> provider_credentials option \<Rightarrow> provider_registry \<Rightarrow> provider_instance option" where
  "image_provider_for_request name app_creds r =
     (case app_creds of
        None \<Rightarrow> image_provider_for name r
      | Some creds \<Rightarrow> build_image_provider name
          (with_credentials creds (unwrap_or default_instance_config (pg_configs r name))))"

definition video_provider_for_request ::
  "string \<Rightarrow> provider_credentials option \<Rightarrow> provider_registry \<Rightarrow> provider_instance option" where
  "video_provider_for_request name app_creds r =
     (case app_creds of
        None \<Rightarrow> video_provider_for name r
      | Some creds \<Rightarrow> build_video_provider name
          (with_credentials creds (unwrap_or default_instance_config (pg_configs r name))))"

definition find_image_provider_for_model ::
  "string \<Rightarrow> provider_registry \<Rightarrow> (string \<times> provider_instance) option" where
  "find_image_provider_for_model model r =
     (case split_once CHR ''/'' model of
        Some (name, _) \<Rightarrow> map_option (\<lambda>p. (name, p)) (pg_image r name)
      | None \<Rightarrow> None)"

definition find_video_provider_for_model ::
  "string \<Rightarrow> provider_registry \<Rightarrow> (string \<times> provider_instance) option" where
  "find_video_provider_for_model model r =
     (case split_once CHR ''/'' model of
        Some (name, _) \<Rightarrow> map_option (\<lambda>p. (name, p)) (pg_video r name)
      | None \<Rightarrow> None)"

section \<open>What the clients of the registry rely on\<close>

locale service_table =
  fixes put :: "string \<Rightarrow> 'c \<Rightarrow> 's \<Rightarrow> 's"
    and del :: "string \<Rightarrow> 's \<Rightarrow> 's"
    and get :: "string \<Rightarrow> 's \<Rightarrow> 'p option"
    and build :: "string \<Rightarrow> 'c \<Rightarrow> 'p option"
  assumes get_put: "build n c \<noteq> None \<Longrightarrow> get n (put n c s) = build n c"
    and get_put_unbuilt: "build n c = None \<Longrightarrow> get n (put n c s) = get n s"
    and get_put_other: "m \<noteq> n \<Longrightarrow> get m (put n c s) = get m s"
    and get_del: "get n (del n s) = None"
    and get_del_other: "m \<noteq> n \<Longrightarrow> get m (del n s) = get m s"
    and buildable: "build n c = None \<longleftrightarrow> build n c' = None"
begin

text \<open>An operation: a configuration for a name, or its removal.\<close>

fun perform :: "string \<times> 'c option \<Rightarrow> 's \<Rightarrow> 's" where
  "perform (n, Some c) s = put n c s"
| "perform (n, None) s = del n s"

fun latest :: "string \<Rightarrow> (string \<times> 'c option) list \<Rightarrow> 'p option \<Rightarrow> 'p option" where
  "latest n [] p = p"
| "latest n ((m, op) # ops) p =
     latest n ops (if m \<noteq> n then p else case op of None \<Rightarrow> None
       | Some c \<Rightarrow> if build n c = None then p else build n c)"

lemma get_perform:
  "get n (perform (m, op) s) =
     (if m \<noteq> n then get n s else case op of None \<Rightarrow> None
       | Some c \<Rightarrow> if build n c = None then get n s else build n c)"
  by (cases op) (auto simp: get_put get_put_unbuilt get_put_other get_del get_del_other)

lemma get_performs: "get n (fold perform ops s) = latest n ops (get n s)"
  by (induction ops arbitrary: s) (auto simp: get_perform)

text \<open>Only the operations on a name matter for it.\<close>

lemma get_own_operations:
  "get n (fold perform ops s) = get n (fold perform (filter (\<lambda>e. fst e = n) ops) s)"
proof -
  have "latest n ops p = latest n (filter (\<lambda>e. fst e = n) ops) p" for p
    by (induction n ops p rule: latest.induct) auto
  then show ?thesis by (simp add: get_performs)
qed

end

lemma image_buildable: "build_image_provider n c = None \<longleftrightarrow> build_image_provider n c' = None"
  by (simp add: build_image_provider_def)

lemma video_buildable: "build_video_provider n c = None \<longleftrightarrow> build_video_provider n c' = None"
  by (simp add: build_video_provider_def)

interpretation image_table: service_table
    register_provider unregister_provider image_provider_for build_image_provider
  by unfold_locales
    (auto simp: register_provider_def unregister_provider_def image_provider_for_def map_put_def
      Let_def image_buildable split: option.splits)

interpretation video_table: service_table
    register_provider unregister_provider video_provider_for build_video_provider
  by unfold_locales
    (auto simp: register_provider_def unregister_provider_def video_provider_for_def map_put_def
      Let_def video_buildable split: option.splits)

lemma built_image: "build_image_provider n c = Some p \<Longrightarrow> p = \<lparr>pv_adapter = n, pv_config = c\<rparr>"
  unfolding build_image_provider_def by (metis option.distinct(1) option.inject)

lemma built_video: "build_video_provider n c = Some p \<Longrightarrow> p = \<lparr>pv_adapter = n, pv_config = c\<rparr>"
  unfolding build_video_provider_def by (metis option.distinct(1) option.inject)

section \<open>Properties\<close>

text \<open>
  The registry's invariant: an instance is stored under its adapter's name and carries the
  configuration stored for that name, and a stored configuration belongs to every instance its
  adapter builds.
\<close>

definition entry_wf ::
  "string \<Rightarrow> instance_config option \<Rightarrow> provider_instance option \<Rightarrow> provider_instance option \<Rightarrow> bool" where
  "entry_wf n c i v =
     (case c of
        None \<Rightarrow> i = None \<and> v = None
      | Some c \<Rightarrow> i = build_image_provider n c \<and> v = build_video_provider n c
          \<and> \<not> (i = None \<and> v = None))"

definition registry_wf :: "provider_registry \<Rightarrow> bool" where
  "registry_wf r = (\<forall>n. entry_wf n (pg_configs r n) (pg_image r n) (pg_video r n))"

lemma registry_wf_new: "registry_wf registry_new"
  by (simp add: registry_wf_def registry_new_def entry_wf_def)

lemma entry_wf_unbuilt:
  "entry_wf n c i v \<Longrightarrow> build_image_provider n c' = None \<Longrightarrow> i = None"
  "entry_wf n c i v \<Longrightarrow> build_video_provider n c' = None \<Longrightarrow> v = None"
  using image_buildable [of n _ c'] video_buildable [of n _ c']
  by (cases c; simp add: entry_wf_def; blast)+

lemma registry_wf_register:
  assumes wf: "registry_wf r"
  shows "registry_wf (register_provider n c r)"
proof (cases "build_image_provider n c = None \<and> build_video_provider n c = None")
  case True
  with wf show ?thesis by (simp add: register_provider_def)
next
  case False
  have e: "entry_wf n (pg_configs r n) (pg_image r n) (pg_video r n)" using wf by (simp add: registry_wf_def)
  have "map_put n (build_image_provider n c) (pg_image r) n = build_image_provider n c"
    using entry_wf_unbuilt(1) [OF e] by (cases "build_image_provider n c") (auto simp: map_put_def)
  moreover have "map_put n (build_video_provider n c) (pg_video r) n = build_video_provider n c"
    using entry_wf_unbuilt(2) [OF e] by (cases "build_video_provider n c") (auto simp: map_put_def)
  moreover have "map_put n x m k = m k" if "k \<noteq> n" for x k and m :: "string \<rightharpoonup> provider_instance"
    using that by (cases x) (auto simp: map_put_def)
  ultimately have "entry_wf k (((pg_configs r)(n \<mapsto> c)) k)
      (map_put n (build_image_provider n c) (pg_image r) k)
      (map_put n (build_video_provider n c) (pg_video r) k)" for k
    using wf False by (cases "k = n") (auto simp: registry_wf_def entry_wf_def)
  then have "\<forall>k. entry_wf k (((pg_configs r)(n \<mapsto> c)) k)
      (map_put n (build_image_provider n c) (pg_image r) k)
      (map_put n (build_video_provider n c) (pg_video r) k)" by blast
  with False show ?thesis
    unfolding registry_wf_def register_provider_def Let_def
    by (simp only: if_False provider_registry.simps simp_thms)
qed

lemma registry_wf_unregister: "registry_wf r \<Longrightarrow> registry_wf (unregister_provider n r)"
  unfolding registry_wf_def unregister_provider_def by (simp add: entry_wf_def)

lemma registry_wf_init: "registry_wf r \<Longrightarrow> registry_wf (init_from_config cfg r)"
  by (induction cfg r rule: init_from_config.induct) (auto simp: Let_def registry_wf_register)

text \<open>
  After start-up and any sequence of runtime reconfigurations and removals the three maps of the
  registry agree: the image and the video instance of a name carry the same, latest
  configuration, and a name without a configuration has no instance.
\<close>

theorem registry_maps_agree:
  "registry_wf (fold image_table.perform ops (init_from_config cfg registry_new))"
proof -
  have "registry_wf (fold image_table.perform ops r)" if "registry_wf r" for r
    using that
  proof (induction ops arbitrary: r)
    case (Cons op ops)
    then show ?case
      by (cases op; cases "snd op") (auto simp: registry_wf_register registry_wf_unregister)
  qed simp
  then show ?thesis by (simp add: registry_wf_init registry_wf_new)
qed

text \<open>
  A provider instance built for a tenant's own credentials carries those credentials and nothing
  of the platform's: key, key pool and credentials are the tenant's, and only the other settings
  (base address, model mapping, headers, options) are the registered ones.
\<close>

theorem tenant_instance_has_tenant_credentials:
  assumes "image_provider_for_request name (Some creds) r = Some p
    \<or> video_provider_for_request name (Some creds) r = Some p"
  shows "pv_adapter p = name \<and> pi_credentials (pv_config p) = creds
    \<and> pi_api_key (pv_config p) = unwrap_or [] (pr_api_key creds)
    \<and> pi_api_keys (pv_config p) = pr_api_keys creds
    \<and> (let base = unwrap_or default_instance_config (registered_config name r)
       in pi_api_base (pv_config p) = pi_api_base base
        \<and> pi_model_mapping (pv_config p) = pi_model_mapping base
        \<and> pi_extra_headers (pv_config p) = pi_extra_headers base
        \<and> pi_options (pv_config p) = pi_options base)"
proof -
  let ?c = "with_credentials creds (unwrap_or default_instance_config (registered_config name r))"
  have "p = \<lparr>pv_adapter = name, pv_config = ?c\<rparr>"
    using assms built_image [of name ?c p] built_video [of name ?c p]
    by (simp add: image_provider_for_request_def video_provider_for_request_def registered_config_def)
      blast
  then show ?thesis by (simp add: with_credentials_def Let_def)
qed

theorem tenant_instance_has_tenant_credentials_witness:
  "pi_api_key (pv_config (the (image_provider_for_request ''fal''
     (Some \<lparr>pr_api_key = Some ''tenant'', pr_api_keys = [], pr_credential_sets = [],
        pr_key_id = None, pr_key_secret = None, pr_region = None, pr_extra = []\<rparr>)
     (register_provider ''fal'' (default_instance_config\<lparr>pi_api_key := ''platform''\<rparr>) registry_new))))
   = ''tenant''"
proof -
  let ?c = "\<lparr>pr_api_key = Some ''tenant'', pr_api_keys = [], pr_credential_sets = [],
        pr_key_id = None, pr_key_secret = None, pr_region = None, pr_extra = []\<rparr>"
  let ?r = "register_provider ''fal'' (default_instance_config\<lparr>pi_api_key := ''platform''\<rparr>) registry_new"
  obtain p where p: "image_provider_for_request ''fal'' (Some ?c) ?r = Some p"
    by (auto simp: image_provider_for_request_def build_image_provider_def)
  from tenant_instance_has_tenant_credentials [OF disjI1 [OF p]]
  have "pi_api_key (pv_config p) = ''tenant''" by simp
  then show ?thesis by (simp only: p option.sel)
qed

text \<open>
  The catalog the dashboard renders lists every provider that can be built exactly once, ordered
  by name, its modalities say exactly which of the two factories build it, and no provider asks
  for a credential the catalog does not list.
\<close>

theorem catalog_covers_factories:
  "sorted (map pc_name provider_catalog) \<and> distinct (map pc_name provider_catalog)
   \<and> list_all (\<lambda>e.
       (''image'' \<in> set (pc_modalities e) \<longleftrightarrow> build_image_provider (pc_name e) cfg \<noteq> None)
       \<and> (''video'' \<in> set (pc_modalities e) \<longleftrightarrow> build_video_provider (pc_name e) cfg \<noteq> None)) provider_catalog
   \<and> (build_image_provider n cfg = None \<and> build_video_provider n cfg = None
      \<longleftrightarrow> n \<notin> pc_name ` set provider_catalog)"
proof -
  have name: "pc_name (catalog_entry m) = m" for m
    by (simp add: catalog_entry_def Let_def split: prod.splits)
  have names: "map pc_name provider_catalog =
      sort (fold (\<lambda>n names. if n \<in> set names then names else names @ [n])
        (IMAGE_PROVIDERS @ VIDEO_PROVIDERS) [])"
    by (simp add: provider_catalog_def name comp_def)
  have "distinct acc \<Longrightarrow> distinct (fold (\<lambda>n names. if n \<in> set names then names else names @ [n]) xs acc)
      \<and> set (fold (\<lambda>n names. if n \<in> set names then names else names @ [n]) xs acc) = set acc \<union> set xs"
    for acc xs :: "string list"
    by (induction xs arbitrary: acc) auto
  from this [of "[]" "IMAGE_PROVIDERS @ VIDEO_PROVIDERS"]
  have s: "distinct (map pc_name provider_catalog)" "sorted (map pc_name provider_catalog)"
    and set: "set (map pc_name provider_catalog) = set IMAGE_PROVIDERS \<union> set VIDEO_PROVIDERS"
    by (simp_all add: names)
  have b: "build_image_provider m cfg \<noteq> None \<longleftrightarrow> m \<in> set IMAGE_PROVIDERS"
      "build_video_provider m cfg \<noteq> None \<longleftrightarrow> m \<in> set VIDEO_PROVIDERS" for m
    by (simp_all add: build_image_provider_def build_video_provider_def IMAGE_PROVIDERS_def
        VIDEO_PROVIDERS_def)
  have m: "''image'' \<in> set (pc_modalities (catalog_entry m)) \<longleftrightarrow> m \<in> set IMAGE_PROVIDERS"
      "''video'' \<in> set (pc_modalities (catalog_entry m)) \<longleftrightarrow> m \<in> set VIDEO_PROVIDERS" for m
    by (simp_all add: catalog_entry_def Let_def split: prod.splits)
  have entries: "e = catalog_entry (pc_name e)" if "e \<in> set provider_catalog" for e
    using that by (auto simp: provider_catalog_def name)
  have "list_all (\<lambda>e.
       (''image'' \<in> set (pc_modalities e) \<longleftrightarrow> build_image_provider (pc_name e) cfg \<noteq> None)
       \<and> (''video'' \<in> set (pc_modalities e) \<longleftrightarrow> build_video_provider (pc_name e) cfg \<noteq> None)) provider_catalog"
    unfolding list_all_iff b using entries m by metis
  moreover have "pc_name ` set provider_catalog = set IMAGE_PROVIDERS \<union> set VIDEO_PROVIDERS"
    using set by simp
  moreover have "build_image_provider n cfg = None \<and> build_video_provider n cfg = None
      \<longleftrightarrow> n \<notin> set IMAGE_PROVIDERS \<union> set VIDEO_PROVIDERS"
    using b [of n] by auto
  ultimately show ?thesis using s by simp
qed

end
