(* ===== verification/CircuitBreaker.thy ===== *)
theory CircuitBreaker
  imports Prelude
begin

text \<open>
  The per-provider circuit breaker (\<open>proxy/circuit_breaker.rs\<close>).

  The breaker keeps one failure streak per provider name. Its operations run under one lock,
  so a run of the gateway is a sequence of them; the clock they read is an argument. The
  streak counter is a \<open>u32\<close> of a release build and wraps. The refinement at the end says
  what a sequence of recorded outcomes means in terms of the outcomes themselves.
\<close>

section \<open>State\<close>

record breaker_state =
  consecutive_failures :: u32
  opened_at :: "instant option"

definition breaker_state_new :: breaker_state where
  "breaker_state_new = \<lparr>consecutive_failures = 0, opened_at = None\<rparr>"

text \<open>\<open>opened_at.elapsed()\<close> is never negative, as \<open>-\<close> on natural numbers.\<close>

definition state_is_open :: "breaker_state \<Rightarrow> nat \<Rightarrow> instant \<Rightarrow> bool" where
  "state_is_open s open_for now =
     (case opened_at s of Some t \<Rightarrow> now - t < open_for | None \<Rightarrow> False)"

record circuit_breaker =
  cb_state :: "string \<rightharpoonup> breaker_state"
  cb_threshold :: u32
  cb_open_for :: nat

definition breaker_new :: "u32 \<Rightarrow> nat \<Rightarrow> circuit_breaker" where
  "breaker_new thr open_for = \<lparr>cb_state = Map.empty, cb_threshold = thr, cb_open_for = open_for\<rparr>"

section \<open>Operations\<close>

definition breaker_is_open :: "circuit_breaker \<Rightarrow> instant \<Rightarrow> string \<Rightarrow> bool" where
  "breaker_is_open cb now provider =
     (case cb_state cb provider of
        Some s \<Rightarrow> state_is_open s (cb_open_for cb) now
      | None \<Rightarrow> False)"

text \<open>\<open>entry(provider).or_insert_with(BreakerState::new)\<close>\<close>

definition breaker_entry :: "circuit_breaker \<Rightarrow> string \<Rightarrow> breaker_state" where
  "breaker_entry cb provider = unwrap_or breaker_state_new (cb_state cb provider)"

definition record_success :: "string \<Rightarrow> circuit_breaker \<Rightarrow> circuit_breaker" where
  "record_success provider cb =
     (let entry = breaker_entry cb provider
      in cb\<lparr>cb_state := (cb_state cb)(provider \<mapsto>
              entry\<lparr>consecutive_failures := 0, opened_at := None\<rparr>)\<rparr>)"

definition record_failure :: "string \<Rightarrow> instant \<Rightarrow> circuit_breaker \<Rightarrow> circuit_breaker" where
  "record_failure provider now cb =
     (let entry = breaker_entry cb provider;
          n = consecutive_failures entry + 1;
          entry' = entry\<lparr>consecutive_failures := n\<rparr>;
          entry'' = (if cb_threshold cb \<le> n \<and> opened_at entry' = None
                     then entry'\<lparr>opened_at := Some now\<rparr> else entry')
      in cb\<lparr>cb_state := (cb_state cb)(provider \<mapsto> entry'')\<rparr>)"

lemmas breaker_defs =
  breaker_new_def breaker_is_open_def breaker_entry_def record_success_def record_failure_def
  state_is_open_def breaker_state_new_def

section \<open>What a client of a breaker relies on\<close>

locale breaker =
  fixes is_open :: "'cb \<Rightarrow> instant \<Rightarrow> string \<Rightarrow> bool"
    and success :: "string \<Rightarrow> 'cb \<Rightarrow> 'cb"
    and failure :: "string \<Rightarrow> instant \<Rightarrow> 'cb \<Rightarrow> 'cb"
  assumes closed_after_success: "\<not> is_open (success p cb) now p"
    and success_other: "q \<noteq> p \<Longrightarrow> is_open (success p cb) now q = is_open cb now q"
    and failure_other: "q \<noteq> p \<Longrightarrow> is_open (failure p t cb) now q = is_open cb now q"
    and open_kept: "is_open cb now p \<Longrightarrow> is_open (failure p t cb) now p"
begin

fun report :: "(string \<times> instant option) \<Rightarrow> 'cb \<Rightarrow> 'cb" where
  "report (p, Some t) cb = failure p t cb"
| "report (p, None) cb = success p cb"

lemma report_other: "fst e \<noteq> q \<Longrightarrow> is_open (report e cb) now q = is_open cb now q"
  by (cases e; cases "snd e") (auto simp: success_other failure_other)

lemma reports_other:
  "\<forall>e\<in>set es. fst e \<noteq> q \<Longrightarrow> is_open (fold report es cb) now q = is_open cb now q"
  by (induction es arbitrary: cb) (auto simp: report_other)

lemma open_needs_no_success:
  "is_open cb now q \<Longrightarrow> \<forall>e\<in>set es. fst e = q \<longrightarrow> snd e \<noteq> None \<Longrightarrow>
   is_open (fold report es cb) now q"
proof (induction es arbitrary: cb)
  case (Cons e es)
  obtain p t where e: "e = (p, t)" by (cases e)
  have "is_open (report e cb) now q"
  proof (cases "p = q")
    case True
    with Cons.prems e obtain t' where "t = Some t'" by auto
    with True Cons.prems(1) e show ?thesis by (simp add: open_kept)
  next
    case False
    with Cons.prems(1) e show ?thesis by (simp add: report_other)
  qed
  with Cons show ?case by simp
qed simp

end

interpretation cb: breaker breaker_is_open record_success record_failure
  by unfold_locales (auto simp: breaker_defs Let_def unwrap_or_def split: option.splits if_splits)

section \<open>The breaker in terms of the outcomes it was told\<close>

text \<open>An event is the outcome of a call to a provider: a success, or a failure at a time.\<close>

datatype breaker_event = Success string | Failure string instant

fun apply_event :: "breaker_event \<Rightarrow> circuit_breaker \<Rightarrow> circuit_breaker" where
  "apply_event (Success p) cb = record_success p cb"
| "apply_event (Failure p t) cb = record_failure p t cb"

text \<open>The times of the failures of \<open>p\<close> since its last success, oldest first.\<close>

fun failure_streak :: "string \<Rightarrow> breaker_event list \<Rightarrow> instant list \<Rightarrow> instant list" where
  "failure_streak p [] ts = ts"
| "failure_streak p (Success q # es) ts = failure_streak p es (if q = p then [] else ts)"
| "failure_streak p (Failure q t # es) ts = failure_streak p es (if q = p then ts @ [t] else ts)"

text \<open>
  A streak opens the breaker at its failure number \<open>threshold\<close> (at its first one when the
  threshold is 0).
\<close>

definition opening_time :: "nat \<Rightarrow> instant list \<Rightarrow> instant option" where
  "opening_time thr ts = (let k = max 1 thr in if length ts < k then None else Some (ts ! (k - 1)))"

definition breaker_sim :: "string \<Rightarrow> instant list \<Rightarrow> circuit_breaker \<Rightarrow> bool" where
  "breaker_sim p ts cb =
     (consecutive_failures (breaker_entry cb p) = of_nat (length ts)
      \<and> opened_at (breaker_entry cb p) = opening_time (unat (cb_threshold cb)) ts)"

lemma opening_time_snoc:
  "opening_time thr (ts @ [t]) =
     (if opening_time thr ts = None \<and> thr \<le> Suc (length ts) then Some t else opening_time thr ts)"
  by (auto simp: opening_time_def Let_def nth_append max_def split: if_splits)

lemma breaker_entry_update:
  "breaker_entry (cb\<lparr>cb_state := (cb_state cb)(p \<mapsto> s)\<rparr>) q = (if q = p then s else breaker_entry cb q)"
  by (simp add: breaker_entry_def)

lemma record_threshold [simp]:
  "cb_threshold (record_success p cb) = cb_threshold cb"
  "cb_threshold (record_failure p t cb) = cb_threshold cb"
  "cb_open_for (record_success p cb) = cb_open_for cb"
  "cb_open_for (record_failure p t cb) = cb_open_for cb"
  by (simp_all add: record_success_def record_failure_def Let_def)

lemma entry_after_success:
  "breaker_entry (record_success q cb) p =
     (if p = q then breaker_state_new else breaker_entry cb p)"
  by (simp add: record_success_def breaker_entry_update breaker_state_new_def)

lemma sim_success:
  "breaker_sim p ts cb \<Longrightarrow> breaker_sim p (if q = p then [] else ts) (record_success q cb)"
  by (auto simp: breaker_sim_def entry_after_success breaker_state_new_def opening_time_def Let_def)

lemma sim_failure:
  assumes sim: "breaker_sim p ts cb" and len: "length ts + 1 < 2 ^ 32"
  shows "breaker_sim p (if q = p then ts @ [t] else ts) (record_failure q t cb)"
proof (cases "q = p")
  case False
  with sim show ?thesis
    by (simp add: breaker_sim_def) (simp add: record_failure_def Let_def breaker_entry_update)
next
  case True
  have "unat (1 + of_nat (length ts) :: u32) = Suc (length ts)"
    using len unat_of_nat_u32 [of "Suc (length ts)"] by simp
  with sim True show ?thesis
    by (auto simp: breaker_sim_def record_failure_def Let_def breaker_entry_update opening_time_snoc
        word_le_nat_alt add.commute)
qed

lemma sim_run:
  assumes "breaker_sim p ts cb" and "length ts + length es < 2 ^ 32"
  shows "breaker_sim p (failure_streak p es ts) (fold apply_event es cb)"
  using assms
proof (induction es arbitrary: ts cb)
  case (Cons e es)
  show ?case
  proof (cases e)
    case (Success q)
    have "breaker_sim p (if q = p then [] else ts) (record_success q cb)"
      using Cons.prems(1) by (rule sim_success)
    with Cons.prems(2) Success show ?thesis by (simp add: Cons.IH)
  next
    case (Failure q t)
    have "breaker_sim p (if q = p then ts @ [t] else ts) (record_failure q t cb)"
      using Cons.prems by (intro sim_failure) auto
    with Cons.prems(2) Failure show ?thesis by (simp add: Cons.IH)
  qed
qed simp

lemma run_settings [simp]:
  "cb_threshold (fold apply_event es cb) = cb_threshold cb"
  "cb_open_for (fold apply_event es cb) = cb_open_for cb"
proof (induction es arbitrary: cb)
  case (Cons e es)
  { case 1 show ?case using Cons by (cases e) auto }
  { case 2 show ?case using Cons by (cases e) auto }
qed auto

lemma is_open_entry:
  "breaker_is_open cb now p \<longleftrightarrow> state_is_open (breaker_entry cb p) (cb_open_for cb) now"
  by (auto simp: breaker_is_open_def breaker_entry_def breaker_state_new_def state_is_open_def
      split: option.splits)

section \<open>Properties\<close>

text \<open>C24:
  After any sequence of successes and failures of any providers (fewer than 2 powi 32 of them),
  the breaker of a provider is open exactly when its current failure streak has reached the
  threshold and less than \<open>open_for\<close> has passed since the failure that reached it. In
  particular the outcomes of other providers have no influence.
\<close>

theorem breaker_refines_streak:
  assumes "length es < 2 ^ 32"
  shows "breaker_is_open (fold apply_event es (breaker_new thr d)) now p =
    (case opening_time (unat thr) (failure_streak p es []) of
       None \<Rightarrow> False | Some t \<Rightarrow> now - t < d)"
proof -
  have "breaker_sim p [] (breaker_new thr d)"
    by (simp add: breaker_sim_def breaker_new_def breaker_entry_def breaker_state_new_def
        opening_time_def Let_def)
  with assms have "breaker_sim p (failure_streak p es []) (fold apply_event es (breaker_new thr d))"
    by (simp add: sim_run)
  then show ?thesis
    by (simp add: is_open_entry breaker_sim_def state_is_open_def)
      (simp add: breaker_new_def cong: option.case_cong)
qed

theorem breaker_refines_streak_witness:
  "breaker_is_open (fold apply_event [Failure ''a'' 5, Success ''b'', Failure ''a'' 7]
     (breaker_new 2 10)) 16 ''a'' = True"
  using breaker_refines_streak
    [of "[Failure ''a'' 5, Success ''b'', Failure ''a'' 7]" 2 10 16 "''a''"]
  by (simp add: opening_time_def Let_def)

text \<open>
  Once a provider's breaker has opened at time \<open>t\<close> and its \<open>open_for\<close> has passed, failures
  alone never open it again: only after a success can the breaker of that provider trip a
  second time, however many trial calls of the half-open state fail.
\<close>

theorem half_open_failures_never_reopen:
  assumes "opened_at (breaker_entry cb p) = Some t"
    and "\<forall>e\<in>set es. \<exists>q u. e = Failure q u"
    and "t + cb_open_for cb \<le> now"
  shows "\<not> breaker_is_open (fold apply_event es cb) now p"
  using assms
proof (induction es arbitrary: cb)
  case Nil
  then show ?case by (simp add: is_open_entry state_is_open_def)
next
  case (Cons e es)
  then obtain q u where e: "e = Failure q u" by auto
  have "opened_at (breaker_entry (apply_event e cb) p) = Some t"
    using Cons.prems(1) e
    by (auto simp: record_failure_def Let_def breaker_entry_update)
  with Cons.prems e have "\<not> breaker_is_open (fold apply_event es (apply_event e cb)) now p"
    by (intro Cons.IH) auto
  then show ?case by simp
qed

theorem half_open_failures_never_reopen_witness:
  "\<not> breaker_is_open (fold apply_event [Failure ''a'' 31, Failure ''a'' 32]
       (record_failure ''a'' 1 (breaker_new 1 30))) 33 ''a''"
  by (rule half_open_failures_never_reopen [where t = 1])
    (simp_all add: breaker_defs Let_def unwrap_or_def)

end
