(* ===== verification/Cache.thy ===== *)
theory Cache
  imports Providers "HOL-Library.Countable"
begin

text \<open>
  The cache of generated images (\<open>proxy/cache.rs\<close>).

  The store itself is a library (moka): a map from keys to responses that may drop entries on
  its own, when they expire or the capacity is reached; \<open>cache_evict\<close> is such a step. SHA-256
  with its hexadecimal encoding, the text of a double and the JSON serialisation are arguments,
  the record \<open>codec\<close>.
\<close>

section \<open>The key\<close>

record codec =
  cd_digest :: "string \<Rightarrow> string"
  cd_f64 :: "f64 \<Rightarrow> string"
  cd_json :: "json \<Rightarrow> string"
  cd_refs :: "reference_image list \<Rightarrow> string"

definition opt_text :: "('a \<Rightarrow> string) \<Rightarrow> 'a option \<Rightarrow> string" where
  "opt_text f v = unwrap_or [] (map_option f v)"

text \<open>The sixteen fields in the order they are fed to the hash.\<close>

definition image_key_fields ::
  "codec \<Rightarrow> string option \<Rightarrow> string \<Rightarrow> base_request \<Rightarrow> image_extras \<Rightarrow> string list" where
  "image_key_fields cd tenant model base extras =
     [unwrap_or ''__global__'' tenant,
      model,
      br_prompt base,
      unwrap_or [] (br_negative_prompt base),
      opt_text int_to_string (br_seed base),
      nat_to_string (unat (br_n base)),
      unwrap_or [] (ie_size extras),
      unwrap_or [] (ie_aspect_ratio extras),
      unwrap_or [] (ie_quality extras),
      unwrap_or [] (ie_style extras),
      opt_text (\<lambda>w. nat_to_string (unat w)) (ie_steps extras),
      opt_text (cd_f64 cd) (ie_guidance_scale extras),
      opt_text (cd_f64 cd) (ie_strength extras),
      ie_response_format extras,
      cd_refs cd (br_reference_images base),
      opt_text (cd_json cd) (ie_extra extras)]"

text \<open>Each field is followed by a zero byte.\<close>

definition nul :: char where "nul = char_of (0 :: nat)"

fun feed_all :: "string list \<Rightarrow> string" where
  "feed_all [] = []"
| "feed_all (f # fs) = f @ nul # feed_all fs"

definition image_cache_key ::
  "codec \<Rightarrow> string option \<Rightarrow> string \<Rightarrow> base_request \<Rightarrow> image_extras \<Rightarrow> string" where
  "image_cache_key cd tenant model base extras =
     cd_digest cd (feed_all (image_key_fields cd tenant model base extras))"

section \<open>The cache\<close>

text \<open>\<open>None\<close> when caching is disabled.\<close>

type_synonym generation_cache = "(string \<rightharpoonup> image_response) option"

definition cache_new :: "bool \<Rightarrow> generation_cache" where
  "cache_new enabled = (if enabled then Some Map.empty else None)"

definition get_image ::
  "codec \<Rightarrow> string option \<Rightarrow> string \<Rightarrow> base_request \<Rightarrow> image_extras \<Rightarrow> generation_cache
   \<Rightarrow> image_response option" where
  "get_image cd tenant model base extras c =
     (case c of None \<Rightarrow> None | Some m \<Rightarrow> m (image_cache_key cd tenant model base extras))"

definition put_image ::
  "codec \<Rightarrow> string option \<Rightarrow> string \<Rightarrow> base_request \<Rightarrow> image_extras \<Rightarrow> image_response
   \<Rightarrow> generation_cache \<Rightarrow> generation_cache" where
  "put_image cd tenant model base extras r c =
     map_option (\<lambda>m. m(image_cache_key cd tenant model base extras \<mapsto> r)) c"

definition invalidate ::
  "codec \<Rightarrow> string option \<Rightarrow> string \<Rightarrow> base_request \<Rightarrow> image_extras
   \<Rightarrow> generation_cache \<Rightarrow> generation_cache" where
  "invalidate cd tenant model base extras c =
     map_option (\<lambda>m. m(image_cache_key cd tenant model base extras := None)) c"

definition cache_clear :: "generation_cache \<Rightarrow> generation_cache" where
  "cache_clear c = map_option (\<lambda>_. Map.empty) c"

definition cache_evict :: "(string \<Rightarrow> bool) \<Rightarrow> generation_cache \<Rightarrow> generation_cache" where
  "cache_evict p c = map_option (\<lambda>m k. if p k then None else m k) c"

section \<open>Keys of different requests\<close>

definition nul_free :: "string \<Rightarrow> bool" where "nul_free s = (nul \<notin> set s)"

lemma feed_all_inject:
  "list_all nul_free fs \<Longrightarrow> list_all nul_free gs \<Longrightarrow> length fs = length gs \<Longrightarrow>
   feed_all fs = feed_all gs \<longleftrightarrow> fs = gs"
proof (induction fs arbitrary: gs)
  case (Cons f fs)
  then obtain g gs' where gs: "gs = g # gs'" by (cases gs) auto
  have "f @ nul # feed_all fs = g @ nul # feed_all gs' \<longleftrightarrow> f = g \<and> feed_all fs = feed_all gs'"
    using Cons.prems gs by (auto simp: nul_free_def append_eq_append_conv2 Cons_eq_append_conv append_eq_Cons_conv)
  with Cons gs show ?case by simp
qed simp

lemma nat_to_string_inject: "nat_to_string m = nat_to_string n \<longleftrightarrow> m = n"
  by (metis digits_value_to_string)

lemma digit_not_minus: "is_digit c \<Longrightarrow> c \<noteq> CHR ''-''"
  by (auto simp: is_digit_def)

lemma nat_to_string_hd: "nat_to_string n \<noteq> CHR ''-'' # s"
  using nat_to_string_digits [of n] digit_not_minus [of "CHR ''-''"] by auto

lemma int_to_string_inject: "int_to_string i = int_to_string j \<longleftrightarrow> i = j"
  by (auto simp: int_to_string_def nat_to_string_inject nat_to_string_hd
      nat_to_string_hd [symmetric])

lemma opt_text_inject:
  assumes "inj f" and "\<And>x. f x \<noteq> []"
  shows "opt_text f v = opt_text f w \<longleftrightarrow> v = w"
  using assms by (cases v; cases w) (auto simp: opt_text_def inj_eq, metis)

section \<open>Properties\<close>

text \<open>What the arguments of the key promise: different values have different, zero-free texts.\<close>

definition codec_ok :: "codec \<Rightarrow> bool" where
  "codec_ok cd =
     (inj (cd_digest cd) \<and> inj (cd_f64 cd) \<and> inj (cd_json cd) \<and> inj (cd_refs cd)
      \<and> (\<forall>x. cd_f64 cd x \<noteq> [] \<and> nul_free (cd_f64 cd x))
      \<and> (\<forall>j. cd_json cd j \<noteq> [] \<and> nul_free (cd_json cd j))
      \<and> (\<forall>rs. nul_free (cd_refs cd rs)))"

definition texts_nul_free :: "string option \<Rightarrow> string \<Rightarrow> base_request \<Rightarrow> image_extras \<Rightarrow> bool" where
  "texts_nul_free tenant model base extras =
     list_all nul_free
       [unwrap_or [] tenant, model, br_prompt base, unwrap_or [] (br_negative_prompt base),
        unwrap_or [] (ie_size extras), unwrap_or [] (ie_aspect_ratio extras),
        unwrap_or [] (ie_quality extras), unwrap_or [] (ie_style extras), ie_response_format extras]"

lemma nul_eq: "nul = c \<longleftrightarrow> byte c = (0 :: nat)" "c = nul \<longleftrightarrow> byte c = (0 :: nat)"
  by (auto simp: nul_def) (metis char_of_char)+

lemma digits_nul_free: "nul_free (nat_to_string n)"
proof -
  have "\<not> is_digit nul" by (simp add: is_digit_def nul_def)
  then show ?thesis using nat_to_string_digits [of n] by (auto simp: nul_free_def list_all_iff)
qed

lemma int_nul_free: "nul_free (int_to_string i)"
  using digits_nul_free by (auto simp: int_to_string_def nul_free_def nul_eq)

lemma opt_text_nul_free: "(\<And>x. nul_free (f x)) \<Longrightarrow> nul_free (opt_text f v)"
  by (cases v) (auto simp: opt_text_def nul_free_def)

lemma global_nul_free: "nul_free ''__global__''"
  by (simp add: nul_free_def nul_eq)

lemma key_fields_nul_free:
  assumes "codec_ok cd" and "texts_nul_free tenant model base extras"
  shows "list_all nul_free (image_key_fields cd tenant model base extras)"
proof -
  have "nul_free (unwrap_or ''__global__'' tenant)"
    using assms(2) global_nul_free by (cases tenant) (auto simp: texts_nul_free_def)
  with assms show ?thesis
    by (simp add: image_key_fields_def texts_nul_free_def codec_ok_def digits_nul_free
        int_nul_free opt_text_nul_free)
qed

lemma nat_to_string_nonempty: "nat_to_string n \<noteq> []"
  using nat_to_string_digits [of n] by blast

lemma int_to_string_nonempty: "int_to_string i \<noteq> []"
  by (simp add: int_to_string_def nat_to_string_nonempty)

text \<open>C30:
  Requests with the same cache key are the same request: with texts free of zero bytes, equal keys
  mean equal tenant, model, prompt, seed, count, steps, guidance, strength, format, reference list
  and extra options, and equal texts for the optional texts (an absent one counts as empty).
  \<open>codec_ok\<close> is the contract of the hash (no collisions) and of the serialisers.
\<close>

theorem same_key_same_request:
  assumes cd: "codec_ok cd"
    and t: "texts_nul_free tenant model base extras" "texts_nul_free tenant' model' base' extras'"
    and eq: "image_cache_key cd tenant model base extras = image_cache_key cd tenant' model' base' extras'"
  shows "unwrap_or ''__global__'' tenant = unwrap_or ''__global__'' tenant' \<and> model = model'
    \<and> br_prompt base = br_prompt base' \<and> br_seed base = br_seed base' \<and> br_n base = br_n base'
    \<and> br_reference_images base = br_reference_images base'
    \<and> unwrap_or [] (br_negative_prompt base) = unwrap_or [] (br_negative_prompt base')
    \<and> unwrap_or [] (ie_size extras) = unwrap_or [] (ie_size extras')
    \<and> unwrap_or [] (ie_aspect_ratio extras) = unwrap_or [] (ie_aspect_ratio extras')
    \<and> unwrap_or [] (ie_quality extras) = unwrap_or [] (ie_quality extras')
    \<and> unwrap_or [] (ie_style extras) = unwrap_or [] (ie_style extras')
    \<and> ie_steps extras = ie_steps extras' \<and> ie_guidance_scale extras = ie_guidance_scale extras'
    \<and> ie_strength extras = ie_strength extras'
    \<and> ie_response_format extras = ie_response_format extras' \<and> ie_extra extras = ie_extra extras'"
proof -
  have "feed_all (image_key_fields cd tenant model base extras)
      = feed_all (image_key_fields cd tenant' model' base' extras')"
    using eq cd by (auto simp: image_cache_key_def codec_ok_def dest: injD)
  then have f: "image_key_fields cd tenant model base extras = image_key_fields cd tenant' model' base' extras'"
    using key_fields_nul_free [OF cd t(1)] key_fields_nul_free [OF cd t(2)]
    by (subst (asm) feed_all_inject) (auto simp: image_key_fields_def)
  have "opt_text int_to_string v = opt_text int_to_string w \<longleftrightarrow> v = w" for v w
    by (intro opt_text_inject) (auto simp: inj_def int_to_string_inject int_to_string_nonempty)
  moreover have "opt_text (\<lambda>w. nat_to_string (unat w)) v = opt_text (\<lambda>w. nat_to_string (unat w)) w \<longleftrightarrow> v = w"
    for v w :: "u32 option"
    by (intro opt_text_inject)
      (auto simp: inj_def nat_to_string_inject nat_to_string_nonempty word_unat_eq_iff)
  moreover have "opt_text (cd_f64 cd) v = opt_text (cd_f64 cd) w \<longleftrightarrow> v = w" for v w
    using cd by (intro opt_text_inject) (auto simp: codec_ok_def)
  moreover have "opt_text (cd_json cd) v = opt_text (cd_json cd) w \<longleftrightarrow> v = w" for v w
    using cd by (intro opt_text_inject) (auto simp: codec_ok_def)
  moreover have "cd_refs cd v = cd_refs cd w \<longleftrightarrow> v = w" for v w
    using cd by (auto simp: codec_ok_def inj_eq)
  ultimately show ?thesis
    using f by (simp add: image_key_fields_def nat_to_string_inject word_unat_eq_iff)
qed

text \<open>
  Tenants are isolated: requests of tenants with different names never share a key, whatever the
  other fields contain, zero bytes included. Only the contract of the hash is needed, and that
  tenant names hold no zero byte.
\<close>

lemma tenants_never_share_keys:
  assumes "inj (cd_digest cd)" and "nul_free t" and "nul_free t'" and "t \<noteq> t'"
  shows "image_cache_key cd (Some t) model base extras \<noteq> image_cache_key cd (Some t') model' base' extras'"
proof
  assume "image_cache_key cd (Some t) model base extras = image_cache_key cd (Some t') model' base' extras'"
  then have "feed_all (image_key_fields cd (Some t) model base extras)
      = feed_all (image_key_fields cd (Some t') model' base' extras')"
    using assms(1) by (auto simp: image_cache_key_def dest: injD)
  then obtain r r' where "t @ nul # r = t' @ nul # r'" by (auto simp: image_key_fields_def)
  with assms(2-4) show False
    by (auto simp: nul_free_def append_eq_append_conv2 Cons_eq_append_conv append_eq_Cons_conv)
qed

text \<open>
  The step a run of the cache consists of; \<open>Evict\<close> is the library dropping entries.
\<close>

datatype cache_step =
  Put "string option" string base_request image_extras image_response
| Invalidate "string option" string base_request image_extras
| Clear
| Evict "string \<Rightarrow> bool"

fun cache_do :: "codec \<Rightarrow> cache_step \<Rightarrow> generation_cache \<Rightarrow> generation_cache" where
  "cache_do cd (Put t m b e r) c = put_image cd t m b e r c"
| "cache_do cd (Invalidate t m b e) c = invalidate cd t m b e c"
| "cache_do cd Clear c = cache_clear c"
| "cache_do cd (Evict p) c = cache_evict p c"

text \<open>The response a key was last stored with.\<close>

fun last_put :: "codec \<Rightarrow> string \<Rightarrow> cache_step list \<Rightarrow> image_response option \<Rightarrow> image_response option" where
  "last_put cd k [] acc = acc"
| "last_put cd k (Put t m b e r # ss) acc =
     last_put cd k ss (if image_cache_key cd t m b e = k then Some r else acc)"
| "last_put cd k (Invalidate t m b e # ss) acc =
     last_put cd k ss (if image_cache_key cd t m b e = k then None else acc)"
| "last_put cd k (Clear # ss) acc = last_put cd k ss None"
| "last_put cd k (Evict p # ss) acc = last_put cd k ss acc"

definition cached_at :: "generation_cache \<Rightarrow> string \<Rightarrow> image_response option" where
  "cached_at c k = Option.bind c (\<lambda>m. m k)"

lemma cached_step:
  "cached_at c k \<in> {None, acc} \<Longrightarrow>
   cached_at (fold (cache_do cd) ss c) k \<in> {None, last_put cd k ss acc}"
proof (induction ss arbitrary: c acc)
  case (Cons s ss)
  show ?case
  proof (cases s)
    case (Put t m b e r)
    with Cons show ?thesis by (cases c) (auto simp: cached_at_def put_image_def)
  next
    case (Invalidate t m b e)
    with Cons show ?thesis by (cases c) (auto simp: cached_at_def invalidate_def)
  next
    case Clear
    with Cons show ?thesis by (cases c) (auto simp: cached_at_def cache_clear_def)
  next
    case (Evict p)
    with Cons show ?thesis by (cases c) (auto simp: cached_at_def cache_evict_def)
  qed
qed simp

text \<open>
  A hit is never stale or invented: after any sequence of stores, invalidations, clearings and
  evictions a lookup returns nothing or the response its key was last stored with.
\<close>

theorem hit_is_last_stored:
  "get_image cd t m b e (fold (cache_do cd) ss (cache_new enabled))
     \<in> {None, last_put cd (image_cache_key cd t m b e) ss None}"
proof -
  have "cached_at (cache_new enabled) k = None" for k
    by (simp add: cached_at_def cache_new_def)
  then have "cached_at (fold (cache_do cd) ss (cache_new enabled)) (image_cache_key cd t m b e)
      \<in> {None, last_put cd (image_cache_key cd t m b e) ss None}"
    by (intro cached_step) simp
  moreover have "get_image cd t m b e c = cached_at c (image_cache_key cd t m b e)" for c
    by (cases c) (simp_all add: get_image_def cached_at_def)
  ultimately show ?thesis by (simp only:)
qed

section \<open>Codecs that keep the contract, and what happens without it\<close>

instance ref_image_kind :: countable
  by countable_datatype

instance json :: countable
  by countable_datatype

definition count_text :: "'a :: countable \<Rightarrow> string" where
  "count_text x = nat_to_string (to_nat x)"

lemma inj_count_text: "inj count_text"
  by (auto simp: inj_def count_text_def nat_to_string_inject)

definition example_codec :: codec where
  "example_codec =
     \<lparr>cd_digest = (\<lambda>s. s), cd_f64 = count_text, cd_json = count_text,
      cd_refs = (\<lambda>rs. count_text (map (\<lambda>r. (ri_kind r, ri_value r, ri_role r)) rs))\<rparr>"

lemma example_codec_ok: "codec_ok example_codec"
proof -
  have "inj (\<lambda>r :: reference_image. (ri_kind r, ri_value r, ri_role r))" by (auto simp: inj_def)
  then have "inj (\<lambda>rs. map (\<lambda>r :: reference_image. (ri_kind r, ri_value r, ri_role r)) rs)"
    by (rule inj_mapI)
  then have "inj (\<lambda>rs. count_text (map (\<lambda>r :: reference_image. (ri_kind r, ri_value r, ri_role r)) rs))"
    by (rule inj_compose [OF inj_count_text, unfolded comp_def])
  then show ?thesis
    using inj_count_text [where 'a = rat] inj_count_text [where 'a = json]
    by (simp add: codec_ok_def example_codec_def)
      (simp add: count_text_def digits_nul_free nat_to_string_nonempty)
qed

definition example_base :: base_request where
  "example_base =
     \<lparr>br_prompt = ''a cat'', br_model = ''fal/flux'', br_n = 1, br_negative_prompt = None,
      br_seed = Some 7, br_reference_images = [], br_strict = True, br_extra = None,
      br_metadata = None\<rparr>"

definition example_extras :: image_extras where
  "example_extras =
     \<lparr>ie_size = Some ''512x512'', ie_aspect_ratio = None, ie_quality = None, ie_style = None,
      ie_steps = None, ie_guidance_scale = None, ie_strength = None,
      ie_response_format = ''url'', ie_extra = None\<rparr>"

theorem same_key_same_request_witness:
  "image_cache_key example_codec (Some ''app'') ''fal/flux'' example_base example_extras
     \<noteq> image_cache_key example_codec (Some ''app'') ''fal/flux'' (example_base\<lparr>br_seed := Some 8\<rparr>) example_extras"
proof
  assume eq: "image_cache_key example_codec (Some ''app'') ''fal/flux'' example_base example_extras
     = image_cache_key example_codec (Some ''app'') ''fal/flux'' (example_base\<lparr>br_seed := Some 8\<rparr>) example_extras"
  have t: "texts_nul_free (Some ''app'') ''fal/flux'' (example_base\<lparr>br_seed := s\<rparr>) example_extras" for s
    by (simp add: texts_nul_free_def nul_free_def nul_eq example_base_def example_extras_def)
  have "texts_nul_free (Some ''app'') ''fal/flux'' example_base example_extras"
    using t [of "Some 7"] by (simp add: example_base_def)
  from same_key_same_request [OF example_codec_ok this t eq]
  have "br_seed example_base = br_seed (example_base\<lparr>br_seed := Some 8\<rparr>)" by blast
  then show False by (simp add: example_base_def)
qed

text \<open>
  Zero bytes break the separation of the fields within a tenant: for any prompt and negative
  prompt there is a request with a longer prompt and a different negative prompt that has the same
  key, whatever the hash and the serialisers are.
\<close>

theorem nul_bytes_collide:
  assumes "br_negative_prompt base = Some (x @ nul # y)"
  shows "image_cache_key cd tenant model base extras =
    image_cache_key cd tenant model
      (base\<lparr>br_prompt := br_prompt base @ nul # x, br_negative_prompt := Some y\<rparr>) extras"
  using assms by (simp add: image_cache_key_def image_key_fields_def)

theorem nul_bytes_collide_witness:
  "image_cache_key cd (Some ''app'') ''fal/flux''
     (example_base\<lparr>br_negative_prompt := Some (''b'' @ nul # ''c'')\<rparr>) example_extras =
   image_cache_key cd (Some ''app'') ''fal/flux''
     (example_base\<lparr>br_prompt := ''a cat'' @ nul # ''b'', br_negative_prompt := Some ''c''\<rparr>) example_extras"
  using nul_bytes_collide [of "example_base\<lparr>br_negative_prompt := Some (''b'' @ nul # ''c'')\<rparr>"
      "''b''" "''c''" cd "Some ''app''" "''fal/flux''" example_extras]
  by (simp add: example_base_def)

end
