(* ===== verification/Schema.thy ===== *)
theory Schema
  imports Types
begin

text \<open>
  Model capabilities: the schema of a model (\<open>capabilities/schema.rs\<close>), what the loader checks
  of it (\<open>capabilities/loader.rs\<close>) and the capability registry with its runtime layer
  (\<open>capabilities/registry.rs\<close>). A \<open>HashMap\<close> whose iteration order a result can depend on is an
  association list in that order; looking up is \<open>map_of\<close>. Reading and parsing the YAML files is
  not modelled: \<open>from_yaml_strs\<close> takes the parser as an argument.
\<close>

section \<open>Schemas\<close>

datatype media_type = Image | Video

record capability_flags =
  cf_text_to_image :: bool
  cf_image_to_image :: bool
  cf_inpainting :: bool
  cf_text_to_video :: bool
  cf_image_to_video :: bool

record model_pricing =
  mp_base_cost_usd :: f64
  mp_variable_pricing :: "json option"

record prompt_spec =
  ps_required :: bool
  ps_min_length :: "nat option"
  ps_max_length :: "nat option"

record size_freeform =
  sf_min_width :: u32
  sf_max_width :: u32
  sf_min_height :: u32
  sf_max_height :: u32
  sf_multiple_of :: "u32 option"

datatype size_spec = Freeform size_freeform | SizeEnum "(u32 \<times> u32) list"

record spec_int =
  si_min :: "i64 option"
  si_max :: "i64 option"
  si_default :: "i64 option"

record spec_float =
  sfl_min :: "f64 option"
  sfl_max :: "f64 option"
  sfl_default :: "f64 option"

record spec_string =
  ss_max_length :: "nat option"
  ss_enum_values :: "string list"
  ss_pattern :: "string option"
  ss_default :: "string option"

record spec_aspect_ratio =
  sa_allowed :: "string list"
  sa_default :: "string option"

datatype param_spec =
  PBool "bool option"
| PInt spec_int
| PFloat spec_float
| PString spec_string
| PSize size_spec
| PAspectRatio spec_aspect_ratio
| PSeed i64 i64

record ref_role_spec =
  rr_required :: bool
  rr_min_count :: u32
  rr_max_count :: u32

datatype ref_provider_format = FormUrl | FormBase64 | FormMultipart "(string \<times> string) list"

record ref_input_spec =
  rs_max_total :: u32
  rs_default_role :: "string option"
  rs_provider_format :: ref_provider_format
  rs_roles :: "(string \<times> ref_role_spec) list"

record model_schema =
  ms_id :: string
  ms_provider :: string
  ms_media_type :: media_type
  ms_display_name :: string
  ms_description :: string
  ms_pricing :: model_pricing
  ms_capabilities :: capability_flags
  ms_prompt :: prompt_spec
  ms_params :: "(string \<times> param_spec) list"
  ms_ref_inputs :: "ref_input_spec option"
  ms_extra_allowlist :: "string list"
  ms_tags :: "string list"

definition KNOWN_PARAMS :: "string list" where
  "KNOWN_PARAMS =
     [''negative_prompt'', ''seed'', ''steps'', ''guidance_scale'', ''strength'', ''quality'',
      ''style'', ''size'', ''aspect_ratio'', ''duration_seconds'', ''resolution'', ''fps'']"

section \<open>What the loader checks\<close>

text \<open>The validation errors of the loader, one constructor per message.\<close>

datatype schema_error =
  IdForm | IdNameEmpty | IdProviderMismatch | NegativeCost | UnknownParam string
| WidthRange | HeightRange | FieldMapRole string | DefaultRole string

datatype load_error =
  LoadIo string | LoadParse string string | LoadValidate string schema_error
| LoadDuplicate string string | LoadAggregate "load_error list"

definition check_model_id :: "model_schema \<Rightarrow> schema_error + unit" where
  "check_model_id m =
     (case split_once CHR ''/'' (ms_id m) of
        None \<Rightarrow> Inl IdForm
      | Some (prefix, rest) \<Rightarrow>
          if rest = [] then Inl IdNameEmpty
          else if prefix \<noteq> ms_provider m then Inl IdProviderMismatch
          else Inr ())"

definition check_freeform :: "model_schema \<Rightarrow> schema_error + unit" where
  "check_freeform m =
     (case map_of (ms_params m) ''size'' of
        Some (PSize (Freeform f)) \<Rightarrow>
          if sf_max_width f < sf_min_width f then Inl WidthRange
          else if sf_max_height f < sf_min_height f then Inl HeightRange
          else Inr ()
      | _ \<Rightarrow> Inr ())"

definition check_ref_inputs :: "model_schema \<Rightarrow> schema_error + unit" where
  "check_ref_inputs m =
     (case ms_ref_inputs m of
        None \<Rightarrow> Inr ()
      | Some ri \<Rightarrow>
          and_then
            (case rs_provider_format ri of
               FormMultipart fm \<Rightarrow>
                 (case find (\<lambda>k. \<not> has_key (rs_roles ri) k) (map fst fm) of
                    Some k \<Rightarrow> Inl (FieldMapRole k)
                  | None \<Rightarrow> Inr ())
             | _ \<Rightarrow> Inr ())
            (\<lambda>_. case rs_default_role ri of
               Some d \<Rightarrow> if has_key (rs_roles ri) d then Inr () else Inl (DefaultRole d)
             | None \<Rightarrow> Inr ()))"

definition validate_model :: "model_schema \<Rightarrow> schema_error + unit" where
  "validate_model m =
     and_then (check_model_id m) (\<lambda>_.
     if mp_base_cost_usd (ms_pricing m) < 0 then Inl NegativeCost
     else case find (\<lambda>k. k \<notin> set KNOWN_PARAMS) (map fst (ms_params m)) of
       Some k \<Rightarrow> Inl (UnknownParam k)
     | None \<Rightarrow> and_then (check_freeform m) (\<lambda>_. check_ref_inputs m))"

text \<open>\<open>parse_file\<close>: the first model that does not validate is the file's error.\<close>

fun validate_models :: "string \<Rightarrow> model_schema list \<Rightarrow> load_error + unit" where
  "validate_models path [] = Inr ()"
| "validate_models path (m # ms) =
     (case validate_model m of Inl e \<Rightarrow> Inl (LoadValidate path e) | Inr _ \<Rightarrow> validate_models path ms)"

definition parse_file ::
  "(string \<Rightarrow> string + model_schema list) \<Rightarrow> string \<Rightarrow> string \<Rightarrow> load_error + model_schema list" where
  "parse_file from_str path yaml =
     (case from_str yaml of
        Inl msg \<Rightarrow> Inl (LoadParse path msg)
      | Inr ms \<Rightarrow> and_then (validate_models path ms) (\<lambda>_. Inr ms))"

section \<open>The registry\<close>

record capability_registry =
  cp_models :: "(string \<times> model_schema) list"
  cp_by_provider :: "(string \<times> string list) list"
  cp_runtime :: "(string \<times> model_schema) list"
  cp_disabled :: "string list"

text \<open>The loop over all models of all files; the ids of a provider are sorted at the end.\<close>

fun insert_models ::
  "(string \<times> model_schema) list \<Rightarrow> (string \<times> model_schema) list \<times> (string \<times> string list) list
   \<Rightarrow> load_error + (string \<times> model_schema) list \<times> (string \<times> string list) list" where
  "insert_models [] acc = Inr acc"
| "insert_models ((path, m) # rest) (models, by_provider) =
     (if has_key models (ms_id m) then Inl (LoadDuplicate path (ms_id m))
      else insert_models rest
        (al_insert (ms_id m) m models,
         al_insert (ms_provider m)
           (unwrap_or [] (map_of by_provider (ms_provider m)) @ [ms_id m]) by_provider))"

fun parse_files ::
  "(string \<Rightarrow> string + model_schema list) \<Rightarrow> (string \<times> string) list
   \<Rightarrow> (string \<times> model_schema) list \<times> load_error list" where
  "parse_files from_str [] = ([], [])"
| "parse_files from_str ((path, yaml) # files) =
     (let (ms, es) = parse_files from_str files
      in case parse_file from_str path yaml of
           Inr models \<Rightarrow> (map (\<lambda>m. (path, m)) models @ ms, es)
         | Inl e \<Rightarrow> (ms, e # es))"

definition from_yaml_strs ::
  "(string \<Rightarrow> string + model_schema list) \<Rightarrow> (string \<times> string) list
   \<Rightarrow> load_error + capability_registry" where
  "from_yaml_strs from_str files =
     (let (all, errors) = parse_files from_str files
      in case errors of
           [e] \<Rightarrow> Inl e
         | e # e' # es \<Rightarrow> Inl (LoadAggregate errors)
         | [] \<Rightarrow> and_then (insert_models all ([], [])) (\<lambda>(models, by_provider).
             Inr \<lparr>cp_models = models, cp_by_provider = map (\<lambda>(p, ids). (p, sort ids)) by_provider,
                  cp_runtime = [], cp_disabled = []\<rparr>))"

definition cap_get :: "capability_registry \<Rightarrow> string \<Rightarrow> model_schema option" where
  "cap_get r i = map_of (cp_models r) i"

definition for_provider :: "capability_registry \<Rightarrow> string \<Rightarrow> model_schema list" where
  "for_provider r p =
     List.map_filter (\<lambda>i. map_of (cp_models r) i) (unwrap_or [] (map_of (cp_by_provider r) p))"

definition is_disabled :: "capability_registry \<Rightarrow> string \<Rightarrow> bool" where
  "is_disabled r i = (i \<in> set (cp_disabled r))"

definition is_catalog :: "capability_registry \<Rightarrow> string \<Rightarrow> bool" where
  "is_catalog r i = has_key (cp_models r) i"

definition runtime_model :: "capability_registry \<Rightarrow> string \<Rightarrow> model_schema option" where
  "runtime_model r i = map_of (cp_runtime r) i"

definition runtime_models :: "capability_registry \<Rightarrow> model_schema list" where
  "runtime_models r = sort_key ms_id (map snd (cp_runtime r))"

definition resolve :: "capability_registry \<Rightarrow> string \<Rightarrow> model_schema option" where
  "resolve r i =
     (if is_disabled r i then None else opt_or (map_of (cp_models r) i) (runtime_model r i))"

definition served :: "capability_registry \<Rightarrow> model_schema list" where
  "served r =
     filter (\<lambda>m. ms_id m \<notin> set (cp_disabled r)) (map snd (cp_models r) @ map snd (cp_runtime r))"

definition upsert_runtime :: "model_schema \<Rightarrow> capability_registry \<Rightarrow> capability_registry" where
  "upsert_runtime m r = r\<lparr>cp_runtime := al_insert (ms_id m) m (cp_runtime r)\<rparr>"

definition remove_runtime :: "string \<Rightarrow> capability_registry \<Rightarrow> bool \<times> capability_registry" where
  "remove_runtime i r =
     (has_key (cp_runtime r) i, r\<lparr>cp_runtime := al_remove i (cp_runtime r)\<rparr>)"

definition set_disabled :: "string \<Rightarrow> bool \<Rightarrow> capability_registry \<Rightarrow> capability_registry" where
  "set_disabled i disabled r =
     r\<lparr>cp_disabled := (if disabled then List.insert i (cp_disabled r) else removeAll i (cp_disabled r))\<rparr>"

lemmas registry_defs =
  cap_get_def is_disabled_def is_catalog_def runtime_model_def resolve_def served_def
  upsert_runtime_def remove_runtime_def set_disabled_def has_key_iff

section \<open>Properties\<close>

text \<open>
  The registry's invariant: both layers are keyed by the model's own id, without duplicates,
  and no runtime model has the id of a catalog model.
\<close>

definition keyed_by_id :: "(string \<times> model_schema) list \<Rightarrow> bool" where
  "keyed_by_id al = (distinct (map fst al) \<and> list_all (\<lambda>(i, m). ms_id m = i) al)"

definition reg_ok :: "capability_registry \<Rightarrow> bool" where
  "reg_ok r =
     (keyed_by_id (cp_models r) \<and> keyed_by_id (cp_runtime r)
      \<and> list_all (\<lambda>i. i \<notin> set (map fst (cp_models r))) (map fst (cp_runtime r)))"

lemma keyed_map_of: "keyed_by_id al \<Longrightarrow> map_of al i = Some m \<longleftrightarrow> m \<in> snd ` set al \<and> ms_id m = i"
proof -
  assume k: "keyed_by_id al"
  then have "map_of al i = Some m \<longleftrightarrow> (i, m) \<in> set al" by (simp add: keyed_by_id_def)
  also have "\<dots> \<longleftrightarrow> m \<in> snd ` set al \<and> ms_id m = i"
    using k by (force simp: keyed_by_id_def list_all_iff)
  finally show ?thesis .
qed

lemma keyed_fst: "keyed_by_id al \<Longrightarrow> fst ` set al = ms_id ` snd ` set al"
  by (force simp: keyed_by_id_def list_all_iff)

lemma set_al_insert:
  "distinct (map fst al) \<Longrightarrow> set (al_insert k v al) = insert (k, v) {x \<in> set al. fst x \<noteq> k}"
  by (induction k v al rule: al_insert.induct) force+

lemma keyed_insert [simp]: "keyed_by_id al \<Longrightarrow> keyed_by_id (al_insert (ms_id m) m al)"
  by (auto simp: keyed_by_id_def list_all_iff set_al_insert)

lemma keyed_remove [simp]: "keyed_by_id al \<Longrightarrow> keyed_by_id (al_remove k al)"
  by (auto simp: keyed_by_id_def list_all_iff set_al_remove)

text \<open>
  The models a registry serves are exactly those that \<open>resolve\<close> finds under their own id:
  \<open>served\<close> and \<open>resolve\<close> agree on the catalog, the runtime layer and the disabled set.
\<close>

theorem served_iff_resolve:
  assumes "reg_ok r"
  shows "m \<in> set (served r) \<longleftrightarrow> resolve r (ms_id m) = Some m"
proof -
  have k: "keyed_by_id (cp_models r)" "keyed_by_id (cp_runtime r)"
    and d: "\<And>i. i \<in> fst ` set (cp_runtime r) \<Longrightarrow> i \<notin> fst ` set (cp_models r)"
    using assms by (auto simp: reg_ok_def list_all_iff)
  have none: "map_of (cp_models r) (ms_id m) = None" if "m \<in> snd ` set (cp_runtime r)"
    using d [of "ms_id m"] that keyed_fst [OF k(2)] by (simp add: map_of_eq_None_iff)
  show ?thesis
  proof (cases "map_of (cp_models r) (ms_id m)")
    case None
    then have "m \<notin> snd ` set (cp_models r)"
      using keyed_fst [OF k(1)] by (auto simp: map_of_eq_None_iff)
    with None keyed_map_of [OF k(2), of "ms_id m" m] show ?thesis
      by (auto simp: served_def resolve_def is_disabled_def runtime_model_def)
  next
    case (Some m')
    with none have "m \<notin> snd ` set (cp_runtime r)" by auto
    with Some keyed_map_of [OF k(1), of "ms_id m" m] show ?thesis
      by (auto simp: served_def resolve_def is_disabled_def)
  qed
qed

lemma upsert_ok: "reg_ok r \<Longrightarrow> \<not> is_catalog r (ms_id m) \<Longrightarrow> reg_ok (upsert_runtime m r)"
  by (auto simp: reg_ok_def upsert_runtime_def is_catalog_def has_key_iff list_all_iff fst_al_insert)

lemma remove_ok: "reg_ok r \<Longrightarrow> reg_ok (snd (remove_runtime i r))"
  by (auto simp: reg_ok_def remove_runtime_def list_all_iff) (force simp: al_remove_def)

lemma disable_ok: "reg_ok r \<Longrightarrow> reg_ok (set_disabled i b r)"
  by (simp add: reg_ok_def set_disabled_def)

lemma resolve_upsert:
  "\<not> is_catalog r (ms_id m) \<Longrightarrow>
   resolve (upsert_runtime m r) i =
     (if i = ms_id m \<and> \<not> is_disabled r i then Some m else resolve r i)"
  by (simp add: resolve_def upsert_runtime_def is_disabled_def runtime_model_def is_catalog_def
      has_key_def)

lemma resolve_remove:
  "resolve (snd (remove_runtime i r)) j =
     (if j = i \<and> \<not> is_catalog r i then None else resolve r j)"
  by (cases "map_of (cp_models r) i")
    (auto simp: resolve_def remove_runtime_def is_disabled_def runtime_model_def is_catalog_def
      has_key_def)

lemma resolve_disable:
  "resolve (set_disabled i b r) j =
     (if j \<noteq> i then resolve r j else if b then None else opt_or (cap_get r i) (runtime_model r i))"
  by (simp add: resolve_def set_disabled_def is_disabled_def runtime_model_def cap_get_def)

text \<open>
  The runtime layer: adding a model that is not in the catalog, removing one and switching one
  off or on keep the invariant and change what is served for that id only. No operation on the
  runtime layer takes a catalog model away.
\<close>

theorem runtime_layer_correct:
  assumes "reg_ok r" and "\<not> is_catalog r (ms_id m)"
  shows "reg_ok (upsert_runtime m r) \<and> reg_ok (snd (remove_runtime i r)) \<and> reg_ok (set_disabled i b r)
    \<and> resolve (upsert_runtime m r) =
        (\<lambda>j. if j = ms_id m \<and> \<not> is_disabled r j then Some m else resolve r j)
    \<and> resolve (snd (remove_runtime i r)) =
        (\<lambda>j. if j = i \<and> \<not> is_catalog r i then None else resolve r j)
    \<and> resolve (set_disabled i b r) =
        (\<lambda>j. if j \<noteq> i then resolve r j
             else if b then None else opt_or (cap_get r i) (runtime_model r i))"
  using assms by (simp add: upsert_ok remove_ok disable_ok resolve_upsert resolve_remove
      resolve_disable fun_eq_iff)

section \<open>Loading\<close>

lemma validate_models_ok:
  "validate_models path ms = Inr u \<Longrightarrow> \<forall>m\<in>set ms. validate_model m = Inr ()"
  by (induction ms) (auto split: sum.splits)

lemma parse_file_ok:
  "parse_file fs path yaml = Inr ms \<Longrightarrow> fs yaml = Inr ms \<and> (\<forall>m\<in>set ms. validate_model m = Inr ())"
  by (auto simp: parse_file_def and_then_Inr dest!: validate_models_ok split: sum.splits)

lemma parse_files_ok:
  "parse_files fs files = (all, []) \<Longrightarrow>
   (\<forall>m\<in>snd ` set all. validate_model m = Inr ())
   \<and> snd ` set all = {m. \<exists>f\<in>set files. \<exists>ms. fs (snd f) = Inr ms \<and> m \<in> set ms}
   \<and> (\<forall>f\<in>set files. \<exists>ms. fs (snd f) = Inr ms)"
proof (induction files arbitrary: all)
  case (Cons f files)
  obtain path yaml where f: "f = (path, yaml)" by (cases f)
  from Cons.prems f obtain ms rest where ms: "parse_file fs path yaml = Inr ms"
      and rest: "parse_files fs files = (rest, [])" and all: "all = map (\<lambda>m. (path, m)) ms @ rest"
    by (auto split: prod.splits sum.splits)
  have s: "snd ` set all = set ms \<union> snd ` set rest" by (auto simp: all image_Un image_image)
  show ?case
  proof (intro conjI)
    show "\<forall>m\<in>snd ` set all. validate_model m = Inr ()"
      unfolding s ball_Un
      using parse_file_ok [OF ms, THEN conjunct2] Cons.IH [OF rest, THEN conjunct1] by (rule conjI)
    show "snd ` set all = {m. \<exists>f\<in>set (f # files). \<exists>ms. fs (snd f) = Inr ms \<and> m \<in> set ms}"
      unfolding s using parse_file_ok [OF ms] Cons.IH [OF rest] f by auto
    show "\<forall>f\<in>set (f # files). \<exists>ms. fs (snd f) = Inr ms"
      using parse_file_ok [OF ms] Cons.IH [OF rest] f by auto
  qed
qed auto

text \<open>What the loop of \<open>from_yaml_strs\<close> keeps of its two maps.\<close>

definition load_inv ::
  "(string \<times> model_schema) list \<Rightarrow> (string \<times> string list) list \<Rightarrow> bool" where
  "load_inv models bp =
     (keyed_by_id models \<and> distinct (map fst bp)
      \<and> (\<forall>p. let ids = unwrap_or [] (map_of bp p)
             in distinct ids \<and> set ids = {i. \<exists>m. map_of models i = Some m \<and> ms_provider m = p}))"

lemma load_inv_insert:
  assumes inv: "load_inv models bp" and new: "\<not> has_key models (ms_id m)"
  shows "load_inv (al_insert (ms_id m) m models)
    (al_insert (ms_provider m) (unwrap_or [] (map_of bp (ms_provider m)) @ [ms_id m]) bp)"
proof -
  have "map_of models (ms_id m) = None" using new by (simp add: has_key_def)
  with inv show ?thesis by (auto simp: load_inv_def Let_def)
qed

lemma insert_models_ok:
  "insert_models all (models, bp) = Inr (models', bp') \<Longrightarrow> load_inv models bp \<Longrightarrow>
   load_inv models' bp' \<and> snd ` set models' = snd ` set models \<union> snd ` set all"
proof (induction all arbitrary: models bp)
  case (Cons a all)
  obtain path m where a: "a = (path, m)" by (cases a)
  from Cons.prems a have new: "\<not> has_key models (ms_id m)" by (auto split: if_splits)
  have "snd ` set (al_insert (ms_id m) m models) = insert m (snd ` set models)"
    using new by (simp add: has_key_iff al_insert_new)
  with Cons.IH [OF _ load_inv_insert [OF Cons.prems(2) new]] Cons.prems(1) a new
  show ?case by auto
qed auto

text \<open>
  When loading succeeds, the registry holds exactly the models of all files, each of them passes
  the loader's checks, the registry's invariant holds, and a provider's list has exactly the
  models of that provider, in the order of their ids.
\<close>

theorem loading_correct:
  assumes "from_yaml_strs fs files = Inr r"
  shows "reg_ok r
    \<and> snd ` set (cp_models r) = {m. \<exists>f\<in>set files. \<exists>ms. fs (snd f) = Inr ms \<and> m \<in> set ms}
    \<and> list_all (\<lambda>m. validate_model m = Inr ()) (map snd (cp_models r))
    \<and> sorted (map ms_id (for_provider r p)) \<and> distinct (map ms_id (for_provider r p))
    \<and> set (for_provider r p) = {m \<in> snd ` set (cp_models r). ms_provider m = p}"
proof -
  from assms obtain all models bp where all: "parse_files fs files = (all, [])"
    and ins: "insert_models all ([], []) = Inr (models, bp)"
    and r: "r = \<lparr>cp_models = models, cp_by_provider = map (\<lambda>(p, ids). (p, sort ids)) bp,
                cp_runtime = [], cp_disabled = []\<rparr>"
    by (auto simp: from_yaml_strs_def and_then_Inr split: prod.splits list.splits)
  have inv: "load_inv models bp" and ms: "snd ` set models = snd ` set all"
    using insert_models_ok [OF ins] by (auto simp: load_inv_def keyed_by_id_def)
  note P = parse_files_ok [OF all]
  have keyed: "keyed_by_id models" using inv by (simp add: load_inv_def)
  define ids where "ids = unwrap_or [] (map_of bp p)"
  have ids: "distinct ids" "set ids = {i. \<exists>m. map_of models i = Some m \<and> ms_provider m = p}"
    using inv by (auto simp: load_inv_def ids_def Let_def)
  have fp: "for_provider r p = List.map_filter (map_of models) (sort ids)"
    by (cases "map_of bp p")
      (simp_all add: for_provider_def r ids_def map_of_map [of sort bp])
  have i: "\<exists>m. map_of models i = Some m \<and> ms_id m = i" if "i \<in> set ids" for i
    using that ids(2) keyed_map_of [OF keyed] by auto
  have f: "for_provider r p = map (\<lambda>i. the (map_of models i)) (sort ids)"
    unfolding fp using i by (intro map_filter_total) auto
  have "ms_id (the (map_of models x)) = x" if "x \<in> set ids" for x
    using i [OF that] by auto
  then have m: "map ms_id (for_provider r p) = sort ids"
    unfolding f map_map by (intro map_idI) simp
  have "m' \<in> set (for_provider r p) \<longleftrightarrow> m' \<in> snd ` set models \<and> ms_provider m' = p" for m'
  proof -
    have "m' \<in> set (for_provider r p) \<longleftrightarrow> (\<exists>i\<in>set ids. map_of models i = Some m')"
      unfolding f using i by (auto simp: image_iff) (fastforce | metis option.sel)+
    also have "\<dots> \<longleftrightarrow> (\<exists>i. map_of models i = Some m' \<and> ms_provider m' = p)"
      unfolding ids(2) by auto
    also have "\<dots> \<longleftrightarrow> m' \<in> snd ` set models \<and> ms_provider m' = p"
      using keyed_map_of [OF keyed] by auto
    finally show ?thesis .
  qed
  then have "set (for_provider r p) = {m \<in> snd ` set models. ms_provider m = p}" by blast
  with m ids(1) have "sorted (map ms_id (for_provider r p)) \<and> distinct (map ms_id (for_provider r p))
      \<and> set (for_provider r p) = {m \<in> snd ` set (cp_models r). ms_provider m = p}"
    by (simp add: r)
  moreover have "list_all (\<lambda>m. validate_model m = Inr ()) (map snd (cp_models r))"
    unfolding list_all_iff r capability_registry.simps set_map ms using P by (rule conjunct1)
  moreover have "snd ` set (cp_models r) =
      {m. \<exists>f\<in>set files. \<exists>ms. fs (snd f) = Inr ms \<and> m \<in> set ms}"
    using P ms by (simp only: r capability_registry.simps)
  moreover have "reg_ok r" using keyed by (simp add: reg_ok_def r keyed_by_id_def)
  ultimately show ?thesis by blast
qed

definition example_model :: model_schema where
  "example_model =
     \<lparr>ms_id = ''fal/flux'', ms_provider = ''fal'', ms_media_type = Image,
      ms_display_name = ''Flux'', ms_description = [],
      ms_pricing = \<lparr>mp_base_cost_usd = 1 / 32, mp_variable_pricing = None\<rparr>,
      ms_capabilities = \<lparr>cf_text_to_image = True, cf_image_to_image = False,
        cf_inpainting = False, cf_text_to_video = False, cf_image_to_video = False\<rparr>,
      ms_prompt = \<lparr>ps_required = True, ps_min_length = Some 1, ps_max_length = Some 8\<rparr>,
      ms_params =
        [(''size'', PSize (Freeform \<lparr>sf_min_width = 256, sf_max_width = 1024,
            sf_min_height = 256, sf_max_height = 1024, sf_multiple_of = Some 64\<rparr>)),
         (''steps'', PInt \<lparr>si_min = Some 1, si_max = Some 50, si_default = None\<rparr>)],
      ms_ref_inputs = None, ms_extra_allowlist = [''tile''], ms_tags = []\<rparr>"

lemma example_model_fields [simp]:
  "ms_id example_model = ''fal/flux''" "ms_provider example_model = ''fal''"
  "mp_base_cost_usd (ms_pricing example_model) = 1 / 32" "ms_ref_inputs example_model = None"
  "map fst (ms_params example_model) = [''size'', ''steps'']"
  by (simp_all add: example_model_def)

lemma example_model_valid [simp]: "validate_model example_model = Inr ()"
proof -
  have "check_freeform example_model = Inr ()"
    by (simp add: check_freeform_def example_model_def)
  then show ?thesis
    by (simp add: validate_model_def check_model_id_def check_ref_inputs_def KNOWN_PARAMS_def)
qed

definition example_registry :: capability_registry where
  "example_registry =
     \<lparr>cp_models = [(''fal/flux'', example_model)], cp_by_provider = [(''fal'', [''fal/flux''])],
      cp_runtime = [], cp_disabled = []\<rparr>"

lemma example_registry_ok: "reg_ok example_registry"
  by (simp add: reg_ok_def keyed_by_id_def example_registry_def example_model_def)

theorem loading_correct_witness:
  "from_yaml_strs (\<lambda>_. Inr [example_model]) [(''a.yaml'', ''models'')] = Inr example_registry
   \<and> set (for_provider example_registry ''fal'') = {example_model}"
proof -
  have l: "from_yaml_strs (\<lambda>_. Inr [example_model]) [(''a.yaml'', ''models'')] = Inr example_registry"
    by (simp add: from_yaml_strs_def parse_file_def example_registry_def has_key_def)
  have "set (for_provider example_registry ''fal'') =
      {m \<in> snd ` set (cp_models example_registry). ms_provider m = ''fal''}"
    using loading_correct [OF l, of "''fal''"] by blast
  also have "\<dots> = {example_model}" by (auto simp: example_registry_def)
  finally show ?thesis using l by blast
qed

theorem served_iff_resolve_witness:
  "example_model \<in> set (served example_registry)
     \<longleftrightarrow> resolve example_registry ''fal/flux'' = Some example_model"
  using served_iff_resolve [OF example_registry_ok, of example_model]
  by (simp add: example_model_def)

theorem runtime_layer_correct_witness:
  "resolve (upsert_runtime (example_model\<lparr>ms_id := ''fal/new''\<rparr>) example_registry) ''fal/new''
     = Some (example_model\<lparr>ms_id := ''fal/new''\<rparr>)"
proof -
  have "\<not> is_catalog example_registry (ms_id (example_model\<lparr>ms_id := ''fal/new''\<rparr>))"
    by (simp add: is_catalog_def has_key_def example_registry_def)
  from runtime_layer_correct [OF example_registry_ok this] show ?thesis
    by (simp add: is_disabled_def example_registry_def)
qed

end
