(* ===== verification/Ssrf.thy ===== *)
theory Ssrf
  imports Prelude
begin

text \<open>
  The guard on server-side fetches of caller-supplied URLs (\<open>util/ssrf.rs\<close>).

  An address is its octets (16 of them for IPv6); the predicates of \<open>std::net\<close> are written out.
  Parsing a URL, parsing an address literal and resolving a host name are arguments.
\<close>

unbundle bit_operations_syntax

section \<open>Addresses\<close>

datatype ip_addr = V4 u8 u8 u8 u8 | V6 "u8 list"

definition is_private :: "u8 \<Rightarrow> u8 \<Rightarrow> bool" where
  "is_private a b = (a = 10 \<or> (a = 172 \<and> 16 \<le> b \<and> b \<le> 31) \<or> (a = 192 \<and> b = 168))"

definition is_documentation :: "u8 \<Rightarrow> u8 \<Rightarrow> u8 \<Rightarrow> bool" where
  "is_documentation a b c =
     ((a = 192 \<and> b = 0 \<and> c = 2) \<or> (a = 198 \<and> b = 51 \<and> c = 100) \<or> (a = 203 \<and> b = 0 \<and> c = 113))"

definition is_disallowed_v4 :: "u8 \<Rightarrow> u8 \<Rightarrow> u8 \<Rightarrow> u8 \<Rightarrow> bool" where
  "is_disallowed_v4 a b c d =
     (is_private a b
      \<or> a = 127
      \<or> (a = 169 \<and> b = 254)
      \<or> (a = 0 \<and> b = 0 \<and> c = 0 \<and> d = 0)
      \<or> (a = 255 \<and> b = 255 \<and> c = 255 \<and> d = 255)
      \<or> is_documentation a b c
      \<or> a = 0
      \<or> (a = 100 \<and> b AND 0xc0 = 0x40))"

text \<open>\<open>to_ipv4_mapped\<close>: \<open>::ffff:a.b.c.d\<close>; \<open>to_ipv4\<close> takes \<open>::a.b.c.d\<close> as well.\<close>

definition to_ipv4_mapped :: "u8 list \<Rightarrow> u8 list option" where
  "to_ipv4_mapped o6 =
     (if take 12 o6 = replicate 10 0 @ [255, 255] then Some (drop 12 o6) else None)"

definition to_ipv4 :: "u8 list \<Rightarrow> u8 list option" where
  "to_ipv4 o6 =
     (if take 10 o6 = replicate 10 0 \<and> (take 2 (drop 10 o6) = [0, 0] \<or> take 2 (drop 10 o6) = [255, 255])
      then Some (drop 12 o6) else None)"

definition nat64 :: "u8 list \<Rightarrow> u8 list option" where
  "nat64 o6 =
     (if o6 ! 0 = 0 \<and> o6 ! 1 = 0x64 \<and> o6 ! 2 = 0xff \<and> o6 ! 3 = 0x9b
         \<and> list_all (\<lambda>b. b = 0) (drop 4 (take 12 o6))
      then Some (drop 12 o6) else None)"

definition disallowed_octets :: "u8 list \<Rightarrow> bool" where
  "disallowed_octets v4 = is_disallowed_v4 (v4 ! 0) (v4 ! 1) (v4 ! 2) (v4 ! 3)"

fun is_disallowed_ip :: "ip_addr \<Rightarrow> bool" where
  "is_disallowed_ip (V4 a b c d) = is_disallowed_v4 a b c d"
| "is_disallowed_ip (V6 o6) =
     (case to_ipv4_mapped o6 of Some v4 \<Rightarrow> disallowed_octets v4 | None \<Rightarrow>
      case to_ipv4 o6 of Some v4 \<Rightarrow> disallowed_octets v4 | None \<Rightarrow>
      case nat64 o6 of Some v4 \<Rightarrow> disallowed_octets v4 | None \<Rightarrow>
        o6 = replicate 15 0 @ [1]
        \<or> o6 = replicate 16 0
        \<or> o6 ! 0 AND 0xfe = 0xfc
        \<or> (o6 ! 0 = 0xfe \<and> o6 ! 1 AND 0xc0 = 0x80))"

section \<open>URLs\<close>

record url =
  u_scheme :: string
  u_host :: "string option"
  u_port :: "16 word option"

datatype url_error =
  InvalidUrl string | UnsupportedScheme string | NoHost | DisallowedAddress
| DnsFailed string | ResolvesDisallowed | NoResolution

text \<open>
  \<open>parse\<close>, \<open>parse_ip\<close> and \<open>lookup_host\<close> are the URL parser, the address parser and the resolver.
  The loop over the resolved addresses stops at the first one that is not allowed.
\<close>

fun check_addresses :: "bool \<Rightarrow> ip_addr list \<Rightarrow> url_error + unit" where
  "check_addresses any [] = (if any then Inr () else Inl NoResolution)"
| "check_addresses any (a # as) =
     (if is_disallowed_ip a then Inl ResolvesDisallowed else check_addresses True as)"

definition validate_public_url ::
  "(string \<Rightarrow> string + url) \<Rightarrow> (string \<Rightarrow> ip_addr option) \<Rightarrow> (string \<Rightarrow> 16 word \<Rightarrow> string + ip_addr list)
   \<Rightarrow> string \<Rightarrow> url_error + unit" where
  "validate_public_url parse parse_ip lookup_host s =
     (case parse s of
        Inl e \<Rightarrow> Inl (InvalidUrl e)
      | Inr u \<Rightarrow>
          if u_scheme u \<notin> {''http'', ''https''} then Inl (UnsupportedScheme (u_scheme u))
          else case u_host u of
            None \<Rightarrow> Inl NoHost
          | Some host \<Rightarrow>
              (let port = unwrap_or 443 (u_port u);
                   bare = (case Option.bind (strip_prefix ''['' host) (strip_suffix '']'') of
                             Some h \<Rightarrow> h | None \<Rightarrow> host)
               in case parse_ip bare of
                    Some ip \<Rightarrow> if is_disallowed_ip ip then Inl DisallowedAddress else Inr ()
                  | None \<Rightarrow>
                      (case lookup_host host port of
                         Inl e \<Rightarrow> Inl (DnsFailed e)
                       | Inr addrs \<Rightarrow> check_addresses False addrs)))"

section \<open>Properties\<close>

text \<open>A block of addresses in CIDR notation, on the 32-bit value of the address.\<close>

definition v4_value :: "u8 \<Rightarrow> u8 \<Rightarrow> u8 \<Rightarrow> u8 \<Rightarrow> nat" where
  "v4_value a b c d = ((unat a * 256 + unat b) * 256 + unat c) * 256 + unat d"

definition in_block :: "nat \<Rightarrow> nat \<times> nat \<Rightarrow> bool" where
  "in_block x blk = (x div 2 ^ (32 - snd blk) = fst blk div 2 ^ (32 - snd blk))"

definition blocked_v4 :: "(nat \<times> nat) list" where
  "blocked_v4 =
     [(v4_value 0 0 0 0, 8), (v4_value 10 0 0 0, 8), (v4_value 100 64 0 0, 10),
      (v4_value 127 0 0 0, 8), (v4_value 169 254 0 0, 16), (v4_value 172 16 0 0, 12),
      (v4_value 192 0 2 0, 24), (v4_value 192 168 0 0, 16), (v4_value 198 51 100 0, 24),
      (v4_value 203 0 113 0, 24), (v4_value 255 255 255 255, 32)]"

lemma u8_less: "unat (x :: u8) < 256"
  using unsigned_less [of x] by simp

lemma u8_eq: "(x :: u8) = y \<longleftrightarrow> unat x = unat y"
  by (rule word_unat_eq_iff)

lemma u8_upper_two: "(x :: u8) AND 0xc0 = 0x40 \<longleftrightarrow> unat x div 64 = 1"
proof -
  have m: "(0xc0 :: u8) = push_bit 6 (mask 2)" by code_simp
  have "x AND 0xc0 = push_bit 6 (drop_bit 6 x)"
    unfolding m by (rule bit_word_eqI) (auto simp: bit_simps)
  then have e: "x AND 0xc0 = drop_bit 6 x * 64" by (simp add: push_bit_eq_mult)
  have q: "unat (drop_bit 6 x) = unat x div 64"
    by (simp add: drop_bit_eq_div unat_div)
  have "unat (drop_bit 6 x * 64) = unat x div 64 * 64"
    unfolding unat_word_ariths q using u8_less [of x] by simp
  then show ?thesis unfolding u8_eq e by simp
qed

lemma v4_shift:
  "v4_value a b c d div 2 ^ 24 = unat a"
  "v4_value a b c d div 2 ^ 22 = 4 * unat a + unat b div 64"
  "v4_value a b c d div 2 ^ 20 = 16 * unat a + unat b div 16"
  "v4_value a b c d div 2 ^ 16 = 256 * unat a + unat b"
  "v4_value a b c d div 2 ^ 8 = 65536 * unat a + 256 * unat b + unat c"
  "v4_value a b c d div 2 ^ 0 = v4_value a b c d"
  using u8_less [of a] u8_less [of b] u8_less [of c] u8_less [of d]
  unfolding v4_value_def by simp_all

lemma digits_eq:
  assumes "(y :: nat) < k" and "y' < k"
  shows "k * x + y = k * x' + y' \<longleftrightarrow> x = x' \<and> y = y'"
proof
  assume e: "k * x + y = k * x' + y'"
  have "(k * x + y) div k = x" "(k * x' + y') div k = x'" using assms by simp_all
  with e have "x = x'" by simp
  with e show "x = x' \<and> y = y'" by simp
qed simp

lemma u8_le: "(x :: u8) \<le> y \<longleftrightarrow> unat x \<le> unat y"
  by (rule word_le_nat_alt)

text \<open>
  An IPv4 address is refused exactly when it lies in one of the eleven blocks 0.0.0.0/8,
  10.0.0.0/8, 100.64.0.0/10, 127.0.0.0/8, 169.254.0.0/16 (the cloud metadata address among
  them), 172.16.0.0/12, 192.0.2.0/24, 192.168.0.0/16, 198.51.100.0/24, 203.0.113.0/24 and
  255.255.255.255/32; an IPv6 address that embeds an IPv4 one (mapped, compatible or NAT64) is
  refused exactly when the embedded one is.
\<close>

theorem disallowed_v4_is_blocklist:
  "is_disallowed_ip (V4 a b c d) = list_ex (in_block (v4_value a b c d)) blocked_v4
   \<and> is_disallowed_ip (V6 (replicate 10 0 @ [255, 255, a, b, c, d])) = is_disallowed_ip (V4 a b c d)
   \<and> is_disallowed_ip (V6 (replicate 12 0 @ [a, b, c, d])) = is_disallowed_ip (V4 a b c d)
   \<and> is_disallowed_ip (V6 ([0, 0x64, 0xff, 0x9b] @ replicate 8 0 @ [a, b, c, d]))
       = is_disallowed_ip (V4 a b c d)"
proof -
  let ?A = "unat a" and ?B = "unat b" and ?C = "unat c" and ?D = "unat d"
  note less = u8_less [of a] u8_less [of b] u8_less [of c] u8_less [of d]
  have blk: "list_ex (in_block (v4_value a b c d)) blocked_v4 \<longleftrightarrow>
      ?A = 0 \<or> ?A = 10 \<or> 4 * ?A + ?B div 64 = 401 \<or> ?A = 127 \<or> 256 * ?A + ?B = 43518
      \<or> 16 * ?A + ?B div 16 = 2753 \<or> 65536 * ?A + 256 * ?B + ?C = 12582914
      \<or> 256 * ?A + ?B = 49320 \<or> 65536 * ?A + 256 * ?B + ?C = 12989284
      \<or> 65536 * ?A + 256 * ?B + ?C = 13303921 \<or> v4_value a b c d = 4294967295"
    unfolding blocked_v4_def list_ex_iff list.set bex_simps(5,7) in_block_def fst_conv snd_conv
    using v4_shift [of a b c d] by (simp add: v4_value_def)
  have dis: "is_disallowed_v4 a b c d \<longleftrightarrow>
      ?A = 0 \<or> ?A = 10 \<or> (?A = 100 \<and> ?B div 64 = 1) \<or> ?A = 127 \<or> (?A = 169 \<and> ?B = 254)
      \<or> (?A = 172 \<and> 16 \<le> ?B \<and> ?B \<le> 31) \<or> (?A = 192 \<and> ?B = 0 \<and> ?C = 2)
      \<or> (?A = 192 \<and> ?B = 168) \<or> (?A = 198 \<and> ?B = 51 \<and> ?C = 100)
      \<or> (?A = 203 \<and> ?B = 0 \<and> ?C = 113) \<or> (?A = 255 \<and> ?B = 255 \<and> ?C = 255 \<and> ?D = 255)"
    unfolding is_disallowed_v4_def is_private_def is_documentation_def u8_upper_two
    unfolding u8_eq u8_le by simp argo
  have e: "4 * ?A + ?B div 64 = 401 \<longleftrightarrow> ?A = 100 \<and> ?B div 64 = 1"
    using digits_eq [of "?B div 64" 4 1 ?A 100] less by simp
  have m: "16 \<le> ?B \<and> ?B \<le> 31 \<longleftrightarrow> ?B div 16 = 1" by presburger
  have f: "16 * ?A + ?B div 16 = 2753 \<longleftrightarrow> ?A = 172 \<and> ?B div 16 = 1"
    using digits_eq [of "?B div 16" 16 1 ?A 172] less by simp
  have g: "256 * ?A + ?B = 256 * x + y \<longleftrightarrow> ?A = x \<and> ?B = y" if "y < 256" for x y
    using digits_eq [OF less(2) that] .
  have h: "65536 * ?A + 256 * ?B + ?C = 65536 * x + 256 * y + z \<longleftrightarrow> ?A = x \<and> ?B = y \<and> ?C = z"
    if "y < 256" "z < 256" for x y z
    using digits_eq [OF less(3) that(2), of "256 * ?A + ?B" "256 * x + y"] g [OF that(1), of x]
    by simp
  have i: "v4_value a b c d = 4294967295 \<longleftrightarrow> ?A = 255 \<and> ?B = 255 \<and> ?C = 255 \<and> ?D = 255"
    using digits_eq [OF less(4), of 255 "65536 * ?A + 256 * ?B + ?C" "65536 * 255 + 256 * 255 + 255"]
      h [of 255 255 255] unfolding v4_value_def by (simp add: algebra_simps)
  note e = e f [folded m] i g [of 254 169, simplified] g [of 168 192, simplified]
    h [of 0 2 192, simplified] h [of 51 100 198, simplified] h [of 0 113 203, simplified]
  have v4: "is_disallowed_v4 a b c d = list_ex (in_block (v4_value a b c d)) blocked_v4"
    unfolding blk dis e by argo
  have o4: "disallowed_octets [a, b, c, d] = is_disallowed_v4 a b c d"
    by (simp add: disallowed_octets_def)
  have r: "replicate 8 (0 :: u8) = [0, 0, 0, 0, 0, 0, 0, 0]"
      "replicate 10 (0 :: u8) = [0, 0, 0, 0, 0, 0, 0, 0, 0, 0]"
      "replicate 12 (0 :: u8) = [0, 0, 0, 0, 0, 0, 0, 0, 0, 0, 0, 0]"
    by (simp_all add: eval_nat_numeral)
  have "to_ipv4_mapped (replicate 10 0 @ [255, 255, a, b, c, d]) = Some [a, b, c, d]"
    by (simp add: to_ipv4_mapped_def r)
  moreover have "to_ipv4_mapped (replicate 12 0 @ [a, b, c, d]) = None"
      "to_ipv4 (replicate 12 0 @ [a, b, c, d]) = Some [a, b, c, d]"
    by (simp_all add: to_ipv4_mapped_def to_ipv4_def r)
  moreover have "to_ipv4_mapped ([0, 0x64, 0xff, 0x9b] @ replicate 8 0 @ [a, b, c, d]) = None"
      "to_ipv4 ([0, 0x64, 0xff, 0x9b] @ replicate 8 0 @ [a, b, c, d]) = None"
      "nat64 ([0, 0x64, 0xff, 0x9b] @ replicate 8 0 @ [a, b, c, d]) = Some [a, b, c, d]"
    by (simp_all add: to_ipv4_mapped_def to_ipv4_def nat64_def r)
  ultimately show ?thesis using v4 o4 by simp
qed

lemma check_addresses_ok:
  "check_addresses any as = Inr () \<longleftrightarrow> (any \<or> as \<noteq> []) \<and> list_all (\<lambda>a. \<not> is_disallowed_ip a) as"
  by (induction as arbitrary: any) auto

text \<open>C27:
  A URL passes the guard only with an http or https scheme and a host that either is a literal of
  an allowed address or resolves to at least one address and to allowed addresses only.
\<close>

theorem validated_url_is_public:
  assumes "validate_public_url parse parse_ip lookup_host s = Inr ()"
  shows "\<exists>u host. parse s = Inr u \<and> u_scheme u \<in> {''http'', ''https''} \<and> u_host u = Some host
    \<and> ((\<exists>ip bare. parse_ip bare = Some ip \<and> (host = bare \<or> host = ''['' @ bare @ '']'')
           \<and> \<not> is_disallowed_ip ip)
      \<or> (\<exists>addrs. lookup_host host (unwrap_or 443 (u_port u)) = Inr addrs \<and> addrs \<noteq> []
           \<and> list_all (\<lambda>a. \<not> is_disallowed_ip a) addrs))"
proof -
  from assms obtain u host where u: "parse s = Inr u" "u_scheme u \<in> {''http'', ''https''}"
      "u_host u = Some host"
    by (auto simp: validate_public_url_def split: sum.splits if_splits option.splits)
  define bare where "bare = (case Option.bind (strip_prefix ''['' host) (strip_suffix '']'') of
      Some h \<Rightarrow> h | None \<Rightarrow> host)"
  have b: "host = bare \<or> host = ''['' @ bare @ '']''"
    by (auto simp: bare_def strip_prefix_Some strip_suffix_Some bind_eq_Some_conv split: option.splits)
  have v: "(case parse_ip bare of
        Some ip \<Rightarrow> if is_disallowed_ip ip then Inl DisallowedAddress else Inr ()
      | None \<Rightarrow> (case lookup_host host (unwrap_or 443 (u_port u)) of
          Inl e \<Rightarrow> Inl (DnsFailed e) | Inr addrs \<Rightarrow> check_addresses False addrs)) = Inr ()"
    using assms u unfolding validate_public_url_def Let_def bare_def by (auto split: if_splits)
  show ?thesis
  proof (cases "parse_ip bare")
    case None
    with v obtain addrs where "lookup_host host (unwrap_or 443 (u_port u)) = Inr addrs"
        "check_addresses False addrs = Inr ()" by (auto split: sum.splits)
    with u show ?thesis by (auto simp: check_addresses_ok)
  next
    case (Some ip)
    with v have "\<not> is_disallowed_ip ip" by (auto split: if_splits)
    with u b Some show ?thesis by blast
  qed
qed

theorem validated_url_is_public_witness:
  "\<exists>u. u = \<lparr>u_scheme = ''https'', u_host = Some ''a.example'', u_port = None\<rparr>
     \<and> validate_public_url (\<lambda>_. Inr u) (\<lambda>_. None) (\<lambda>_ _. Inr [V4 93 184 216 34]) ''https://a.example''
         = Inr ()
     \<and> u_scheme u \<in> {''http'', ''https''}"
proof -
  let ?u = "\<lparr>u_scheme = ''https'', u_host = Some ''a.example'', u_port = None\<rparr>"
  have "validate_public_url (\<lambda>_. Inr ?u) (\<lambda>_. None) (\<lambda>_ _. Inr [V4 93 184 216 34])
      ''https://a.example'' = Inr ()"
    by code_simp
  from this validated_url_is_public [OF this] show ?thesis by auto
qed

end
