(* ===== verification/Materializer.thy ===== *)
theory Materializer
  imports Providers Schema Ssrf
begin

text \<open>
  Reference images on their way to a provider (\<open>proxy/materializer.rs\<close>): converted from the form
  the caller sent (URL, base64 text, uploaded part) to the form the model's schema asks for.

  Base64 coding and the network are arguments: \<open>net\<close> holds the URL and address parsers, the
  resolver and the HTTP client, whose effects go through a world. A response is its status, its
  declared length and the chunks of its body as they arrive, the last of which can be an error.
\<close>

section \<open>Forms\<close>

datatype materialize_error =
  MissingRole | BlobMissing string | NoFieldMap string
| FetchRefused url_error | FetchFailed string | FetchStatus nat | BodyTooLarge
| DecodeFailed string

datatype materialized_form =
  MatUrl string | MatBase64 string | MatMultipart string "u8 list" string

record materialized_ref =
  mf_role :: string
  mf_form :: materialized_form

text \<open>Blob field name to bytes and content type.\<close>

type_synonym materialize_context = "string \<rightharpoonup> u8 list \<times> string"

section \<open>The network\<close>

record http_response =
  hr_status :: nat
  hr_content_length :: "nat option"
  hr_chunks :: "(string + u8 list) list"

record 'w net =
  nt_parse :: "string \<Rightarrow> string + url"
  nt_parse_ip :: "string \<Rightarrow> ip_addr option"
  nt_lookup :: "'w \<Rightarrow> string \<Rightarrow> 16 word \<Rightarrow> string + ip_addr list"
  nt_get :: "string \<Rightarrow> 'w \<Rightarrow> (string + http_response) \<times> 'w"

definition MAX_REF_IMAGE_BYTES :: nat where
  "MAX_REF_IMAGE_BYTES = 20 * 1024 * 1024"

fun read_chunks :: "nat \<Rightarrow> u8 list \<Rightarrow> (string + u8 list) list \<Rightarrow> materialize_error + u8 list" where
  "read_chunks mx buf [] = Inr buf"
| "read_chunks mx buf (Inl e # cs) = Inl (FetchFailed e)"
| "read_chunks mx buf (Inr c # cs) =
     (if mx < length buf + length c then Inl BodyTooLarge else read_chunks mx (buf @ c) cs)"

definition read_body_capped :: "http_response \<Rightarrow> nat \<Rightarrow> materialize_error + u8 list" where
  "read_body_capped resp mx =
     (case hr_content_length resp of
        Some len \<Rightarrow> if mx < len then Inl BodyTooLarge else read_chunks mx [] (hr_chunks resp)
      | None \<Rightarrow> read_chunks mx [] (hr_chunks resp))"

definition fetch_url :: "'w net \<Rightarrow> string \<Rightarrow> 'w \<Rightarrow> (materialize_error + u8 list) \<times> 'w" where
  "fetch_url net url w =
     (case validate_public_url (nt_parse net) (nt_parse_ip net) (nt_lookup net w) url of
        Inl e \<Rightarrow> (Inl (FetchRefused e), w)
      | Inr _ \<Rightarrow>
          (case nt_get net url w of
             (Inl e, w') \<Rightarrow> (Inl (FetchFailed e), w')
           | (Inr resp, w') \<Rightarrow>
               if \<not> (200 \<le> hr_status resp \<and> hr_status resp < 300)
               then (Inl (FetchStatus (hr_status resp)), w')
               else (read_body_capped resp MAX_REF_IMAGE_BYTES, w')))"

section \<open>Text and bytes\<close>

definition strip_data_prefix :: "string \<Rightarrow> string" where
  "strip_data_prefix s =
     (case strip_prefix ''data:'' s of
        Some rest \<Rightarrow> (case split_once CHR '','' rest of Some (_, raw) \<Rightarrow> raw | None \<Rightarrow> s)
      | None \<Rightarrow> s)"

definition sniff_image_mime :: "u8 list \<Rightarrow> string option" where
  "sniff_image_mime bs =
     (if take 4 bs = [0x89, 0x50, 0x4E, 0x47] then Some ''image/png''
      else if take 3 bs = [0xFF, 0xD8, 0xFF] then Some ''image/jpeg''
      else if take 4 bs = [0x47, 0x49, 0x46, 0x38] then Some ''image/gif''
      else if take 4 bs = [0x52, 0x49, 0x46, 0x46] \<and> take 4 (drop 8 bs) = [0x57, 0x45, 0x42, 0x50]
      then Some ''image/webp''
      else None)"

definition image_mime :: "string \<Rightarrow> string option" where
  "image_mime ct =
     (let t = to_ascii_lowercase (trim (hd (split_on CHR '';'' ct)))
      in if t = ''image/png'' then Some ''image/png''
         else if t = ''image/jpeg'' \<or> t = ''image/jpg'' then Some ''image/jpeg''
         else if t = ''image/gif'' then Some ''image/gif''
         else if t = ''image/webp'' then Some ''image/webp''
         else None)"

definition data_uri_mime :: "string \<Rightarrow> string option" where
  "data_uri_mime s =
     (case strip_prefix ''data:'' s of
        None \<Rightarrow> None
      | Some rest \<Rightarrow>
          opt_filter (\<lambda>m. m \<noteq> []) (Some (hd (split_on CHR '';'' (hd (split_on CHR '','' rest))))))"

definition base64_data_uri :: "(string \<Rightarrow> string + u8 list) \<Rightarrow> string \<Rightarrow> string option \<Rightarrow> string" where
  "base64_data_uri decode b64 hint =
     (let sniffed = (case decode (take 16 b64) of Inr b \<Rightarrow> sniff_image_mime b | Inl _ \<Rightarrow> None);
          mime = unwrap_or ''application/octet-stream''
            (opt_or sniffed (Option.bind hint image_mime))
      in ''data:'' @ mime @ '';base64,'' @ b64)"

section \<open>Conversion\<close>

definition multipart_field ::
  "(string \<times> string) list \<Rightarrow> string \<Rightarrow> u8 list \<Rightarrow> string \<Rightarrow> materialize_error + materialized_form" where
  "multipart_field field_map role bytes ct =
     (case map_of field_map role of
        Some fname \<Rightarrow> Inr (MatMultipart fname bytes ct)
      | None \<Rightarrow> Inl (NoFieldMap role))"

fun convert ::
  "(u8 list \<Rightarrow> string) \<Rightarrow> (string \<Rightarrow> string + u8 list) \<Rightarrow> 'w net \<Rightarrow> materialize_context
   \<Rightarrow> string \<Rightarrow> ref_image_kind \<Rightarrow> string \<Rightarrow> ref_provider_format \<Rightarrow> 'w
   \<Rightarrow> (materialize_error + materialized_form) \<times> 'w" where
  "convert enc decode net ctx role RefUrl v FormUrl w = (Inr (MatUrl v), w)"
| "convert enc decode net ctx role RefBase64 v FormBase64 w = (Inr (MatBase64 (strip_data_prefix v)), w)"
| "convert enc decode net ctx role RefBlob v (FormMultipart fm) w =
     (case ctx v of
        None \<Rightarrow> (Inl (BlobMissing v), w)
      | Some (bytes, ct) \<Rightarrow> (multipart_field fm role bytes ct, w))"
| "convert enc decode net ctx role RefUrl v FormBase64 w =
     (case fetch_url net v w of
        (Inl e, w') \<Rightarrow> (Inl e, w')
      | (Inr bytes, w') \<Rightarrow> (Inr (MatBase64 (enc bytes)), w'))"
| "convert enc decode net ctx role RefUrl v (FormMultipart fm) w =
     (case fetch_url net v w of
        (Inl e, w') \<Rightarrow> (Inl e, w')
      | (Inr bytes, w') \<Rightarrow> (multipart_field fm role bytes ''application/octet-stream'', w'))"
| "convert enc decode net ctx role RefBase64 v FormUrl w =
     (let raw = strip_data_prefix v
      in case decode raw of
           Inl e \<Rightarrow> (Inl (DecodeFailed e), w)
         | Inr _ \<Rightarrow> (Inr (MatUrl (base64_data_uri decode raw (data_uri_mime v))), w))"
| "convert enc decode net ctx role RefBase64 v (FormMultipart fm) w =
     (case decode (strip_data_prefix v) of
        Inl e \<Rightarrow> (Inl (DecodeFailed e), w)
      | Inr bytes \<Rightarrow> (multipart_field fm role bytes ''application/octet-stream'', w))"
| "convert enc decode net ctx role RefBlob v FormUrl w =
     (case ctx v of
        None \<Rightarrow> (Inl (BlobMissing v), w)
      | Some (bytes, ct) \<Rightarrow>
          (let mime = opt_or (sniff_image_mime bytes) (image_mime ct)
           in (Inr (MatUrl (''data:'' @ unwrap_or ''application/octet-stream'' mime @ '';base64,''
                 @ enc bytes)), w)))"
| "convert enc decode net ctx role RefBlob v FormBase64 w =
     (case ctx v of
        None \<Rightarrow> (Inl (BlobMissing v), w)
      | Some (bytes, ct) \<Rightarrow> (Inr (MatBase64 (enc bytes)), w))"

fun convert_all ::
  "(u8 list \<Rightarrow> string) \<Rightarrow> (string \<Rightarrow> string + u8 list) \<Rightarrow> 'w net \<Rightarrow> materialize_context
   \<Rightarrow> ref_input_spec \<Rightarrow> reference_image list \<Rightarrow> 'w
   \<Rightarrow> (materialize_error + materialized_ref list) \<times> 'w" where
  "convert_all enc decode net ctx ri [] w = (Inr [], w)"
| "convert_all enc decode net ctx ri (r # rs) w =
     (case opt_or (ri_role r) (rs_default_role ri) of
        None \<Rightarrow> (Inl MissingRole, w)
      | Some role \<Rightarrow>
          (case convert enc decode net ctx role (ri_kind r) (ri_value r) (rs_provider_format ri) w of
             (Inl e, w') \<Rightarrow> (Inl e, w')
           | (Inr form, w') \<Rightarrow>
               (case convert_all enc decode net ctx ri rs w' of
                  (Inl e, w'') \<Rightarrow> (Inl e, w'')
                | (Inr out, w'') \<Rightarrow> (Inr (\<lparr>mf_role = role, mf_form = form\<rparr> # out), w''))))"

definition materialize ::
  "(u8 list \<Rightarrow> string) \<Rightarrow> (string \<Rightarrow> string + u8 list) \<Rightarrow> 'w net \<Rightarrow> model_schema
   \<Rightarrow> reference_image list \<Rightarrow> materialize_context \<Rightarrow> 'w
   \<Rightarrow> (materialize_error + materialized_ref list) \<times> 'w" where
  "materialize enc decode net schema refs ctx w =
     (case ms_ref_inputs schema of
        None \<Rightarrow> (Inr [], w)
      | Some ri \<Rightarrow> convert_all enc decode net ctx ri refs w)"

section \<open>Properties\<close>

lemma read_chunks_iff:
  "length buf \<le> mx \<Longrightarrow>
   read_chunks mx buf cs = Inr b \<longleftrightarrow>
     (\<exists>ds. cs = map Inr ds \<and> b = buf @ concat ds \<and> length b \<le> mx)"
proof (induction mx buf cs rule: read_chunks.induct)
  case (3 mx buf c cs)
  have *: "(\<exists>ds. Inr c # cs = map Inr ds \<and> b = buf @ concat ds \<and> length b \<le> mx) \<longleftrightarrow>
      (\<exists>ds. cs = map Inr ds \<and> b = (buf @ c) @ concat ds \<and> length b \<le> mx)"
    by (auto simp: Cons_eq_map_conv)
  show ?case
  proof (cases "mx < length buf + length c")
    case True
    then show ?thesis unfolding * by auto
  next
    case False
    with 3 show ?thesis unfolding * by simp
  qed
qed auto

text \<open>
  A reference image is read completely or not at all: reading succeeds exactly when the declared
  length, if there is one, and the sum of the chunks that arrive stay within the limit and no
  chunk fails, and then the result is the concatenation of the chunks; a dishonest declared length
  cannot make the buffer exceed the limit.
\<close>

theorem body_read_iff_within_cap:
  "read_body_capped resp mx = Inr b \<longleftrightarrow>
     (case hr_content_length resp of Some len \<Rightarrow> len \<le> mx | None \<Rightarrow> True)
     \<and> (\<exists>cs. hr_chunks resp = map Inr cs \<and> b = concat cs \<and> length b \<le> mx)"
  by (auto simp: read_body_capped_def read_chunks_iff split: option.splits)






definition form_matches :: "ref_provider_format \<Rightarrow> string \<Rightarrow> materialized_form \<Rightarrow> bool" where
  "form_matches f role m =
     (case (f, m) of
        (FormUrl, MatUrl _) \<Rightarrow> True
      | (FormBase64, MatBase64 _) \<Rightarrow> True
      | (FormMultipart fm, MatMultipart fname _ _) \<Rightarrow> map_of fm role = Some fname
      | _ \<Rightarrow> False)"

lemma multipart_form:
  "multipart_field fm role b ct = Inr m \<Longrightarrow> form_matches (FormMultipart fm) role m"
  by (auto simp: multipart_field_def form_matches_def split: option.splits)

lemma convert_form:
  "convert enc dec net ctx role k v f w = (Inr m, w') \<Longrightarrow> form_matches f role m"
  by (cases k; cases f)
    (auto simp: form_matches_def Let_def dest!: multipart_form
      split: option.splits prod.splits sum.splits)

definition ref_matches :: "ref_input_spec \<Rightarrow> reference_image \<Rightarrow> materialized_ref \<Rightarrow> bool" where
  "ref_matches ri r m =
     (opt_or (ri_role r) (rs_default_role ri) = Some (mf_role m)
      \<and> form_matches (rs_provider_format ri) (mf_role m) (mf_form m))"

lemma convert_all_matches:
  "convert_all enc dec net ctx ri refs w = (Inr out, w') \<Longrightarrow> list_all2 (ref_matches ri) refs out"
proof (induction refs arbitrary: w out)
  case (Cons r rs)
  then show ?case
    by (auto simp: ref_matches_def dest: convert_form split: option.splits prod.splits sum.splits)
qed simp

text \<open>
  What a provider gets: one reference per reference of the request, in the same order, each with
  its own role or the schema's default one, and in the form the schema asks for; a multipart
  reference goes to the field the schema maps its role to.
\<close>

theorem materialized_refs_match_schema:
  assumes "materialize enc dec net schema refs ctx w = (Inr out, w')"
    and "ms_ref_inputs schema = Some ri"
  shows "list_all2 (ref_matches ri) refs out"
  using assms by (simp add: materialize_def convert_all_matches)

theorem materialized_refs_match_schema_witness:
  "\<exists>ri. list_all2 (ref_matches ri)
     [\<lparr>ri_kind = RefBase64, ri_value = ''data:image/png;base64,AAAA'', ri_role = None\<rparr>]
     [\<lparr>mf_role = ''start'', mf_form = MatBase64 ''AAAA''\<rparr>]"
proof -
  let ?ri = "\<lparr>rs_max_total = 1, rs_default_role = Some ''start'', rs_provider_format = FormBase64,
      rs_roles = [(''start'', \<lparr>rr_required = False, rr_min_count = 0, rr_max_count = 1\<rparr>)]\<rparr>"
  let ?net = "\<lparr>nt_parse = \<lambda>_. Inl [], nt_parse_ip = \<lambda>_. None, nt_lookup = \<lambda>_ _ _. Inl [],
      nt_get = \<lambda>_ w. (Inl [], w)\<rparr> :: unit net"
  have "materialize (\<lambda>_. []) (\<lambda>_. Inl []) ?net (example_model\<lparr>ms_ref_inputs := Some ?ri\<rparr>)
      [\<lparr>ri_kind = RefBase64, ri_value = ''data:image/png;base64,AAAA'', ri_role = None\<rparr>]
      Map.empty () = (Inr [\<lparr>mf_role = ''start'', mf_form = MatBase64 ''AAAA''\<rparr>], ())"
    by (simp add: materialize_def strip_data_prefix_def)
  from materialized_refs_match_schema [OF this] show ?thesis by auto
qed

lemma mime_ranges:
  "sniff_image_mime bs \<in> {None, Some ''image/png'', Some ''image/jpeg'', Some ''image/gif'', Some ''image/webp''}"
  "image_mime ct \<in> {None, Some ''image/png'', Some ''image/jpeg'', Some ''image/gif'', Some ''image/webp''}"
  unfolding sniff_image_mime_def image_mime_def Let_def by simp_all

lemma mime_no_comma:
  "sniff_image_mime bs = Some m \<Longrightarrow> CHR '','' \<notin> set m"
  "image_mime ct = Some m \<Longrightarrow> CHR '','' \<notin> set m"
  using mime_ranges(1) [of bs] mime_ranges(2) [of ct] by auto

text \<open>
  The inline data URI of an uploaded base64 image carries exactly the caller's base64 text:
  stripping the prefix gives it back, whatever the declared type and whatever was sniffed.
\<close>

theorem data_uri_roundtrip: "strip_data_prefix (base64_data_uri decode raw hint) = raw"
proof -
  define m where "m = unwrap_or ''application/octet-stream''
      (opt_or (case decode (take 16 raw) of Inr b \<Rightarrow> sniff_image_mime b | Inl _ \<Rightarrow> None)
        (Option.bind hint image_mime))"
  have "CHR '','' \<notin> set m"
  proof -
    let ?s = "case decode (take 16 raw) of Inr b \<Rightarrow> sniff_image_mime b | Inl _ \<Rightarrow> None"
    have s: "CHR '','' \<notin> set t" if "?s = Some t" for t
      using that mime_no_comma(1) by (auto split: sum.splits)
    have h: "CHR '','' \<notin> set t" if "Option.bind hint image_mime = Some t" for t
      using that mime_no_comma(2) by (auto simp: bind_eq_Some_conv)
    show ?thesis
      by (cases ?s; cases "Option.bind hint image_mime") (use s h in \<open>auto simp: m_def\<close>)
  qed
  moreover have u: "base64_data_uri decode raw hint = ''data:'' @ m @ '';base64,'' @ raw"
    by (simp add: base64_data_uri_def m_def Let_def)
  ultimately have "split_once CHR '','' (m @ '';base64,'' @ raw) = Some (m @ '';base64'', raw)"
    by (simp add: split_once_Some)
  moreover have "strip_prefix ''data:'' (''data:'' @ m @ '';base64,'' @ raw) = Some (m @ '';base64,'' @ raw)"
    by (simp only: strip_prefix_Some)
  ultimately show ?thesis by (simp only: strip_data_prefix_def u option.case prod.case)
qed

end
