(* ===== verification/Router.thy ===== *)
theory Router
  imports Registry CircuitBreaker Cache Materializer
begin

text \<open>
  The proxy router (\<open>proxy/router.rs\<close>): from a validated request to a provider's answer, through
  the cache, the configured routes with their strategies, retries and the circuit breaker.

  The router's state is one record, threaded through every operation. What is outside of it is
  the record \<open>gateway\<close> of arguments: the clock, the identifiers, the hash of the weighted strategy
  and the providers' calls. A provider's call takes the whole state and returns it: while a request
  waits for an upstream, others run, and may change breaker, latencies, registry and jobs in any
  way. A call ends with an answer, an error or the router's own timeout (\<open>attempt\<close>). Beside its
  result a dispatch returns the calls it made, in order; they are observations only.
\<close>

section \<open>State and environment\<close>

datatype 'o attempt = AttemptOk 'o | AttemptErr provider_error | AttemptTimeout

record runtime_overrides =
  ov_model_routes :: "model_route_config list option"
  ov_gateway :: gateway_settings

record 'w router =
  rt_registry :: provider_registry
  rt_cache :: generation_cache
  rt_config_markup :: f64
  rt_config_routes :: "model_route_config list"
  rt_image_store :: string
  rt_latency :: "string \<rightharpoonup> u64 list"
  rt_jobs :: "string \<rightharpoonup> video_handle"
  rt_breaker :: circuit_breaker
  rt_overrides :: runtime_overrides
  rt_world :: 'w

record 'w gateway =
  gw_now :: "'w router \<Rightarrow> instant"
  gw_timestamp :: "'w router \<Rightarrow> i64"
  gw_uuid :: "'w router \<Rightarrow> string \<times> 'w router"
  gw_hash :: "string \<Rightarrow> string \<Rightarrow> u64"
  gw_codec :: codec
  gw_base64 :: "u8 list \<Rightarrow> string"
  gw_store :: "string \<Rightarrow> u8 list \<Rightarrow> string \<Rightarrow> string \<Rightarrow> 'w router \<Rightarrow> string option \<times> 'w router"
  gw_image :: "provider_instance \<Rightarrow> model_schema \<Rightarrow> base_request \<Rightarrow> image_extras
     \<Rightarrow> materialized_ref list \<Rightarrow> u64 \<Rightarrow> 'w router \<Rightarrow> generation_output attempt \<times> 'w router"
  gw_video :: "provider_instance \<Rightarrow> model_schema \<Rightarrow> base_request \<Rightarrow> video_extras
     \<Rightarrow> materialized_ref list \<Rightarrow> u64 \<Rightarrow> 'w router \<Rightarrow> video_handle attempt \<times> 'w router"
  gw_poll :: "provider_instance \<Rightarrow> video_handle \<Rightarrow> 'w router
     \<Rightarrow> (provider_error + video_poll_result) \<times> 'w router"
  gw_image_cost :: "provider_instance \<Rightarrow> model_schema \<Rightarrow> image_request \<Rightarrow> 'w router
     \<Rightarrow> (provider_error + cost_estimate) \<times> 'w router"
  gw_video_cost :: "provider_instance \<Rightarrow> model_schema \<Rightarrow> video_request \<Rightarrow> 'w router
     \<Rightarrow> (provider_error + cost_estimate) \<times> 'w router"

datatype proxy_error =
  ModelNotFound string
| ProviderNotConfigured string
| NoDeployments string
| AllDeploymentsFailed string "string option"
| ProviderFailed string string bool
| Internal string
| NotFound string

fun proxy_status_code :: "proxy_error \<Rightarrow> nat" where
  "proxy_status_code (ModelNotFound _) = 404"
| "proxy_status_code (ProviderNotConfigured _) = 424"
| "proxy_status_code (NoDeployments _) = 503"
| "proxy_status_code (AllDeploymentsFailed _ _) = 502"
| "proxy_status_code (ProviderFailed _ _ retryable) = (if retryable then 502 else 400)"
| "proxy_status_code (Internal _) = 500"
| "proxy_status_code (NotFound _) = 404"

section \<open>Settings in effect\<close>

definition cost_markup_percent :: "'w router \<Rightarrow> f64" where
  "cost_markup_percent s =
     unwrap_or (rt_config_markup s) (gs_cost_markup_percent (ov_gateway (rt_overrides s)))"

definition model_routes :: "'w router \<Rightarrow> model_route_config list" where
  "model_routes s = unwrap_or (rt_config_routes s) (ov_model_routes (rt_overrides s))"

definition set_overrides :: "runtime_overrides \<Rightarrow> 'w router \<Rightarrow> 'w router" where
  "set_overrides ov s = s\<lparr>rt_overrides := ov\<rparr>"

section \<open>Latency history\<close>

definition LATENCY_HISTORY_CAP :: nat where "LATENCY_HISTORY_CAP = 16"

definition push_latency :: "u64 \<Rightarrow> u64 list \<Rightarrow> u64 list" where
  "push_latency ms deque =
     (let deque' = deque @ [ms] in if LATENCY_HISTORY_CAP < length deque' then tl deque' else deque')"

definition record_latency :: "string \<Rightarrow> u64 \<Rightarrow> 'w router \<Rightarrow> 'w router" where
  "record_latency provider ms s =
     s\<lparr>rt_latency := (rt_latency s)(provider \<mapsto> push_latency ms (unwrap_or [] (rt_latency s provider)))\<rparr>"

text \<open>The sum wraps at 64 bits.\<close>

definition avg_latency :: "'w router \<Rightarrow> string \<Rightarrow> u64" where
  "avg_latency s provider =
     (case rt_latency s provider of
        Some deque \<Rightarrow> if deque = [] then - 1 else sum_list deque div of_nat (length deque)
      | None \<Rightarrow> - 1)"

definition elapsed_ms :: "instant \<Rightarrow> instant \<Rightarrow> u64" where
  "elapsed_ms t0 now = of_nat ((now - t0) div 10 ^ 6)"

section \<open>Routes\<close>

definition eq_ignore_ascii_case :: "string \<Rightarrow> string \<Rightarrow> bool" where
  "eq_ignore_ascii_case a b = (to_ascii_lowercase a = to_ascii_lowercase b)"

definition route_matches :: "string \<Rightarrow> string \<Rightarrow> bool" where
  "route_matches pattern model =
     (if pattern = ''*'' then True
      else case strip_suffix ''/*'' pattern of
        Some prefix \<Rightarrow> starts_with prefix model
      | None \<Rightarrow> eq_ignore_ascii_case pattern model)"

definition route_of_config :: "model_route_config \<Rightarrow> model_route" where
  "route_of_config rc =
     \<lparr>mr_model = rc_model rc,
      mr_deployments = map (\<lambda>d. \<lparr>dp_provider = dc_provider d, dp_weight = dc_weight d,
        dp_max_retries = dc_max_retries d, dp_timeout_seconds = dc_timeout_seconds d,
        dp_rpm_limit = dc_rpm_limit d, dp_respect_health = True\<rparr>) (rc_deployments rc),
      mr_strategy =
        (if rc_strategy rc = Some ''weighted_round_robin'' then WeightedRoundRobin
         else if rc_strategy rc = Some ''lowest_cost'' then LowestCost
         else if rc_strategy rc = Some ''lowest_latency'' then LowestLatency
         else Fallback),
      mr_cache = map_option (\<lambda>c. \<lparr>cc_enabled = cx_enabled c, cc_ttl_seconds = cx_ttl_seconds c,
        cc_max_items = 1000\<rparr>) (rc_cache rc)\<rparr>"

definition find_model_route :: "'w router \<Rightarrow> string \<Rightarrow> model_route option" where
  "find_model_route s model =
     map_option route_of_config (find (\<lambda>rc. route_matches (rc_model rc) model) (model_routes s))"

section \<open>Fallback\<close>

definition report_success :: "'w gateway \<Rightarrow> string \<Rightarrow> instant \<Rightarrow> 'w router \<Rightarrow> 'w router" where
  "report_success gw provider t0 s =
     (let s' = record_latency provider (elapsed_ms t0 (gw_now gw s)) s
      in s'\<lparr>rt_breaker := record_success provider (rt_breaker s')\<rparr>)"

definition report_failure :: "'w gateway \<Rightarrow> string \<Rightarrow> 'w router \<Rightarrow> 'w router" where
  "report_failure gw provider s =
     s\<lparr>rt_breaker := record_failure provider (gw_now gw s) (rt_breaker s)\<rparr>"

text \<open>
  The inner loop for one deployment with \<open>n\<close> retries left. The result is the provider's answer or
  the last error.
\<close>

fun attempts ::
  "'w gateway \<Rightarrow> ('w router \<Rightarrow> 'o attempt \<times> 'w router) \<Rightarrow> deployment \<Rightarrow> nat \<Rightarrow> 'w router
   \<Rightarrow> 'o attempt list \<times> (provider_error + 'o) \<times> 'w router" where
  "attempts gw call d n s =
     (let t0 = gw_now gw s; (r, s1) = call s
      in case r of
           AttemptOk out \<Rightarrow> ([r], Inr out, report_success gw (dp_provider d) t0 s1)
         | AttemptErr e \<Rightarrow>
             (let s2 = report_failure gw (dp_provider d) s1
              in if \<not> is_retryable e then ([r], Inl e, s2)
                 else case n of
                     0 \<Rightarrow> ([r], Inl e, s2)
                   | Suc m \<Rightarrow> (let (rs, x, s3) = attempts gw call d m s2 in (r # rs, x, s3)))
         | AttemptTimeout \<Rightarrow>
             (let s2 = report_failure gw (dp_provider d) s1;
                  e = Timeout (dp_timeout_seconds d * 1000)
              in case n of
                   0 \<Rightarrow> ([r], Inl e, s2)
                 | Suc m \<Rightarrow> (let (rs, x, s3) = attempts gw call d m s2 in (r # rs, x, s3))))"

declare attempts.simps [simp del]

text \<open>
  The loop over the deployments, shared by images and videos: \<open>lookup\<close> is the registry and \<open>call\<close>
  the provider's generation with a timeout in seconds.
\<close>

fun fallback ::
  "'w gateway \<Rightarrow> (string \<Rightarrow> 'w router \<Rightarrow> provider_instance option)
   \<Rightarrow> (provider_instance \<Rightarrow> u64 \<Rightarrow> 'w router \<Rightarrow> 'o attempt \<times> 'w router)
   \<Rightarrow> string \<Rightarrow> deployment list \<Rightarrow> provider_error option \<Rightarrow> 'w router
   \<Rightarrow> (string \<times> 'o attempt) list \<times> (proxy_error + string \<times> 'o) \<times> 'w router" where
  "fallback gw lookup call model [] last_error s =
     ([], Inl (AllDeploymentsFailed model (map_option provider_error_string last_error)), s)"
| "fallback gw lookup call model (d # ds) last_error s =
     (if breaker_is_open (rt_breaker s) (gw_now gw s) (dp_provider d)
      then fallback gw lookup call model ds (Some (NotConfigured (dp_provider d))) s
      else case lookup (dp_provider d) s of
          None \<Rightarrow> fallback gw lookup call model ds (Some (NotConfigured (dp_provider d))) s
        | Some p \<Rightarrow>
            (let (rs, x, s') =
                attempts gw (call p (dp_timeout_seconds d)) d (unat (dp_max_retries d)) s;
                 here = map (\<lambda>r. (dp_provider d, r)) rs
             in case x of
                  Inr out \<Rightarrow> (here, Inr (dp_provider d, out), s')
                | Inl e \<Rightarrow>
                    (let (calls, res, s'') = fallback gw lookup call model ds (Some e) s'
                     in (here @ calls, res, s''))))"

definition fallback_image where
  "fallback_image gw schema base extras mats deployments creds s =
     fallback gw (\<lambda>name s. image_provider_for_request name creds (rt_registry s))
       (\<lambda>p t. gw_image gw p schema base extras mats t) (ms_id schema) deployments None s"

definition fallback_video where
  "fallback_video gw schema base extras mats deployments creds s =
     fallback gw (\<lambda>name s. video_provider_for_request name creds (rt_registry s))
       (\<lambda>p t. gw_video gw p schema base extras mats t) (ms_id schema) deployments None s"

section \<open>Strategies\<close>

text \<open>
  The weighted order: the primary deployment is the schedule's entry at the slot, then the others
  in their order. The schedule is not empty when there is a deployment.
\<close>

definition weighted_order :: "u64 \<Rightarrow> deployment list \<Rightarrow> deployment list" where
  "weighted_order slot deployments =
     (let schedule = build_weighted_schedule (map dp_weight deployments);
          primary = schedule ! (unat slot mod length schedule)
      in deployments ! primary
         # map snd (filter (\<lambda>(i, d). i \<noteq> primary) (enumerate 0 deployments)))"

definition weighted_image where
  "weighted_image gw schema base extras mats deployments creds s =
     (if deployments = [] then ([], Inl (NoDeployments (ms_id schema)), s)
      else fallback_image gw schema base extras mats
        (weighted_order (gw_hash gw (br_prompt base) (ms_id schema)) deployments) creds s)"

definition weighted_video where
  "weighted_video gw schema base extras mats deployments creds s =
     (if deployments = [] then ([], Inl (NoDeployments (ms_id schema)), s)
      else fallback_video gw schema base extras mats
        (weighted_order (gw_hash gw (br_prompt base) (ms_id schema)) deployments) creds s)"

text \<open>The estimates of all deployments, in order; \<open>f64::MAX\<close> where there is none.\<close>

fun estimate_all ::
  "(string \<Rightarrow> 'w router \<Rightarrow> provider_instance option)
   \<Rightarrow> (provider_instance \<Rightarrow> 'w router \<Rightarrow> (provider_error + cost_estimate) \<times> 'w router)
   \<Rightarrow> deployment list \<Rightarrow> 'w router \<Rightarrow> (f64 \<times> deployment) list \<times> 'w router" where
  "estimate_all lookup estimate [] s = ([], s)"
| "estimate_all lookup estimate (d # ds) s =
     (let (cost, s1) =
        (case lookup (dp_provider d) s of
           None \<Rightarrow> (f64_max, s)
         | Some p \<Rightarrow>
             (case estimate p s of
                (Inr c, s') \<Rightarrow> (ce_total_cost_usd c, s')
              | (Inl _, s') \<Rightarrow> (f64_max, s')));
          (rest, s2) = estimate_all lookup estimate ds s1
      in ((cost, d) # rest, s2))"

definition by_cost :: "(f64 \<times> deployment) list \<Rightarrow> deployment list" where
  "by_cost costs = map snd (sort_key fst costs)"

definition lowest_cost_image where
  "lowest_cost_image gw schema base extras mats deployments creds s =
     (let dummy = \<lparr>ir_base = base, ir_size = ie_size extras, ir_aspect_ratio = ie_aspect_ratio extras,
            ir_quality = ie_quality extras, ir_style = ie_style extras, ir_steps = ie_steps extras,
            ir_guidance_scale = ie_guidance_scale extras, ir_strength = ie_strength extras,
            ir_response_format = ie_response_format extras\<rparr>;
          (costs, s') = estimate_all
            (\<lambda>name s. image_provider_for_request name creds (rt_registry s))
            (\<lambda>p. gw_image_cost gw p schema dummy) deployments s
      in fallback_image gw schema base extras mats (by_cost costs) creds s')"

definition lowest_cost_video where
  "lowest_cost_video gw schema base extras mats deployments creds s =
     (let dummy = \<lparr>vr_base = base, vr_duration_seconds = Some (ve_duration_seconds extras),
            vr_aspect_ratio = ve_aspect_ratio extras, vr_resolution = ve_resolution extras,
            vr_fps = ve_fps extras\<rparr>;
          (costs, s') = estimate_all
            (\<lambda>name s. video_provider_for_request name creds (rt_registry s))
            (\<lambda>p. gw_video_cost gw p schema dummy) deployments s
      in fallback_video gw schema base extras mats (by_cost costs) creds s')"

definition latency_order :: "'w router \<Rightarrow> deployment list \<Rightarrow> deployment list" where
  "latency_order s deployments =
     map snd (sort_key fst (map (\<lambda>d. (avg_latency s (dp_provider d), d)) deployments))"

definition lowest_latency_image where
  "lowest_latency_image gw schema base extras mats deployments creds s =
     fallback_image gw schema base extras mats (latency_order s deployments) creds s"

definition lowest_latency_video where
  "lowest_latency_video gw schema base extras mats deployments creds s =
     fallback_video gw schema base extras mats (latency_order s deployments) creds s"

definition execute_route_image where
  "execute_route_image gw schema base extras mats route creds s =
     (case mr_strategy route of
        Fallback \<Rightarrow> fallback_image gw schema base extras mats (mr_deployments route) creds s
      | WeightedRoundRobin \<Rightarrow> weighted_image gw schema base extras mats (mr_deployments route) creds s
      | LowestCost \<Rightarrow> lowest_cost_image gw schema base extras mats (mr_deployments route) creds s
      | LowestLatency \<Rightarrow> lowest_latency_image gw schema base extras mats (mr_deployments route) creds s)"

definition execute_route_video where
  "execute_route_video gw schema base extras mats route creds s =
     (case mr_strategy route of
        Fallback \<Rightarrow> fallback_video gw schema base extras mats (mr_deployments route) creds s
      | WeightedRoundRobin \<Rightarrow> weighted_video gw schema base extras mats (mr_deployments route) creds s
      | LowestCost \<Rightarrow> lowest_cost_video gw schema base extras mats (mr_deployments route) creds s
      | LowestLatency \<Rightarrow> lowest_latency_video gw schema base extras mats (mr_deployments route) creds s)"

section \<open>Direct dispatch\<close>

text \<open>Without a route: the schema's own provider, at most three calls, no circuit breaker.\<close>

fun direct_attempts ::
  "'w gateway \<Rightarrow> ('w router \<Rightarrow> 'o attempt \<times> 'w router) \<Rightarrow> string \<Rightarrow> nat \<Rightarrow> 'w router
   \<Rightarrow> 'o attempt list \<times> (provider_error + 'o) \<times> 'w router" where
  "direct_attempts gw call provider n s =
     (let t0 = gw_now gw s; (r, s1) = call s
      in case r of
           AttemptOk out \<Rightarrow>
             ([r], Inr out, record_latency provider (elapsed_ms t0 (gw_now gw s1)) s1)
         | AttemptErr e \<Rightarrow>
             (if \<not> is_retryable e then ([r], Inl e, s1)
              else case n of
                  0 \<Rightarrow> ([r], Inl e, s1)
                | Suc m \<Rightarrow> (let (rs, x, s2) = direct_attempts gw call provider m s1 in (r # rs, x, s2)))
         | AttemptTimeout \<Rightarrow>
             (case n of
                0 \<Rightarrow> ([r], Inl (Timeout 120000), s1)
              | Suc m \<Rightarrow> (let (rs, x, s2) = direct_attempts gw call provider m s1 in (r # rs, x, s2))))"

declare direct_attempts.simps [simp del]

definition direct_dispatch ::
  "'w gateway \<Rightarrow> (string \<Rightarrow> 'w router \<Rightarrow> provider_instance option)
   \<Rightarrow> (provider_instance \<Rightarrow> u64 \<Rightarrow> 'w router \<Rightarrow> 'o attempt \<times> 'w router)
   \<Rightarrow> model_schema \<Rightarrow> 'w router
   \<Rightarrow> (string \<times> 'o attempt) list \<times> (proxy_error + string \<times> 'o) \<times> 'w router" where
  "direct_dispatch gw lookup call schema s =
     (case lookup (ms_provider schema) s of
        None \<Rightarrow> ([], Inl (ProviderNotConfigured (ms_provider schema)), s)
      | Some p \<Rightarrow>
          (let (rs, x, s') = direct_attempts gw (call p 120) (ms_provider schema) 2 s;
               calls = map (\<lambda>r. (ms_provider schema, r)) rs
           in case x of
                Inr out \<Rightarrow> (calls, Inr (ms_provider schema, out), s')
              | Inl e \<Rightarrow>
                  (calls, Inl (AllDeploymentsFailed (ms_id schema) (Some (provider_error_string e))), s')))"

definition dispatch_image where
  "dispatch_image gw schema base extras mats creds s =
     (case find_model_route s (ms_id schema) of
        Some route \<Rightarrow> execute_route_image gw schema base extras mats route creds s
      | None \<Rightarrow> direct_dispatch gw (\<lambda>name s. image_provider_for_request name creds (rt_registry s))
          (\<lambda>p t. gw_image gw p schema base extras mats t) schema s)"

definition dispatch_video where
  "dispatch_video gw schema base extras mats creds s =
     (case find_model_route s (ms_id schema) of
        Some route \<Rightarrow> execute_route_video gw schema base extras mats route creds s
      | None \<Rightarrow> direct_dispatch gw (\<lambda>name s. video_provider_for_request name creds (rt_registry s))
          (\<lambda>p t. gw_video gw p schema base extras mats t) schema s)"

section \<open>Images\<close>

definition build_image_results ::
  "'w gateway \<Rightarrow> generation_output \<Rightarrow> image_extras \<Rightarrow> string \<Rightarrow> 'w router
   \<Rightarrow> image_result list \<times> 'w router" where
  "build_image_results gw out extras store s =
     (let revised = Option.bind (map_of (go_metadata out) ''revised_prompt'') json_string;
          (generation_id, s1) = gw_uuid gw s;
          (stored, s2) = gw_store gw store (go_data out) (go_content_type out) generation_id s1;
          b64 = gw_base64 gw (go_data out);
          (url, b64_json) =
            (case stored of
               Some u \<Rightarrow> if ie_response_format extras = ''b64_json'' then (Some u, Some b64) else (Some u, None)
             | None \<Rightarrow> (None, Some b64))
      in ([\<lparr>im_url = url, im_b64_json = b64_json, im_revised_prompt = revised,
            im_content_type = go_content_type out, im_index = 0\<rparr>], s2))"

definition usage_for :: "'w router \<Rightarrow> model_schema \<Rightarrow> f64 \<Rightarrow> usage_info" where
  "usage_for s schema produced =
     (let base_cost = f64_mul (mp_base_cost_usd (ms_pricing schema)) produced;
          (markup, total) = apply_markup base_cost (cost_markup_percent s)
      in \<lparr>us_cost_usd = total, us_tokens = usd_to_tokens total (round_f64 (1 / 1000)),
          us_cost_source = Estimated\<rparr>)"

definition generate_image ::
  "'w gateway \<Rightarrow> model_schema \<Rightarrow> base_request \<Rightarrow> image_extras \<Rightarrow> materialized_ref list
   \<Rightarrow> provider_credentials option \<Rightarrow> string option \<Rightarrow> string option \<Rightarrow> 'w router
   \<Rightarrow> (proxy_error + image_response) \<times> 'w router" where
  "generate_image gw schema base extras mats creds app_store tenant s =
     (case get_image (gw_codec gw) tenant (ms_id schema) base extras (rt_cache s) of
        Some cached \<Rightarrow> (Inr cached, s)
      | None \<Rightarrow>
          (case dispatch_image gw schema base extras mats creds s of
             (calls, Inl e, s1) \<Rightarrow> (Inl e, s1)
           | (calls, Inr (provider_name, out), s1) \<Rightarrow>
               (let (data, s2) = build_image_results gw out extras
                      (unwrap_or (rt_image_store s1) app_store) s1;
                    produced = of_nat (max (length data) 1);
                    usage = usage_for s2 schema produced;
                    (uuid, s3) = gw_uuid gw s2;
                    response = \<lparr>ig_created = gw_timestamp gw s2, ig_data = data,
                      ig_model = ms_id schema, ig_provider = provider_name, ig_usage = Some usage,
                      ig_id = ''litegen-img-'' @ uuid\<rparr>
                in (Inr response,
                    s3\<lparr>rt_cache := put_image (gw_codec gw) tenant (ms_id schema) base extras response
                         (rt_cache s3)\<rparr>))))"

section \<open>Videos\<close>

definition generate_video ::
  "'w gateway \<Rightarrow> model_schema \<Rightarrow> base_request \<Rightarrow> video_extras \<Rightarrow> materialized_ref list
   \<Rightarrow> provider_credentials option \<Rightarrow> 'w router \<Rightarrow> (proxy_error + video_response) \<times> 'w router" where
  "generate_video gw schema base extras mats creds s =
     (case dispatch_video gw schema base extras mats creds s of
        (calls, Inl e, s1) \<Rightarrow> (Inl e, s1)
      | (calls, Inr (provider_name, handle), s1) \<Rightarrow>
          (let usage = usage_for s1 schema 1;
               (uuid, s2) = gw_uuid gw s1;
               local_id = ''litegen-vid-'' @ uuid;
               s3 = s2\<lparr>rt_jobs := (rt_jobs s2)(local_id \<mapsto> handle)\<rparr>
           in (Inr \<lparr>vg_id = local_id, vg_status = Pending, vg_model = ms_id schema,
                 vg_provider = provider_name, vg_video_url = None, vg_progress = 0, vg_error = None,
                 vg_usage = Some usage, vg_created = gw_timestamp gw s3\<rparr>, s3)))"

definition terminal :: "generation_status \<Rightarrow> bool" where
  "terminal st = (st \<in> {Completed, Failed, Cancelled})"

definition get_video_status ::
  "'w gateway \<Rightarrow> string \<Rightarrow> 'w router \<Rightarrow> (proxy_error + video_response) \<times> 'w router" where
  "get_video_status gw i s =
     (case rt_jobs s i of
        None \<Rightarrow> (Inl (NotFound (''video job '' @ [CHR 0x27] @ i @ [CHR 0x27] @ '' not found'')), s)
      | Some handle \<Rightarrow>
          (case video_provider_for (vh_provider handle) (rt_registry s) of
             None \<Rightarrow> (Inl (ProviderNotConfigured (vh_provider handle)), s)
           | Some p \<Rightarrow>
               (case gw_poll gw p handle s of
                  (Inl e, s1) \<Rightarrow>
                    (Inl (ProviderFailed (vh_provider handle) (provider_error_string e) (is_retryable e)), s1)
                | (Inr poll, s1) \<Rightarrow>
                    (let s2 = (if terminal (vp_status poll)
                               then s1\<lparr>rt_jobs := (rt_jobs s1)(i := None)\<rparr> else s1)
                     in (Inr \<lparr>vg_id = i, vg_status = vp_status poll, vg_model = vh_model handle,
                           vg_provider = vh_provider handle, vg_video_url = vp_video_url poll,
                           vg_progress = vp_progress poll, vg_error = vp_error poll, vg_usage = None,
                           vg_created = gw_timestamp gw s2\<rparr>, s2)))))"

section \<open>Estimates and accessors\<close>

definition with_markup :: "f64 \<Rightarrow> cost_estimate \<Rightarrow> cost_estimate" where
  "with_markup markup est =
     (if 0 < markup
      then let (m, total) = apply_markup (ce_base_cost_usd est) markup
           in est\<lparr>ce_markup_usd := m, ce_total_cost_usd := total,
                  ce_tokens_required := usd_to_tokens total (round_f64 (1 / 1000))\<rparr>
      else est)"

definition estimate_image_cost ::
  "'w gateway \<Rightarrow> model_schema \<Rightarrow> image_request \<Rightarrow> provider_credentials option \<Rightarrow> 'w router
   \<Rightarrow> (proxy_error + cost_estimate) \<times> 'w router" where
  "estimate_image_cost gw schema request creds s =
     (case image_provider_for_request (ms_provider schema) creds (rt_registry s) of
        None \<Rightarrow> (Inl (ProviderNotConfigured (ms_provider schema)), s)
      | Some p \<Rightarrow>
          (case gw_image_cost gw p schema request s of
             (Inl e, s1) \<Rightarrow> (Inl (ProviderFailed (ms_provider schema) (provider_error_string e) False), s1)
           | (Inr est, s1) \<Rightarrow> (Inr (with_markup (cost_markup_percent s1) est), s1)))"

definition estimate_video_cost ::
  "'w gateway \<Rightarrow> model_schema \<Rightarrow> video_request \<Rightarrow> provider_credentials option \<Rightarrow> 'w router
   \<Rightarrow> (proxy_error + cost_estimate) \<times> 'w router" where
  "estimate_video_cost gw schema request creds s =
     (case video_provider_for_request (ms_provider schema) creds (rt_registry s) of
        None \<Rightarrow> (Inl (ProviderNotConfigured (ms_provider schema)), s)
      | Some p \<Rightarrow>
          (case gw_video_cost gw p schema request s of
             (Inl e, s1) \<Rightarrow> (Inl (ProviderFailed (ms_provider schema) (provider_error_string e) False), s1)
           | (Inr est, s1) \<Rightarrow> (Inr (with_markup (cost_markup_percent s1) est), s1)))"

definition get_provider_job_id :: "'w router \<Rightarrow> string \<Rightarrow> string option" where
  "get_provider_job_id s i = map_option vh_provider_job_id (rt_jobs s i)"

end
