(* ===== verification/RouterProps.thy ===== *)
theory RouterProps
  imports Router
begin

text \<open>
  What the router's dispatch guarantees. The fallback loop is first related to a step relation
  over deployments (\<open>route_run\<close>), which says which calls a run may make; bounds and soundness
  follow by rule induction. Then the effect of a dispatch on the circuit breaker, the orders of
  the strategies, and the life cycle of cached images and video jobs.
\<close>

section \<open>Runs of the fallback loop\<close>

fun retryable_failure :: "'o attempt \<Rightarrow> bool" where
  "retryable_failure (AttemptOk _) = False"
| "retryable_failure (AttemptErr e) = is_retryable e"
| "retryable_failure AttemptTimeout = True"

fun failure :: "'o attempt \<Rightarrow> bool" where
  "failure (AttemptOk _) = False"
| "failure (AttemptErr _) = True"
| "failure AttemptTimeout = True"

fun error_of :: "deployment \<Rightarrow> 'o attempt \<Rightarrow> provider_error" where
  "error_of d (AttemptErr e) = e"
| "error_of d r = Timeout (dp_timeout_seconds d * 1000)"

text \<open>
  The calls to one deployment: all but the last are retryable failures. They end with an answer,
  or with a failure that is not retryable or is the last one the retries allow.
\<close>

definition answered :: "nat \<Rightarrow> 'o attempt list \<Rightarrow> 'o \<Rightarrow> bool" where
  "answered n rs out =
     (\<exists>fs. rs = fs @ [AttemptOk out] \<and> list_all retryable_failure fs \<and> length fs \<le> n)"

definition gave_up :: "nat \<Rightarrow> 'o attempt list \<Rightarrow> bool" where
  "gave_up n rs =
     (rs \<noteq> [] \<and> list_all retryable_failure (butlast rs) \<and> failure (last rs)
      \<and> (if retryable_failure (last rs) then length rs = Suc n else length rs \<le> Suc n))"

definition calls_to :: "deployment \<Rightarrow> 'o attempt list \<Rightarrow> (string \<times> 'o attempt) list" where
  "calls_to d rs = map (\<lambda>r. (dp_provider d, r)) rs"

inductive route_run ::
  "deployment list \<Rightarrow> provider_error option \<Rightarrow> (string \<times> 'o attempt) list
   \<Rightarrow> (provider_error option + string \<times> 'o) \<Rightarrow> bool" where
  exhausted: "route_run [] l [] (Inl l)"
| skipped: "route_run ds (Some (NotConfigured (dp_provider d))) cs r \<Longrightarrow> route_run (d # ds) l cs r"
| success: "answered (unat (dp_max_retries d)) rs out \<Longrightarrow>
    route_run (d # ds) l (calls_to d rs) (Inr (dp_provider d, out))"
| next_one: "gave_up (unat (dp_max_retries d)) rs \<Longrightarrow>
    route_run ds (Some (error_of d (last rs))) cs r \<Longrightarrow>
    route_run (d # ds) l (calls_to d rs @ cs) r"

inductive_cases route_run_NilE: "route_run [] l cs r"
inductive_cases route_run_ConsE: "route_run (d # ds) l cs r"

lemma gave_up_Cons:
  "retryable_failure r \<Longrightarrow> gave_up n rs \<Longrightarrow> gave_up (Suc n) (r # rs)"
  by (auto simp: gave_up_def)

lemma answered_Cons: "retryable_failure r \<Longrightarrow> answered n rs out \<Longrightarrow> answered (Suc n) (r # rs) out"
  unfolding answered_def by (elim exE conjE) (rule_tac x = "r # fs" in exI, simp)

lemma attempts_runs:
  "attempts gw call d n s = (rs, x, s') \<Longrightarrow>
   (case x of Inr out \<Rightarrow> answered n rs out | Inl e \<Rightarrow> gave_up n rs \<and> e = error_of d (last rs))"
proof (induction n arbitrary: s rs x s')
  case 0
  obtain r s1 where c: "call s = (r, s1)" by (cases "call s")
  from 0 c show ?case
    by (subst (asm) attempts.simps)
      (auto simp: Let_def answered_def gave_up_def split: attempt.splits if_splits)
next
  case (Suc n)
  obtain r s1 where c: "call s = (r, s1)" by (cases "call s")
  show ?case
  proof (cases "retryable_failure r")
    case True
    let ?s2 = "report_failure gw (dp_provider d) s1"
    obtain rs' x' s3 where rec: "attempts gw call d n ?s2 = (rs', x', s3)"
      by (cases "attempts gw call d n ?s2") auto
    have "rs = r # rs' \<and> x = x'"
      using Suc.prems True c rec by (subst (asm) attempts.simps) (cases r; simp add: Let_def)
    moreover have "rs' \<noteq> []" if "x' = Inl e" for e
      using Suc.IH [OF rec] that by (simp add: gave_up_def)
    ultimately show ?thesis
      using Suc.IH [OF rec] True by (cases x') (auto simp: answered_Cons gave_up_Cons)
  next
    case False
    then show ?thesis
      using Suc.prems c
      by (subst (asm) attempts.simps)
        (cases r; auto simp: Let_def answered_def gave_up_def split: if_splits)
  qed
qed

definition route_result :: "string \<Rightarrow> provider_error option + string \<times> 'o \<Rightarrow> proxy_error + string \<times> 'o" where
  "route_result model r =
     (case r of
        Inl l \<Rightarrow> Inl (AllDeploymentsFailed model (map_option provider_error_string l))
      | Inr x \<Rightarrow> Inr x)"

lemma fallback_runs:
  "fallback gw lookup call model ds l s = (cs, res, s') \<Longrightarrow>
   \<exists>r. route_run ds l cs r \<and> res = route_result model r"
proof (induction ds arbitrary: l s cs res s')
  case Nil
  then show ?case by (auto simp: route_result_def intro: exhausted)
next
  case (Cons d ds)
  let ?skip = "fallback gw lookup call model ds (Some (NotConfigured (dp_provider d))) s"
  show ?case
  proof (cases "breaker_is_open (rt_breaker s) (gw_now gw s) (dp_provider d) \<or> lookup (dp_provider d) s = None")
    case True
    with Cons.prems have "?skip = (cs, res, s')" by (auto split: if_splits)
    from Cons.IH [OF this] show ?thesis by (blast intro: skipped)
  next
    case False
    then obtain p where p: "lookup (dp_provider d) s = Some p" by auto
    obtain rs x s1 where a: "attempts gw (call p (dp_timeout_seconds d)) d (unat (dp_max_retries d)) s = (rs, x, s1)"
      by (cases "attempts gw (call p (dp_timeout_seconds d)) d (unat (dp_max_retries d)) s") auto
    note spec = attempts_runs [OF a]
    show ?thesis
    proof (cases x)
      case (Inr out)
      with Cons.prems False p a have "cs = calls_to d rs" "res = Inr (dp_provider d, out)"
        by (auto simp: calls_to_def)
      with spec Inr show ?thesis by (auto simp: route_result_def intro: success)
    next
      case (Inl e)
      obtain cs' res' s2 where f: "fallback gw lookup call model ds (Some e) s1 = (cs', res', s2)"
        by (cases "fallback gw lookup call model ds (Some e) s1") auto
      with Cons.prems False p a Inl have "cs = calls_to d rs @ cs'" "res = res'"
        by (auto simp: calls_to_def)
      with spec Inl Cons.IH [OF f] show ?thesis by (auto intro: next_one)
    qed
  qed
qed









text \<open>C1:
  The fallback loop makes only the calls of a run of \<open>route_run\<close>: the deployments in order, each
  skipped or called up to \<open>max_retries + 1\<close> times, where a failure is followed by another call to
  the same deployment only if it is retryable, and the next deployment is reached only after the
  last allowed call failed. Its result is the run's: the first answer, or the error of the last
  deployment. This holds whatever other requests do to the state in between.
\<close>

theorem fallback_refines_runs:
  assumes "fallback_image gw schema base extras mats ds creds s = (cs, res, s')"
  shows "\<exists>r. route_run ds None cs r \<and> res = route_result (ms_id schema) r"
  using assms unfolding fallback_image_def by (rule fallback_runs)


section \<open>What the circuit breaker is told\<close>

text \<open>No other request touches the breaker while a call is under way.\<close>

definition undisturbed :: "(provider_instance \<Rightarrow> u64 \<Rightarrow> 'w router \<Rightarrow> 'o attempt \<times> 'w router) \<Rightarrow> bool" where
  "undisturbed call = (\<forall>p t s. rt_breaker (snd (call p t s)) = rt_breaker s)"

fun event_of :: "string \<times> 'o attempt \<Rightarrow> instant \<Rightarrow> breaker_event" where
  "event_of (p, AttemptOk _) t = Success p"
| "event_of (p, _) t = Failure p t"

lemma breaker_reports [simp]:
  "rt_breaker (report_success gw p t0 s) = record_success p (rt_breaker s)"
  "rt_breaker (report_failure gw p s) = record_failure p (gw_now gw s) (rt_breaker s)"
  by (simp_all add: report_success_def report_failure_def record_latency_def Let_def)

lemma attempts_breaker:
  assumes call: "\<And>s. rt_breaker (snd (call s)) = rt_breaker s"
  shows "attempts gw call d n s = (rs, x, s') \<Longrightarrow>
    \<exists>ts. length ts = length rs
      \<and> rt_breaker s' = fold apply_event (map2 event_of (calls_to d rs) ts) (rt_breaker s)"
proof (induction n arbitrary: s rs x s')
  case 0
  obtain r s1 where c: "call s = (r, s1)" by (cases "call s")
  with call [of s] have b: "rt_breaker s1 = rt_breaker s" by simp
  have "\<exists>t. rt_breaker s' = apply_event (event_of (dp_provider d, r) t) (rt_breaker s) \<and> rs = [r]"
    using 0 c b by (subst (asm) attempts.simps) (cases r; auto simp: Let_def split: if_splits)
  then obtain t where "rt_breaker s' = apply_event (event_of (dp_provider d, r) t) (rt_breaker s)" "rs = [r]"
    by blast
  then show ?case by (intro exI [of _ "[t]"]) (simp add: calls_to_def)
next
  case (Suc n)
  obtain r s1 where c: "call s = (r, s1)" by (cases "call s")
  with call [of s] have b: "rt_breaker s1 = rt_breaker s" by simp
  show ?case
  proof (cases "retryable_failure r")
    case True
    let ?s2 = "report_failure gw (dp_provider d) s1"
    obtain rs' x' s3 where rec: "attempts gw call d n ?s2 = (rs', x', s3)"
      by (cases "attempts gw call d n ?s2") auto
    have e: "rs = r # rs' \<and> s' = s3"
      using Suc.prems True c rec by (subst (asm) attempts.simps) (cases r; simp add: Let_def)
    have "event_of (dp_provider d, r) t = Failure (dp_provider d) t" for t using True by (cases r) auto
    with Suc.IH [OF rec] e b obtain ts where "length ts = length rs'"
        "rt_breaker s' = fold apply_event (map2 event_of (calls_to d rs') ts)
          (apply_event (event_of (dp_provider d, r) (gw_now gw s1)) (rt_breaker s))"
      by auto
    with e show ?thesis
      by (intro exI [of _ "gw_now gw s1 # ts"]) (simp add: calls_to_def)
  next
    case False
    have "\<exists>t. rt_breaker s' = apply_event (event_of (dp_provider d, r) t) (rt_breaker s) \<and> rs = [r]"
      using Suc.prems c b False
      by (subst (asm) attempts.simps) (cases r; auto simp: Let_def split: if_splits)
    then obtain t where "rt_breaker s' = apply_event (event_of (dp_provider d, r) t) (rt_breaker s)" "rs = [r]"
      by blast
    then show ?thesis by (intro exI [of _ "[t]"]) (simp add: calls_to_def)
  qed
qed

lemma fallback_breaker:
  assumes "undisturbed call"
  shows "fallback gw lookup call model ds l s = (cs, res, s') \<Longrightarrow>
    \<exists>ts. length ts = length cs
      \<and> rt_breaker s' = fold apply_event (map2 event_of cs ts) (rt_breaker s)"
proof (induction ds arbitrary: l s cs res s')
  case (Cons d ds)
  show ?case
  proof (cases "breaker_is_open (rt_breaker s) (gw_now gw s) (dp_provider d) \<or> lookup (dp_provider d) s = None")
    case True
    with Cons.prems have "fallback gw lookup call model ds (Some (NotConfigured (dp_provider d))) s = (cs, res, s')"
      by (auto split: if_splits)
    then show ?thesis by (rule Cons.IH)
  next
    case False
    then obtain p where p: "lookup (dp_provider d) s = Some p" by auto
    let ?a = "attempts gw (call p (dp_timeout_seconds d)) d (unat (dp_max_retries d)) s"
    obtain rs x s1 where a: "?a = (rs, x, s1)" by (cases ?a) auto
    have "\<And>s. rt_breaker (snd (call p (dp_timeout_seconds d) s)) = rt_breaker s"
      using assms by (simp add: undisturbed_def)
    from attempts_breaker [OF this a] obtain ts where ts: "length ts = length rs"
      "rt_breaker s1 = fold apply_event (map2 event_of (calls_to d rs) ts) (rt_breaker s)" by blast
    show ?thesis
    proof (cases x)
      case (Inr out)
      with Cons.prems False p a have "cs = calls_to d rs" "s' = s1" by (auto simp: calls_to_def)
      with ts show ?thesis by (auto simp: calls_to_def)
    next
      case (Inl e)
      obtain cs' res' s2 where f: "fallback gw lookup call model ds (Some e) s1 = (cs', res', s2)"
        by (cases "fallback gw lookup call model ds (Some e) s1") auto
      with Cons.prems False p a Inl have e: "cs = calls_to d rs @ cs'" "s' = s2"
        by (auto simp: calls_to_def)
      from Cons.IH [OF f] obtain ts' where "length ts' = length cs'"
        "rt_breaker s2 = fold apply_event (map2 event_of cs' ts') (rt_breaker s1)" by blast
      with ts e show ?thesis
        by (intro exI [of _ "ts @ ts'"]) (simp add: calls_to_def zip_append)
    qed
  qed
qed simp

text \<open>
  The circuit breaker learns of every call of a dispatch and of nothing else: after the loop it
  has been told, in the order of the calls, one success for an answer and one failure for every
  error and every timeout, and a skipped deployment is not held against its provider (when no
  other request reports in between).
\<close>

theorem dispatch_reports_every_call:
  assumes "undisturbed (\<lambda>p t. gw_image gw p schema base extras mats t)"
    and "fallback_image gw schema base extras mats ds creds s = (cs, res, s')"
  shows "\<exists>ts. length ts = length cs
    \<and> rt_breaker s' = fold apply_event (map2 event_of cs ts) (rt_breaker s)"
  using assms unfolding fallback_image_def by (rule fallback_breaker)




section \<open>The orders of the strategies\<close>

lemma weighted_schedule_in_range:
  "set (schedule_from i ws) = {i..<i + length ws}"
proof (induction i ws rule: schedule_from.induct)
  case (2 i w ws)
  have "unat (max w 1) \<noteq> 0" by (simp add: unat_max_one)
  with 2 show ?case by auto
qed simp

lemma weighted_schedule_set: "set (build_weighted_schedule ws) = {..<length ws}"
  by (simp add: build_weighted_schedule_def weighted_schedule_in_range atLeast0LessThan)

lemma others_in_order:
  "k < length ds \<Longrightarrow>
   map snd (filter (\<lambda>(i, d). i \<noteq> k + n) (enumerate n ds)) = take k ds @ drop (Suc k) ds"
proof (induction ds arbitrary: k n)
  case (Cons d ds)
  show ?case
  proof (cases k)
    case 0
    have "filter (\<lambda>(i, d). i \<noteq> n) (enumerate (Suc n) ds) = enumerate (Suc n) ds"
      by (intro filter_True) (auto simp: in_set_enumerate_eq)
    with 0 show ?thesis by simp
  next
    case (Suc j)
    with Cons.IH [of j "Suc n"] Cons.prems show ?thesis by simp
  qed
qed simp

lemma primary_in_range:
  "ds \<noteq> [] \<Longrightarrow> build_weighted_schedule (map dp_weight ds) ! (m mod length (build_weighted_schedule (map dp_weight ds)))
     < length ds"
proof -
  assume "ds \<noteq> []"
  moreover have set: "set (build_weighted_schedule (map dp_weight ds)) = {..<length ds}"
    unfolding weighted_schedule_set by simp
  ultimately have "0 \<in> set (build_weighted_schedule (map dp_weight ds))" by simp
  then have "build_weighted_schedule (map dp_weight ds) \<noteq> []" by force
  then have "m mod length (build_weighted_schedule (map dp_weight ds))
      < length (build_weighted_schedule (map dp_weight ds))" by simp
  from nth_mem [OF this] show ?thesis unfolding set by simp
qed

text \<open>
  The weighted strategy tries every deployment exactly once: its order is some deployment followed
  by all the others in the route's order; and over the slots of one schedule a deployment comes
  first exactly \<open>max(weight, 1)\<close> times.
\<close>

theorem weighted_order_correct:
  assumes "ds \<noteq> []" and "length (build_weighted_schedule (map dp_weight ds)) \<le> 2 ^ 64"
  shows "(\<exists>k < length ds. weighted_order slot ds = ds ! k # take k ds @ drop (Suc k) ds)
    \<and> mset (weighted_order slot ds) = mset ds
    \<and> mset (map (\<lambda>i. hd (weighted_order (of_nat i) ds))
          [0..<length (build_weighted_schedule (map dp_weight ds))])
        = mset (weighted_items dp_weight ds)"
proof (intro conjI)
  let ?sch = "build_weighted_schedule (map dp_weight ds)"
  let ?k = "?sch ! (unat slot mod length ?sch)"
  have k: "?k < length ds" using assms(1) by (rule primary_in_range)
  have o: "weighted_order slot ds = ds ! ?k # take ?k ds @ drop (Suc ?k) ds"
    using others_in_order [OF k, of 0] by (simp add: weighted_order_def Let_def)
  with k show "\<exists>k < length ds. weighted_order slot ds = ds ! k # take k ds @ drop (Suc k) ds" by blast
  have "mset ds = mset (take ?k ds @ ds ! ?k # drop (Suc ?k) ds)"
    using id_take_nth_drop [OF k] by simp
  then show "mset (weighted_order slot ds) = mset ds" by (simp add: o)
  have "map (\<lambda>i. hd (weighted_order (of_nat i) ds)) [0..<length ?sch]
      = map (\<lambda>i. ds ! (?sch ! i)) [0..<length ?sch]"
  proof (intro map_cong refl)
    fix i assume "i \<in> set [0..<length ?sch]"
    then have "i < length ?sch" "unat (of_nat i :: u64) = i"
      using assms(2) unat_of_nat_u64 [of i] by auto
    then show "hd (weighted_order (of_nat i) ds) = ds ! (?sch ! i)"
      by (simp add: weighted_order_def Let_def)
  qed
  also have "\<dots> = map (\<lambda>k. ds ! k) ?sch" by (intro nth_equalityI) auto
  also have "\<dots> = weighted_items dp_weight (drop 0 ds)"
    unfolding build_weighted_schedule_def by (rule schedule_items) simp_all
  also have "\<dots> = weighted_items dp_weight ds" by simp
  finally show "mset (map (\<lambda>i. hd (weighted_order (of_nat i) ds)) [0..<length ?sch])
      = mset (weighted_items dp_weight ds)" by simp
qed

lemma insort_key_pair:
  "insort_key fst (f d, d) (map (\<lambda>d. (f d, d)) ds) = map (\<lambda>d. (f d, d)) (insort_key f d ds)"
  by (induction ds) auto

lemma sort_key_pair:
  "sort_key fst (map (\<lambda>d. (f d, d)) ds) = map (\<lambda>d. (f d, d)) (sort_key f ds)"
  by (induction ds) (simp_all add: insort_key_pair)

text \<open>
  The cost and latency strategies try every deployment exactly once, in ascending order of the
  estimated cost (the largest double where there is no estimate) or of the average latency (the
  largest 64-bit number without a sample), and deployments with equal keys stay in the route's
  order.
\<close>

theorem sorted_orders_correct:
  "mset (by_cost costs) = mset (map snd costs)
   \<and> sorted (map fst (sort_key fst costs))
   \<and> filter (\<lambda>cd. fst cd = c) (sort_key fst costs) = filter (\<lambda>cd. fst cd = c) costs
   \<and> mset (latency_order s ds) = mset ds
   \<and> sorted (map (\<lambda>d. avg_latency s (dp_provider d)) (latency_order s ds))
   \<and> filter (\<lambda>d. avg_latency s (dp_provider d) = l) (latency_order s ds)
       = filter (\<lambda>d. avg_latency s (dp_provider d) = l) ds"
proof -
  have "latency_order s ds = sort_key (\<lambda>d. avg_latency s (dp_provider d)) ds"
    by (simp add: latency_order_def sort_key_pair comp_def)
  then show ?thesis by (simp add: by_cost_def sort_key_stable)
qed

section \<open>Latency\<close>

lemma push_full: "length l = LATENCY_HISTORY_CAP \<Longrightarrow> push_latency x l = tl (l @ [x])"
  by (simp add: push_latency_def Let_def)

lemma push_room: "length l < LATENCY_HISTORY_CAP \<Longrightarrow> push_latency x l = l @ [x]"
  by (simp add: push_latency_def Let_def)

lemma tl_drop_snoc: "n \<le> length a \<Longrightarrow> tl (drop n a @ [x]) = drop (Suc n) (a @ [x])"
proof -
  assume "n \<le> length a"
  then have "drop n a @ [x] = drop n (a @ [x])" by simp
  then show ?thesis by (metis drop_Suc tl_drop)
qed

lemma push_latency_last:
  "length l \<le> LATENCY_HISTORY_CAP \<Longrightarrow>
   fold push_latency xs l = drop (length (l @ xs) - LATENCY_HISTORY_CAP) (l @ xs)"
proof (induction xs rule: rev_induct)
  case (snoc x xs)
  let ?n = "length (l @ xs) - LATENCY_HISTORY_CAP"
  have IH: "fold push_latency xs l = drop ?n (l @ xs)" using snoc by simp
  show ?case
  proof (cases "LATENCY_HISTORY_CAP \<le> length (l @ xs)")
    case True
    then have "length (drop ?n (l @ xs)) = LATENCY_HISTORY_CAP" by simp
    then have "push_latency x (drop ?n (l @ xs)) = tl (drop ?n (l @ xs) @ [x])"
      by (rule push_full)
    also have "\<dots> = drop (Suc ?n) ((l @ xs) @ [x])"
      by (rule tl_drop_snoc) simp
    finally show ?thesis using True IH by (simp add: Suc_diff_le)
  next
    case False
    then show ?thesis using IH by (simp add: push_room)
  qed
qed simp

lemma record_latency_lookup:
  "rt_latency (record_latency p ms s) q =
     (if q = p then Some (push_latency ms (unwrap_or [] (rt_latency s p))) else rt_latency s q)"
  by (simp add: record_latency_def)

lemma push_nonempty: "push_latency ms l \<noteq> []"
  by (cases l) (auto simp: push_latency_def Let_def LATENCY_HISTORY_CAP_def)

lemma fold_push_nonempty: "l \<noteq> [] \<or> xs \<noteq> [] \<Longrightarrow> fold push_latency xs l \<noteq> []"
  by (induction xs arbitrary: l) (auto simp: push_nonempty)

lemma sum_list_unat:
  "sum_list (map unat xs) < 2 ^ 64 \<Longrightarrow> unat (sum_list xs :: u64) = sum_list (map unat xs)"
proof (induction xs)
  case (Cons x xs)
  then have "unat (sum_list xs) = sum_list (map unat xs)" by simp
  with Cons.prems show ?case by (simp add: unat_word_ariths)
qed simp

text \<open>
  The latency history is a sliding window: after recording samples for a provider its history is
  the last sixteen of all its samples, other providers keep theirs, and the average the strategy
  sorts by is the integer average of the window when its sum does not overflow, so it lies between
  the smallest and the largest sample.
\<close>

theorem latency_window:
  assumes "length (unwrap_or [] (rt_latency s p)) \<le> LATENCY_HISTORY_CAP" and "xs \<noteq> []"
    and "all = unwrap_or [] (rt_latency s p) @ xs"
    and "window = drop (length all - LATENCY_HISTORY_CAP) all"
    and "sum_list (map unat window) < 2 ^ 64"
  shows "rt_latency (fold (record_latency p) xs s) =
      (rt_latency s)(p \<mapsto> window)
    \<and> unat (avg_latency (fold (record_latency p) xs s) p) = sum_list (map unat window) div length window
    \<and> Min (unat ` set window) \<le> unat (avg_latency (fold (record_latency p) xs s) p)
    \<and> unat (avg_latency (fold (record_latency p) xs s) p) \<le> Max (unat ` set window)"
proof -
  let ?s = "fold (record_latency p) xs s" and ?l = "unwrap_or [] (rt_latency s p)"
  have fold: "rt_latency (fold (record_latency p) ys s) q =
      (if q = p \<and> ys \<noteq> [] then Some (fold push_latency ys (unwrap_or [] (rt_latency s p)))
       else rt_latency s q)" for ys q
    by (induction ys rule: rev_induct) (auto simp: record_latency_lookup)
  have w: "fold push_latency xs ?l = window"
    using push_latency_last [OF assms(1)] assms(3,4) by simp
  then have ne: "window \<noteq> []" using fold_push_nonempty [of ?l xs] assms(2) by simp
  have h: "rt_latency ?s = (rt_latency s)(p \<mapsto> window)"
    using fold [of xs] assms(2) w by (auto simp: fun_eq_iff)
  have len: "length window < 2 ^ 64" using assms(4) by (simp add: LATENCY_HISTORY_CAP_def)
  have avg: "unat (avg_latency ?s p) = sum_list (map unat window) div length window"
    using ne len by (simp add: avg_latency_def h unat_div sum_list_unat [OF assms(5)] unat_of_nat)
  have lo: "length window * Min (unat ` set window) \<le> sum_list (map unat window)"
    using sum_list_mono [of window "\<lambda>_. Min (unat ` set window)" unat]
    by (simp add: sum_list_triv)
  have hi: "sum_list (map unat window) \<le> length window * Max (unat ` set window)"
    using sum_list_mono [of window unat "\<lambda>_. Max (unat ` set window)"]
    by (simp add: sum_list_triv)
  have "Min (unat ` set window) \<le> sum_list (map unat window) div length window"
    using lo ne by (simp add: less_eq_div_iff_mult_less_eq mult.commute)
  moreover have "sum_list (map unat window) div length window \<le> Max (unat ` set window)"
    using div_le_mono [OF hi, of "length window"] ne by simp
  ultimately show ?thesis using h avg by simp
qed

section \<open>Routes\<close>

text \<open>
  A pattern \<open>p/*\<close> matches exactly the model ids that begin with \<open>p\<close>. The slash is not part of
  what must match: the ids of another provider whose name begins with \<open>p\<close> match as well.
\<close>

theorem glob_ignores_the_slash:
  "route_matches (p @ ''/*'') model \<longleftrightarrow> (\<exists>rest. model = p @ rest)"
proof -
  have "p @ ''/*'' \<noteq> ''*''" by (cases p) auto
  moreover have "strip_suffix ''/*'' (p @ ''/*'') = Some p" by (simp only: strip_suffix_Some)
  ultimately show ?thesis by (simp add: route_matches_def starts_with_iff)
qed

section \<open>Images and their cache\<close>

lemma image_results_shape:
  "\<exists>im s'. build_image_results gw out extras store s = ([im], s')
     \<and> (im_url im \<noteq> None \<or> im_b64_json im \<noteq> None)
     \<and> (ie_response_format extras = ''b64_json'' \<longrightarrow> im_b64_json im = Some (gw_base64 gw (go_data out)))
     \<and> im_content_type im = go_content_type out"
  by (auto simp: build_image_results_def Let_def split: prod.splits option.splits)

text \<open>
  An answered request is answered again from the cache: repeating it for the same tenant returns
  the same response without any call and without changing the state, whatever reference images
  were materialized for the repetition, whatever credentials and store it brings.
\<close>

theorem repeated_image_from_cache:
  assumes "generate_image gw schema base extras mats creds app_store tenant s = (Inr r, s')"
    and "rt_cache s' \<noteq> None"
  shows "generate_image gw schema base extras mats' creds' app_store' tenant s' = (Inr r, s')"
proof (cases "get_image (gw_codec gw) tenant (ms_id schema) base extras (rt_cache s)")
  case (Some cached)
  with assms have "r = cached" "s' = s" by (auto simp: generate_image_def)
  with Some show ?thesis by (simp add: generate_image_def)
next
  case None
  with assms(1) obtain s3 where
    "s' = s3\<lparr>rt_cache := put_image (gw_codec gw) tenant (ms_id schema) base extras r (rt_cache s3)\<rparr>"
    by (auto simp: generate_image_def Let_def split: prod.splits sum.splits)
  with assms(2) have "get_image (gw_codec gw) tenant (ms_id schema) base extras (rt_cache s') = Some r"
    by (auto simp: get_image_def put_image_def)
  then show ?thesis by (simp add: generate_image_def)
qed

text \<open>
  What a fresh image response holds: exactly one image with a URL or inline data (inline data
  whenever the caller asked for it), the model asked for, the provider that gave the answer, and
  a charge for one image at the model's price plus the markup in effect, however many images
  the request asked for.
\<close>

theorem fresh_image_response:
  assumes "get_image (gw_codec gw) tenant (ms_id schema) base extras (rt_cache s) = None"
    and "generate_image gw schema base extras mats creds app_store tenant s = (Inr r, s')"
  shows "\<exists>calls p out s1 im s2. dispatch_image gw schema base extras mats creds s = (calls, Inr (p, out), s1)
    \<and> ig_provider r = p \<and> ig_model r = ms_id schema \<and> ig_data r = [im]
    \<and> (im_url im \<noteq> None \<or> im_b64_json im \<noteq> None)
    \<and> (ie_response_format extras = ''b64_json'' \<longrightarrow> im_b64_json im = Some (gw_base64 gw (go_data out)))
    \<and> build_image_results gw out extras (unwrap_or (rt_image_store s1) app_store) s1 = ([im], s2)
    \<and> ig_usage r = Some (usage_for s2 schema 1)"
proof -
  from assms obtain calls p out s1 where d: "dispatch_image gw schema base extras mats creds s = (calls, Inr (p, out), s1)"
    by (auto simp: generate_image_def split: prod.splits sum.splits)
  let ?store = "unwrap_or (rt_image_store s1) app_store"
  from image_results_shape [of gw out extras ?store s1] obtain im s2 where
    im: "build_image_results gw out extras ?store s1 = ([im], s2)"
      "im_url im \<noteq> None \<or> im_b64_json im \<noteq> None"
      "ie_response_format extras = ''b64_json'' \<longrightarrow> im_b64_json im = Some (gw_base64 gw (go_data out))"
    by blast
  obtain u s3 where "gw_uuid gw s2 = (u, s3)" by (cases "gw_uuid gw s2")
  with assms d im(1) have "ig_provider r = p \<and> ig_model r = ms_id schema \<and> ig_data r = [im]
      \<and> ig_usage r = Some (usage_for s2 schema 1)"
    by (auto simp: generate_image_def Let_def)
  then show ?thesis
    by (intro exI [of _ calls] exI [of _ p] exI [of _ out] exI [of _ s1] exI [of _ im] exI [of _ s2])
      (use d im in simp)
qed

section \<open>Video jobs\<close>

text \<open>No other request touches the jobs while a poll is under way.\<close>

definition jobs_undisturbed :: "'w gateway \<Rightarrow> bool" where
  "jobs_undisturbed gw = (\<forall>p h s. rt_jobs (snd (gw_poll gw p h s)) = rt_jobs s)"

text \<open>
  The life of a video job: a started job is pending and holds the handle of the provider that
  answered, under the returned id; a successful poll with a terminal status removes it, so that
  the next lookup says not found without asking the provider; every other poll leaves every job
  as it is (when no other request touches the jobs meanwhile).
\<close>

theorem video_job_lifecycle:
  assumes "jobs_undisturbed gw"
  shows "(case generate_video gw schema base extras mats creds s of
      (Inr r, s') \<Rightarrow> vg_status r = Pending \<and>
        (\<exists>calls handle s1. dispatch_video gw schema base extras mats creds s = (calls, Inr (vg_provider r, handle), s1)
           \<and> rt_jobs s' (vg_id r) = Some handle)
    | (Inl e, s') \<Rightarrow> True)
    \<and> (case get_video_status gw i s of
      (Inr r, s') \<Rightarrow>
        rt_jobs s' = (if terminal (vg_status r) then (rt_jobs s)(i := None) else rt_jobs s)
        \<and> (if terminal (vg_status r) then snd (get_video_status gw i s') = s'
              \<and> proxy_status_code (projl (fst (get_video_status gw i s'))) = 404 else True)
    | (Inl e, s') \<Rightarrow> rt_jobs s' = rt_jobs s)"
proof (intro conjI)
  show "case generate_video gw schema base extras mats creds s of
      (Inr r, s') \<Rightarrow> vg_status r = Pending \<and>
        (\<exists>calls handle s1. dispatch_video gw schema base extras mats creds s = (calls, Inr (vg_provider r, handle), s1)
           \<and> rt_jobs s' (vg_id r) = Some handle)
    | (Inl e, s') \<Rightarrow> True"
    by (auto simp: generate_video_def Let_def split: prod.splits sum.splits)
  have poll: "rt_jobs s1 = rt_jobs s" if "gw_poll gw p h s = (x, s1)" for p h x s1
    using assms that unfolding jobs_undisturbed_def by (metis snd_conv)
  show "case get_video_status gw i s of
      (Inr r, s') \<Rightarrow>
        rt_jobs s' = (if terminal (vg_status r) then (rt_jobs s)(i := None) else rt_jobs s)
        \<and> (if terminal (vg_status r) then snd (get_video_status gw i s') = s'
              \<and> proxy_status_code (projl (fst (get_video_status gw i s'))) = 404 else True)
    | (Inl e, s') \<Rightarrow> rt_jobs s' = rt_jobs s"
  proof (cases "rt_jobs s i")
    case (Some h)
    show ?thesis
    proof (cases "video_provider_for (vh_provider h) (rt_registry s)")
      case (Some p)
      obtain x s1 where x: "gw_poll gw p h s = (x, s1)" by (cases "gw_poll gw p h s")
      show ?thesis
        using \<open>rt_jobs s i = Some h\<close> Some x poll [OF x]
        by (cases x) (auto simp: get_video_status_def Let_def)
    qed (simp add: get_video_status_def Some)
  qed (simp add: get_video_status_def)
qed

section \<open>An example gateway\<close>

text \<open>
  The world counts the calls; the provider fal fails with a retryable error, every other one
  answers. The witnesses of the theorems above run on it.
\<close>

definition example_image_call where
  "example_image_call p (schema :: model_schema) (base :: base_request) (extras :: image_extras)
     (mats :: materialized_ref list) (t :: u64) (s :: nat router) =
     (if pv_adapter p = ''fal'' then AttemptErr (RateLimited ''fal'' 1)
      else AttemptOk \<lparr>go_data = [1], go_content_type = ''image/png'', go_metadata = []\<rparr>,
      s\<lparr>rt_world := Suc (rt_world s)\<rparr>)"

definition example_video_call where
  "example_video_call p (schema :: model_schema) (base :: base_request) (extras :: video_extras)
     (mats :: materialized_ref list) (t :: u64) (s :: nat router) =
     (if pv_adapter p = ''fal'' then AttemptTimeout
      else AttemptOk \<lparr>vh_provider_job_id = ''job'', vh_provider = pv_adapter p, vh_model = ms_id schema\<rparr>,
      s\<lparr>rt_world := Suc (rt_world s)\<rparr>)"

definition example_gateway :: "nat gateway" where
  "example_gateway =
     \<lparr>gw_now = rt_world, gw_timestamp = (\<lambda>s. int (rt_world s)),
      gw_uuid = (\<lambda>s. (''uuid'', s)), gw_hash = (\<lambda>p m. of_nat (length p)),
      gw_codec = \<lparr>cd_digest = (\<lambda>s. s), cd_f64 = (\<lambda>_. []), cd_json = (\<lambda>_. []), cd_refs = (\<lambda>_. [])\<rparr>,
      gw_base64 = (\<lambda>_. ''AQ==''), gw_store = (\<lambda>_ _ _ _ s. (None, s)),
      gw_image = example_image_call, gw_video = example_video_call,
      gw_poll = (\<lambda>p h s. (Inr \<lparr>vp_status = Completed, vp_progress = 100, vp_video_url = None,
        vp_video_data = None, vp_content_type = None, vp_error = None\<rparr>, s)),
      gw_image_cost = (\<lambda>p m r s. (Inl (InvalidRequest []), s)),
      gw_video_cost = (\<lambda>p m r s. (Inl (InvalidRequest []), s))\<rparr>"

definition example_router :: "nat router" where
  "example_router =
     \<lparr>rt_registry = register_provider ''openai'' default_instance_config
        (register_provider ''fal'' default_instance_config registry_new),
      rt_cache = Some Map.empty, rt_config_markup = 0, rt_config_routes = [],
      rt_image_store = ''local'', rt_latency = Map.empty, rt_jobs = Map.empty,
      rt_breaker = breaker_new 2 1000,
      rt_overrides = \<lparr>ov_model_routes = None, ov_gateway = \<lparr>gs_cost_markup_percent = None,
        gs_alert_webhook_url = None, gs_default_end_user_max_budget_usd = None,
        gs_default_end_user_budget_duration = None\<rparr>\<rparr>,
      rt_world = 0\<rparr>"

definition example_deployments :: "deployment list" where
  "example_deployments =
     map (\<lambda>p. \<lparr>dp_provider = p, dp_weight = 2, dp_max_retries = 1, dp_timeout_seconds = 30,
       dp_rpm_limit = 0, dp_respect_health = True\<rparr>) [''fal'', ''openai'']"

definition example_run where
  "example_run gw s =
     fallback_image gw example_model example_base example_extras [] example_deployments None s"

lemma example_calls:
  "map fst (fst (example_run example_gateway example_router)) = [''fal'', ''fal'', ''openai'']"
  by code_simp

lemma example_undisturbed: "undisturbed (\<lambda>p t. example_image_call p schema base extras mats t)"
  by (simp add: undisturbed_def example_image_call_def)

theorem fallback_refines_runs_witness:
  "\<exists>cs r. map fst cs = [''fal'', ''fal'', ''openai''] \<and> route_run example_deployments None cs r
     \<and> fst (snd (example_run example_gateway example_router)) = route_result ''fal/flux'' r"
proof -
  obtain cs res s' where run: "example_run example_gateway example_router = (cs, res, s')"
    by (cases "example_run example_gateway example_router") auto
  then have "map fst cs = [''fal'', ''fal'', ''openai'']" using example_calls by simp
  moreover obtain r where "route_run example_deployments None cs r" "res = route_result (ms_id example_model) r"
    using fallback_refines_runs [OF run [unfolded example_run_def]] by blast
  ultimately show ?thesis by (intro exI [of _ cs] exI [of _ r]) (simp add: run)
qed

definition example_video_extras :: video_extras where
  "example_video_extras =
     \<lparr>ve_duration_seconds = 5, ve_aspect_ratio = None, ve_resolution = None, ve_fps = None,
      ve_extra = None\<rparr>"


theorem dispatch_reports_every_call_witness:
  "\<exists>ts. length ts = 3 \<and>
     rt_breaker (snd (snd (example_run example_gateway example_router)))
       = fold apply_event (map2 event_of (fst (example_run example_gateway example_router)) ts)
           (breaker_new 2 1000)"
proof -
  obtain cs res s' where run: "example_run example_gateway example_router = (cs, res, s')"
    by (cases "example_run example_gateway example_router") auto
  have "undisturbed (\<lambda>p t. gw_image example_gateway p example_model example_base example_extras [] t)"
    using example_undisturbed by (simp add: example_gateway_def)
  from dispatch_reports_every_call [OF this run [unfolded example_run_def]] obtain ts where
    "length ts = length cs"
    "rt_breaker s' = fold apply_event (map2 event_of cs ts) (rt_breaker example_router)" by blast
  moreover have "length cs = 3" using arg_cong [OF example_calls, of length] run by simp
  moreover have "rt_breaker example_router = breaker_new 2 1000" by (simp add: example_router_def)
  ultimately show ?thesis by (intro exI [of _ ts]) (simp add: run)
qed


theorem weighted_order_correct_witness:
  "mset (weighted_order 3 example_deployments) = mset example_deployments"
proof -
  have "length (build_weighted_schedule (map dp_weight example_deployments)) = 4" by code_simp
  moreover have "example_deployments \<noteq> []" by (simp add: example_deployments_def)
  ultimately show ?thesis using weighted_order_correct [of example_deployments 3] by simp
qed

theorem latency_window_witness:
  "unat (avg_latency (fold (record_latency ''fal'') [10, 20] example_router) ''fal'') = 15"
proof -
  have "unwrap_or [] (rt_latency example_router ''fal'') = []" by (simp add: example_router_def)
  with latency_window [of example_router "''fal''" "[10, 20]" "[10, 20]" "[10, 20]"]
  have "unat (avg_latency (fold (record_latency ''fal'') [10, 20] example_router) ''fal'')
      = sum_list (map unat [10 :: u64, 20]) div length [10 :: u64, 20]"
    by (simp add: LATENCY_HISTORY_CAP_def del: fold_simps)
  then show ?thesis by (simp flip: numeral_2_eq_2 del: fold_simps)
qed

definition example_generate where
  "example_generate mats s =
     generate_image example_gateway (example_model\<lparr>ms_provider := ''openai''\<rparr>) example_base example_extras
       mats None None (Some ''app'') s"

lemma example_dispatched:
  "\<exists>calls p out s1. dispatch_image example_gateway (example_model\<lparr>ms_provider := ''openai''\<rparr>)
     example_base example_extras mats None example_router = (calls, Inr (p, out), s1) \<and> rt_cache s1 \<noteq> None"
proof -
  have "find_model_route example_router m = None" for m
    by (simp add: find_model_route_def model_routes_def example_router_def)
  moreover have "image_provider_for_request ''openai'' None (rt_registry example_router)
      = Some \<lparr>pv_adapter = ''openai'', pv_config = default_instance_config\<rparr>"
    by (simp add: image_provider_for_request_def image_provider_for_def example_router_def
        image_table.get_put [unfolded image_provider_for_def] build_image_provider_def)
  ultimately show ?thesis
    by (simp add: dispatch_image_def direct_dispatch_def direct_attempts.simps example_gateway_def
        example_image_call_def record_latency_def)
      (simp add: example_router_def)
qed

lemma example_generated: "\<exists>r s'. example_generate [] example_router = (Inr r, s') \<and> rt_cache s' \<noteq> None"
proof -
  have "get_image (gw_codec example_gateway) (Some ''app'') m b e (rt_cache example_router) = None" for m b e
    by (simp add: get_image_def example_router_def)
  with example_dispatched [of "[]"] show ?thesis
    by (auto simp: example_generate_def generate_image_def build_image_results_def put_image_def
        example_gateway_def Let_def)
qed

theorem repeated_image_from_cache_witness:
  "\<exists>r s'. example_generate [] example_router = (Inr r, s')
     \<and> example_generate [\<lparr>mf_role = ''start'', mf_form = MatBase64 ''AAAA''\<rparr>] s' = (Inr r, s')"
proof -
  obtain r s' where g: "example_generate [] example_router = (Inr r, s')" "rt_cache s' \<noteq> None"
    using example_generated by blast
  from repeated_image_from_cache [OF g(1) [unfolded example_generate_def] g(2)] g(1)
  show ?thesis by (auto simp: example_generate_def)
qed

theorem fresh_image_response_witness:
  "\<exists>r. fst (example_generate [] example_router) = Inr r \<and> length (ig_data r) = 1"
proof -
  obtain r s' where g: "example_generate [] example_router = (Inr r, s')" using example_generated by blast
  have miss: "get_image (gw_codec example_gateway) (Some ''app'') (ms_id (example_model\<lparr>ms_provider := ''openai''\<rparr>))
      example_base example_extras (rt_cache example_router) = None"
    by (simp add: get_image_def example_router_def)
  from fresh_image_response [OF miss g [unfolded example_generate_def]] g show ?thesis by auto
qed

theorem video_job_lifecycle_witness:
  "case get_video_status example_gateway ''litegen-vid-1'' example_router of
     (Inr r, s') \<Rightarrow> rt_jobs s' = (if terminal (vg_status r) then (rt_jobs example_router)(''litegen-vid-1'' := None)
        else rt_jobs example_router)
   | (Inl e, s') \<Rightarrow> rt_jobs s' = rt_jobs example_router"
proof -
  have "jobs_undisturbed example_gateway" by (simp add: jobs_undisturbed_def example_gateway_def)
  from video_job_lifecycle [OF this, of example_model example_base example_video_extras "[]" None
      example_router "''litegen-vid-1''"]
  show ?thesis by (auto split: prod.splits sum.splits)
qed

end
