(* ===== verification/Validator.thy ===== *)
theory Validator
  imports Materializer RateLimit "HOL-Library.Sublist"
begin

text \<open>
  What happens to a generation request before its handler runs
  (\<open>api/middleware/validator.rs\<close>): the checks of a request against the schema of its model,
  which refuse it in strict mode and drop what the model does not know in lax mode, and the
  extractors that take an in-flight slot (\<open>api/middleware/backpressure.rs\<close>), read the body, find
  the model and validate.

  An error message is its format string with the arguments, as the code gives them to
  \<open>format!\<close>. The checks run in the order of the code, so the first failing one decides.
\<close>

section \<open>Errors\<close>

datatype msg_arg = AInt int | AReal f64 | AStr string | AStrs "string list" | ASizes "(u32 \<times> u32) list"

type_synonym message = "string \<times> msg_arg list"

record validation_error =
  ve_code :: string
  ve_message :: message
  ve_param :: "string option"

text \<open>A validation ends with an error, or with the panic of a remainder by zero.\<close>

datatype val_failure = Invalid validation_error | RemainderByZero

definition invalid :: "string \<Rightarrow> string \<Rightarrow> msg_arg list \<Rightarrow> string \<Rightarrow> val_failure + 'a" where
  "invalid code fmt args param =
     Inl (Invalid \<lparr>ve_code = code, ve_message = (fmt, args), ve_param = Some param\<rparr>)"

lemma invalid_not_Inr [simp]: "invalid c f a p \<noteq> Inr x" "Inr x \<noteq> invalid c f a p"
  by (simp_all add: invalid_def)

section \<open>Single parameters\<close>

definition check_prompt :: "prompt_spec \<Rightarrow> string \<Rightarrow> val_failure + unit" where
  "check_prompt spec value =
     (if trim value = []
      then if ps_required spec
           then invalid ''prompt_required'' ''prompt is required'' [] ''prompt'' else Inr ()
      else and_then
        (case ps_min_length spec of
           Some mn \<Rightarrow>
             if length value < mn
             then invalid ''prompt_too_short'' ''prompt length {} < {}''
                    [AInt (int (length value)), AInt (int mn)] ''prompt''
             else Inr ()
         | None \<Rightarrow> Inr ())
        (\<lambda>_. case ps_max_length spec of
           Some mx \<Rightarrow>
             if mx < length value
             then invalid ''prompt_too_long'' ''prompt length {} > {}''
                    [AInt (int (length value)), AInt (int mx)] ''prompt''
             else Inr ()
         | None \<Rightarrow> Inr ()))"

definition check_string ::
  "string \<Rightarrow> string list \<Rightarrow> nat option \<Rightarrow> string \<Rightarrow> val_failure + unit" where
  "check_string v enum_values max_length param =
     and_then
       (case max_length of
          Some m \<Rightarrow>
            if m < length v
            then invalid ''param_too_long'' ''{} length {} > {}''
                   [AStr param, AInt (int (length v)), AInt (int m)] param
            else Inr ()
        | None \<Rightarrow> Inr ())
       (\<lambda>_. if enum_values \<noteq> [] \<and> v \<notin> set enum_values
            then invalid ''param_enum_mismatch'' ''{} '{}' not in {:?}''
                   [AStr param, AStr v, AStrs enum_values] param
            else Inr ())"

definition parse_size :: "string \<Rightarrow> (u32 \<times> u32) option" where
  "parse_size s =
     Option.bind (opt_or (split_once CHR ''x'' s) (split_once CHR ''X'' s)) (\<lambda>(w, h).
     Option.bind (parse_u32 w) (\<lambda>w. map_option (\<lambda>h. (w, h)) (parse_u32 h)))"

definition check_size :: "string \<Rightarrow> size_spec \<Rightarrow> string \<Rightarrow> val_failure + unit" where
  "check_size v spec param =
     (case parse_size v of
        None \<Rightarrow>
          invalid ''param_enum_mismatch'' (''{} '{}' must be 'WxH'' @ [CHR 0x27])
            [AStr param, AStr v] param
      | Some (w, h) \<Rightarrow>
          (case spec of
             SizeEnum values \<Rightarrow>
               if (w, h) \<in> set values then Inr ()
               else invalid ''param_enum_mismatch'' ''{} '{}' not in allowed sizes {:?}''
                      [AStr param, AStr v, ASizes values] param
           | Freeform f \<Rightarrow>
               if w < sf_min_width f \<or> sf_max_width f < w \<or> h < sf_min_height f \<or> sf_max_height f < h
               then invalid ''param_out_of_range'' ''{} '{}' outside bounds'' [AStr param, AStr v] param
               else (case sf_multiple_of f of
                 None \<Rightarrow> Inr ()
               | Some m \<Rightarrow>
                   if m = 0 then Inl RemainderByZero
                   else if w mod m \<noteq> 0 \<or> h mod m \<noteq> 0
                   then invalid ''param_out_of_range'' ''{} '{}' not divisible by {}''
                          [AStr param, AStr v, AInt (uint m)] param
                   else Inr ())))"

text \<open>
  The bodies of the checks: for a value and the model's spec of the parameter, nothing when the
  spec is of another kind, else the outcome of the check.
\<close>

definition outside :: "'a::linorder option \<Rightarrow> 'a option \<Rightarrow> 'a \<Rightarrow> bool" where
  "outside mn mx v =
     ((case mn of Some m \<Rightarrow> v < m | None \<Rightarrow> False) \<or> (case mx of Some m \<Rightarrow> m < v | None \<Rightarrow> False))"

definition seed_check :: "i64 \<Rightarrow> param_spec \<Rightarrow> (val_failure + unit) option" where
  "seed_check v spec =
     (case spec of
        PSeed mn mx \<Rightarrow>
          Some (if v < mn \<or> mx < v
                then invalid ''param_out_of_range'' ''seed {} outside [{}, {}]''
                       [AInt v, AInt mn, AInt mx] ''seed''
                else Inr ())
      | _ \<Rightarrow> None)"

definition length_check :: "string \<Rightarrow> string \<Rightarrow> param_spec \<Rightarrow> (val_failure + unit) option" where
  "length_check fmt v spec =
     (case spec of
        PString s \<Rightarrow>
          Some (case ss_max_length s of
                  Some m \<Rightarrow>
                    if m < length v
                    then invalid ''param_too_long'' fmt
                           [AInt (int (length v)), AInt (int m)] ''negative_prompt''
                    else Inr ()
                | None \<Rightarrow> Inr ())
      | _ \<Rightarrow> None)"

definition int_check :: "string \<Rightarrow> u32 \<Rightarrow> param_spec \<Rightarrow> (val_failure + unit) option" where
  "int_check key v spec =
     (case spec of
        PInt s \<Rightarrow>
          Some (if outside (si_min s) (si_max s) (uint v)
                then invalid ''param_out_of_range'' (key @ '' {} out of range'') [AInt (uint v)] key
                else Inr ())
      | _ \<Rightarrow> None)"

definition float_check :: "string \<Rightarrow> f64 \<Rightarrow> param_spec \<Rightarrow> (val_failure + unit) option" where
  "float_check key v spec =
     (case spec of
        PFloat s \<Rightarrow>
          Some (if outside (sfl_min s) (sfl_max s) v
                then invalid ''param_out_of_range'' (key @ '' {} out of range'') [AReal v] key
                else Inr ())
      | _ \<Rightarrow> None)"

definition text_check :: "string \<Rightarrow> string \<Rightarrow> param_spec \<Rightarrow> (val_failure + unit) option" where
  "text_check key v spec =
     (case spec of
        PString s \<Rightarrow> Some (check_string v (ss_enum_values s) (ss_max_length s) key)
      | _ \<Rightarrow> None)"

definition ratio_check :: "string \<Rightarrow> param_spec \<Rightarrow> (val_failure + unit) option" where
  "ratio_check v spec =
     (case spec of
        PAspectRatio s \<Rightarrow>
          Some (if v \<in> set (sa_allowed s) then Inr ()
                else invalid ''param_enum_mismatch'' ''aspect_ratio '{}' not in {:?}''
                       [AStr v, AStrs (sa_allowed s)] ''aspect_ratio'')
      | _ \<Rightarrow> None)"

definition size_check :: "string \<Rightarrow> param_spec \<Rightarrow> (val_failure + unit) option" where
  "size_check v spec = (case spec of PSize s \<Rightarrow> Some (check_size v s ''size'') | _ \<Rightarrow> None)"

section \<open>Checking a request\<close>

text \<open>
  One parameter of an image request (the macro \<open>check_param!\<close>): the field afterwards, and the
  names of the dropped parameters. A spec of another kind is an error in lax mode too.
\<close>

definition check_param ::
  "model_schema \<Rightarrow> bool \<Rightarrow> string \<Rightarrow> 'a option \<Rightarrow> ('a \<Rightarrow> param_spec \<Rightarrow> (val_failure + unit) option)
   \<Rightarrow> string list \<Rightarrow> val_failure + 'a option \<times> string list" where
  "check_param schema strict key field check dropped =
     (case field of
        None \<Rightarrow> Inr (None, dropped)
      | Some v \<Rightarrow>
          (case map_of (ms_params schema) key of
             Some spec \<Rightarrow>
               (case check v spec of
                  Some r \<Rightarrow> and_then r (\<lambda>_. Inr (field, dropped))
                | None \<Rightarrow>
                    invalid ''param_unsupported'' ''Parameter '{}' has an incompatible kind for model '{}'.''
                      [AStr key, AStr (ms_id schema)] key)
           | None \<Rightarrow>
               if strict
               then invalid ''param_unsupported'' ''Parameter '{}' is not supported by model '{}'.''
                      [AStr key, AStr (ms_id schema)] key
               else Inr (None, dropped @ [key])))"

text \<open>One parameter of a video request: a spec of another kind counts as none.\<close>

definition check_video_param ::
  "model_schema \<Rightarrow> bool \<Rightarrow> string \<Rightarrow> 'a option \<Rightarrow> ('a \<Rightarrow> param_spec \<Rightarrow> (val_failure + unit) option)
   \<Rightarrow> string list \<Rightarrow> val_failure + 'a option \<times> string list" where
  "check_video_param schema strict key field check dropped =
     (case field of
        None \<Rightarrow> Inr (None, dropped)
      | Some v \<Rightarrow>
          (case Option.bind (map_of (ms_params schema) key) (check v) of
             Some r \<Rightarrow> and_then r (\<lambda>_. Inr (field, dropped))
           | None \<Rightarrow>
               if strict
               then invalid ''param_unsupported'' (key @ '' not supported by '{}'' @ [CHR 0x27])
                      [AStr (ms_id schema)] key
               else Inr (None, dropped @ [key])))"

text \<open>Reference images: the role of each, then the number of images of each role.\<close>

fun keep_refs ::
  "model_schema \<Rightarrow> ref_input_spec \<Rightarrow> bool \<Rightarrow> reference_image list \<Rightarrow> string list
   \<Rightarrow> val_failure + reference_image list \<times> string list" where
  "keep_refs schema ri strict [] dropped = Inr ([], dropped)"
| "keep_refs schema ri strict (r # rs) dropped =
     (case opt_or (ri_role r) (rs_default_role ri) of
        None \<Rightarrow>
          if strict
          then invalid ''ref_role_unknown'' ''reference image missing role and model has no default_role''
                 [] ''reference_images''
          else keep_refs schema ri strict rs (dropped @ [''reference_images[no_role]''])
      | Some role \<Rightarrow>
          if \<not> has_key (rs_roles ri) role
          then if strict
               then invalid ''ref_role_unknown'' (''role '{}' not declared for model '{}'' @ [CHR 0x27])
                      [AStr role, AStr (ms_id schema)] ''reference_images''
               else keep_refs schema ri strict rs (dropped @ [''reference_images['' @ role @ '']''])
          else and_then (keep_refs schema ri strict rs dropped) (\<lambda>(keep, dropped').
            Inr (r\<lparr>ri_role := Some role\<rparr> # keep, dropped')))"

definition count_roles :: "reference_image list \<Rightarrow> string \<rightharpoonup> u32" where
  "count_roles keep =
     fold (\<lambda>r counts. counts(the (ri_role r) \<mapsto> unwrap_or 0 (counts (the (ri_role r))) + 1))
       keep Map.empty"

fun check_roles :: "(string \<rightharpoonup> u32) \<Rightarrow> (string \<times> ref_role_spec) list \<Rightarrow> val_failure + unit" where
  "check_roles counts [] = Inr ()"
| "check_roles counts ((role, spec) # roles) =
     (let c = unwrap_or 0 (counts role)
      in if rr_required spec \<and> c = 0
         then invalid ''ref_role_required'' ''role '{}' is required'' [AStr role] ''reference_images''
         else if 0 < c \<and> c < rr_min_count spec
         then invalid ''ref_role_count_out_of_range'' ''role '{}' count {} < min {}''
                [AStr role, AInt (uint c), AInt (uint (rr_min_count spec))] ''reference_images''
         else if rr_max_count spec < c
         then invalid ''ref_role_count_out_of_range'' ''role '{}' count {} > max {}''
                [AStr role, AInt (uint c), AInt (uint (rr_max_count spec))] ''reference_images''
         else check_roles counts roles)"

definition check_refs ::
  "model_schema \<Rightarrow> reference_image list \<Rightarrow> bool \<Rightarrow> string list
   \<Rightarrow> val_failure + reference_image list \<times> string list" where
  "check_refs schema refs strict dropped =
     (case ms_ref_inputs schema of
        None \<Rightarrow>
          if refs \<noteq> [] \<and> strict
          then invalid ''ref_role_unknown'' ''model '{}' does not accept reference images''
                 [AStr (ms_id schema)] ''reference_images''
          else Inr ([], dropped @ map (\<lambda>_. ''reference_images'') refs)
      | Some ri \<Rightarrow>
          if rs_max_total ri < of_nat (length refs)
          then invalid ''ref_total_exceeded'' ''{} reference images > max {}''
                 [AInt (int (length refs)), AInt (uint (rs_max_total ri))] ''reference_images''
          else and_then (keep_refs schema ri strict refs dropped) (\<lambda>(keep, dropped').
            and_then (check_roles (count_roles keep) (rs_roles ri)) (\<lambda>_. Inr (keep, dropped'))))"

text \<open>The extra options: in strict mode only keys of the model's allow list.\<close>

fun filter_extra ::
  "model_schema \<Rightarrow> (string \<times> json) list \<Rightarrow> (string \<times> json) list
   \<Rightarrow> val_failure + (string \<times> json) list" where
  "filter_extra schema [] filtered = Inr filtered"
| "filter_extra schema ((k, val) # obj) filtered =
     (if k \<in> set (ms_extra_allowlist schema) then filter_extra schema obj (al_insert k val filtered)
      else invalid ''extra_key_unsupported'' (''extra key '{}' not in allowlist for model '{}'' @ [CHR 0x27])
             [AStr k, AStr (ms_id schema)] (''extra.'' @ k))"

definition check_extra :: "model_schema \<Rightarrow> json option \<Rightarrow> bool \<Rightarrow> val_failure + json option" where
  "check_extra schema extra strict =
     (case extra of
        None \<Rightarrow> Inr None
      | Some v \<Rightarrow>
          (case json_object v of
             None \<Rightarrow> invalid ''extra_key_unsupported'' ''extra must be a JSON object'' [] ''extra''
           | Some obj \<Rightarrow>
               if \<not> strict then Inr extra
               else and_then (filter_extra schema obj []) (\<lambda>filtered. Inr (Some (JObj filtered)))))"

definition validate_image ::
  "model_schema \<Rightarrow> image_request \<Rightarrow> val_failure + image_request \<times> string list" where
  "validate_image schema req =
     (let base = ir_base req; strict = br_strict base in
      and_then (check_prompt (ms_prompt schema) (br_prompt base)) (\<lambda>_.
      and_then (check_param schema strict ''seed'' (br_seed base) seed_check []) (\<lambda>(seed, d).
      and_then (check_param schema strict ''negative_prompt'' (br_negative_prompt base)
        (length_check ''negative_prompt length {} exceeds {}'') d) (\<lambda>(negative, d).
      and_then (check_param schema strict ''steps'' (ir_steps req) (int_check ''steps'') d) (\<lambda>(steps, d).
      and_then (check_param schema strict ''guidance_scale'' (ir_guidance_scale req)
        (float_check ''guidance_scale'') d) (\<lambda>(guidance, d).
      and_then (check_param schema strict ''strength'' (ir_strength req) (float_check ''strength'') d)
        (\<lambda>(strength, d).
      and_then (check_param schema strict ''quality'' (ir_quality req) (text_check ''quality'') d)
        (\<lambda>(quality, d).
      and_then (check_param schema strict ''style'' (ir_style req) (text_check ''style'') d) (\<lambda>(style, d).
      and_then (check_param schema strict ''aspect_ratio'' (ir_aspect_ratio req) ratio_check d)
        (\<lambda>(ratio, d).
      and_then (check_param schema strict ''size'' (ir_size req) size_check d) (\<lambda>(size, d).
      and_then (check_refs schema (br_reference_images base) strict d) (\<lambda>(refs, d).
      and_then (check_extra schema (br_extra base) strict) (\<lambda>extra.
      Inr (req\<lparr>
          ir_base := base\<lparr>br_seed := seed, br_negative_prompt := negative,
            br_reference_images := refs, br_extra := extra\<rparr>,
          ir_steps := steps, ir_guidance_scale := guidance, ir_strength := strength,
          ir_quality := quality, ir_style := style, ir_aspect_ratio := ratio, ir_size := size\<rparr>,
        d))))))))))))))"

text \<open>
  The duration of a video: only a positive one is checked. \<open>round() as i64\<close> rounds half away
  from zero and saturates.
\<close>

definition round_to_i64 :: "f64 \<Rightarrow> i64" where
  "round_to_i64 v =
     max (- (2 ^ 63)) (min (2 ^ 63 - 1) (if 0 \<le> v then \<lfloor>v + 1 / 2\<rfloor> else \<lceil>v - 1 / 2\<rceil>))"

definition check_duration :: "model_schema \<Rightarrow> f64 option \<Rightarrow> val_failure + unit" where
  "check_duration schema duration =
     (case opt_filter (\<lambda>v. 0 < v) duration of
        None \<Rightarrow> Inr ()
      | Some v \<Rightarrow>
          (case map_of (ms_params schema) ''duration_seconds'' of
             Some (PFloat s) \<Rightarrow>
               if outside (sfl_min s) (sfl_max s) v
               then invalid ''param_out_of_range'' ''duration_seconds {} out of range'' [AReal v]
                      ''duration_seconds''
               else Inr ()
           | Some (PInt s) \<Rightarrow>
               if outside (si_min s) (si_max s) (round_to_i64 v)
               then invalid ''param_out_of_range'' ''duration_seconds {} out of range''
                      [AInt (round_to_i64 v)] ''duration_seconds''
               else Inr ()
           | _ \<Rightarrow> Inr ()))"

definition resolve_duration_seconds :: "model_schema \<Rightarrow> f64 option \<Rightarrow> f64" where
  "resolve_duration_seconds schema requested =
     (case requested of
        Some v \<Rightarrow> v
      | None \<Rightarrow>
          (case map_of (ms_params schema) ''duration_seconds'' of
             Some (PFloat s) \<Rightarrow> unwrap_or 5 (sfl_default s)
           | Some (PInt s) \<Rightarrow> unwrap_or 5 (map_option (\<lambda>d. round_f64 (of_int d)) (si_default s))
           | _ \<Rightarrow> 5))"

definition validate_video ::
  "model_schema \<Rightarrow> video_request \<Rightarrow> val_failure + video_request \<times> string list" where
  "validate_video schema req =
     (let base = vr_base req; strict = br_strict base in
      and_then (check_prompt (ms_prompt schema) (br_prompt base)) (\<lambda>_.
      and_then (check_video_param schema strict ''seed'' (br_seed base) seed_check []) (\<lambda>(seed, d).
      and_then (check_video_param schema strict ''negative_prompt'' (br_negative_prompt base)
        (length_check ''negative_prompt length {} > {}'') d) (\<lambda>(negative, d).
      and_then (check_duration schema (vr_duration_seconds req)) (\<lambda>_.
      and_then (check_video_param schema strict ''aspect_ratio'' (vr_aspect_ratio req) ratio_check d)
        (\<lambda>(ratio, d).
      and_then (check_video_param schema strict ''fps'' (vr_fps req) (int_check ''fps'') d) (\<lambda>(fps, d).
      and_then (check_video_param schema strict ''resolution'' (vr_resolution req)
        (text_check ''resolution'') d) (\<lambda>(resolution, d).
      and_then (check_refs schema (br_reference_images base) strict d) (\<lambda>(refs, d).
      and_then (check_extra schema (br_extra base) strict) (\<lambda>extra.
      Inr (req\<lparr>
          vr_base := base\<lparr>br_seed := seed, br_negative_prompt := negative,
            br_reference_images := refs, br_extra := extra\<rparr>,
          vr_aspect_ratio := ratio, vr_fps := fps, vr_resolution := resolution\<rparr>,
        d)))))))))))"

section \<open>What the checks mean\<close>

text \<open>
  An independent reading of the schema: which values a spec admits, and what a whole request
  must satisfy.
\<close>

definition in_range :: "'a::linorder option \<Rightarrow> 'a option \<Rightarrow> 'a \<Rightarrow> bool" where
  "in_range mn mx v = (pred_option (\<lambda>m. m \<le> v) mn \<and> pred_option (\<lambda>m. v \<le> m) mx)"

fun seed_ok :: "i64 \<Rightarrow> param_spec \<Rightarrow> bool" where
  "seed_ok v (PSeed mn mx) = (mn \<le> v \<and> v \<le> mx)"
| "seed_ok v _ = False"

fun length_ok :: "string \<Rightarrow> param_spec \<Rightarrow> bool" where
  "length_ok v (PString s) = pred_option (\<lambda>m. length v \<le> m) (ss_max_length s)"
| "length_ok v _ = False"

fun int_ok :: "u32 \<Rightarrow> param_spec \<Rightarrow> bool" where
  "int_ok v (PInt s) = in_range (si_min s) (si_max s) (uint v)"
| "int_ok v _ = False"

fun float_ok :: "f64 \<Rightarrow> param_spec \<Rightarrow> bool" where
  "float_ok v (PFloat s) = in_range (sfl_min s) (sfl_max s) v"
| "float_ok v _ = False"

fun text_ok :: "string \<Rightarrow> param_spec \<Rightarrow> bool" where
  "text_ok v (PString s) =
     (pred_option (\<lambda>m. length v \<le> m) (ss_max_length s)
      \<and> v \<in> (if ss_enum_values s = [] then UNIV else set (ss_enum_values s)))"
| "text_ok v _ = False"

fun ratio_ok :: "string \<Rightarrow> param_spec \<Rightarrow> bool" where
  "ratio_ok v (PAspectRatio s) = (v \<in> set (sa_allowed s))"
| "ratio_ok v _ = False"

fun size_ok :: "string \<Rightarrow> param_spec \<Rightarrow> bool" where
  "size_ok v (PSize (SizeEnum values)) = (parse_size v \<in> Some ` set values)"
| "size_ok v (PSize (Freeform f)) =
     (\<exists>w h. parse_size v = Some (w, h) \<and> sf_min_width f \<le> w \<and> w \<le> sf_max_width f
       \<and> sf_min_height f \<le> h \<and> h \<le> sf_max_height f
       \<and> pred_option (\<lambda>m. m \<noteq> 0 \<and> unat m dvd unat w \<and> unat m dvd unat h) (sf_multiple_of f))"
| "size_ok v _ = False"

text \<open>A check agrees with a predicate when it succeeds exactly on the values the predicate admits.\<close>

definition decides :: "('a \<Rightarrow> param_spec \<Rightarrow> (val_failure + unit) option) \<Rightarrow> ('a \<Rightarrow> param_spec \<Rightarrow> bool) \<Rightarrow> bool" where
  "decides check ok = (\<forall>v spec. check v spec = Some (Inr ()) \<longleftrightarrow> ok v spec)"

lemma outside_iff: "outside mn mx v \<longleftrightarrow> \<not> in_range mn mx v"
  by (auto simp: outside_def in_range_def split: option.splits)

lemma pred_option_case: "pred_option P x \<longleftrightarrow> (case x of None \<Rightarrow> True | Some v \<Rightarrow> P v)"
  by (cases x) auto

lemma word_mod_0: "w mod m = 0 \<longleftrightarrow> unat m dvd unat w" for w m :: u32
  by (simp add: dvd_eq_mod_eq_0 unat_mod_distrib flip: unat_eq_zero)

lemma check_string_ok:
  "check_string v es mx p = Inr () \<longleftrightarrow>
     pred_option (\<lambda>m. length v \<le> m) mx \<and> v \<in> (if es = [] then UNIV else set es)"
  by (auto simp: check_string_def and_then_Inr split: option.splits)

lemma check_size_ok: "check_size v spec p = Inr () \<longleftrightarrow> size_ok v (PSize spec)"
proof (cases spec)
  case (Freeform f)
  then show ?thesis
    by (auto simp: check_size_def word_mod_0 pred_option_case not_less split: option.splits if_splits)
next
  case (SizeEnum vs)
  then show ?thesis by (auto simp: check_size_def split: option.splits)
qed

lemma decides_rules [simp, intro]:
  "decides seed_check seed_ok" "decides (length_check fmt) length_ok"
  "decides (int_check k) int_ok" "decides (float_check k) float_ok"
  "decides (text_check k) text_ok" "decides ratio_check ratio_ok" "decides size_check size_ok"
  unfolding decides_def
  by (simp_all add: seed_check_def length_check_def int_check_def float_check_def text_check_def
      ratio_check_def size_check_def check_string_ok check_size_ok outside_iff pred_option_case
      not_less split: param_spec.splits option.splits)

lemma decides_ok: "decides check ok \<Longrightarrow> ok v spec \<longleftrightarrow> check v spec = Some (Inr ())"
  by (simp add: decides_def)

text \<open>A field fits the schema when it is absent or its spec admits the value.\<close>

definition fits :: "model_schema \<Rightarrow> string \<Rightarrow> ('a \<Rightarrow> param_spec \<Rightarrow> bool) \<Rightarrow> 'a option \<Rightarrow> bool" where
  "fits schema key ok field =
     (case field of
        None \<Rightarrow> True
      | Some v \<Rightarrow>
          (case map_of (ms_params schema) key of None \<Rightarrow> False | Some spec \<Rightarrow> ok v spec))"

lemma fits_None [simp]: "fits schema key ok None"
  by (simp add: fits_def)


lemma check_video_param_keeps:
  assumes "decides check ok"
  shows "check_video_param schema strict key f check d = Inr (f, d) \<longleftrightarrow> fits schema key ok f"
  by (auto simp: check_video_param_def fits_def decides_ok [OF assms] and_then_Inr
      split: option.splits bind_splits)

text \<open>What a check leaves: the field as it was, or, in lax mode, nothing and a note of it.\<close>

definition removed :: "string \<Rightarrow> 'a option \<Rightarrow> 'a option \<Rightarrow> string list" where
  "removed key f f' = (if f \<noteq> None \<and> f' = None then [key] else [])"

definition reduced :: "bool \<Rightarrow> 'a option \<Rightarrow> 'a option \<Rightarrow> bool" where
  "reduced strict f f' = (if strict then f' = f else f' \<in> {f, None})"


lemma check_video_param_result:
  assumes "decides check ok" and "check_video_param schema strict key f check d = Inr (f', d')"
  shows "fits schema key ok f' \<and> reduced strict f f' \<and> d' = d @ removed key f f'"
  using assms by (auto simp: check_video_param_def fits_def decides_def and_then_Inr reduced_def removed_def
      split: option.splits if_splits bind_splits)

definition prompt_fits :: "prompt_spec \<Rightarrow> string \<Rightarrow> bool" where
  "prompt_fits spec v =
     (if trim v = [] then \<not> ps_required spec
      else in_range (ps_min_length spec) (ps_max_length spec) (length v))"

lemma check_prompt_ok: "check_prompt spec v = Inr () \<longleftrightarrow> prompt_fits spec v"
  by (auto simp: check_prompt_def prompt_fits_def in_range_def and_then_Inr split: option.splits)

subsection \<open>Reference images\<close>

definition role_count_ok :: "ref_role_spec \<Rightarrow> nat \<Rightarrow> bool" where
  "role_count_ok spec c =
     (if c = 0 then \<not> rr_required spec
      else unat (rr_min_count spec) \<le> c \<and> c \<le> unat (rr_max_count spec))"

definition with_role :: "string \<Rightarrow> reference_image list \<Rightarrow> reference_image list" where
  "with_role role = filter (\<lambda>r. ri_role r = Some role)"

definition declared :: "ref_input_spec \<Rightarrow> reference_image \<Rightarrow> bool" where
  "declared ri r = (case ri_role r of None \<Rightarrow> False | Some role \<Rightarrow> has_key (rs_roles ri) role)"

definition refs_fit :: "model_schema \<Rightarrow> reference_image list \<Rightarrow> bool" where
  "refs_fit schema refs =
     (case ms_ref_inputs schema of
        None \<Rightarrow> refs = []
      | Some ri \<Rightarrow> length refs \<le> unat (rs_max_total ri) \<and> list_all (declared ri) refs
          \<and> list_all (\<lambda>(role, spec). role_count_ok spec (length (with_role role refs))) (rs_roles ri))"

lemma count_roles_gen:
  assumes "\<And>r. r \<in> set keep \<Longrightarrow> ri_role r \<noteq> None"
  shows "unwrap_or 0 (fold (\<lambda>r counts. counts(the (ri_role r) \<mapsto> unwrap_or 0 (counts (the (ri_role r))) + 1))
      keep m role) = unwrap_or 0 (m role) + of_nat (length (with_role role keep))"
  using assms
proof (induction keep arbitrary: m)
  case (Cons r keep)
  then obtain role' where "ri_role r = Some role'" by fastforce
  with Cons show ?case by (simp add: with_role_def ac_simps)
qed (simp add: with_role_def)

lemma count_roles:
  assumes "list_all (declared ri) keep"
  shows "unwrap_or 0 (count_roles keep role) = of_nat (length (with_role role keep))"
  unfolding count_roles_def using assms
  by (subst count_roles_gen) (auto simp: list_all_iff declared_def split: option.splits)

lemma check_roles_ok:
  assumes "list_all (declared ri) keep" and "length keep < 2 ^ 32"
  shows "check_roles (count_roles keep) roles = Inr () \<longleftrightarrow>
    list_all (\<lambda>(role, spec). role_count_ok spec (length (with_role role keep))) roles"
proof (induction roles)
  case (Cons a roles)
  obtain role spec where a: "a = (role, spec)" by (cases a)
  have l: "length (with_role role keep) < 2 ^ 32"
    using assms(2) unfolding with_role_def by (rule le_less_trans [OF length_filter_le])
  then have u: "unat (of_nat (length (with_role role keep)) :: u32) = length (with_role role keep)"
    by (rule unat_of_nat_u32)
  show ?case
    using Cons.IH
    by (auto simp: a Let_def count_roles [OF assms(1)] role_count_ok_def word_less_nat_alt u
        not_less simp flip: unat_eq_zero)
qed simp

definition with_default :: "ref_input_spec \<Rightarrow> reference_image \<Rightarrow> reference_image" where
  "with_default ri r = r\<lparr>ri_role := opt_or (ri_role r) (rs_default_role ri)\<rparr>"

definition default_roles :: "model_schema \<Rightarrow> reference_image list \<Rightarrow> reference_image list" where
  "default_roles schema refs =
     (case ms_ref_inputs schema of None \<Rightarrow> refs | Some ri \<Rightarrow> map (with_default ri) refs)"

lemma keep_refs_result:
  "keep_refs schema ri strict refs d = Inr (keep, d') \<Longrightarrow>
     list_all (declared ri) keep \<and> subseq keep (map (with_default ri) refs)
     \<and> (\<exists>rd. d' = d @ rd \<and> length rd + length keep = length refs \<and> (strict \<longrightarrow> rd = []))"
proof (induction refs arbitrary: d keep d')
  case (Cons r rs)
  show ?case
  proof (cases "opt_or (ri_role r) (rs_default_role ri)")
    case None
    with Cons.prems have "\<not> strict"
      and "keep_refs schema ri strict rs (d @ [''reference_images[no_role]'']) = Inr (keep, d')"
      by (auto split: if_splits)
    with Cons.IH [OF this(2)] show ?thesis by auto
  next
    case (Some role)
    show ?thesis
    proof (cases "has_key (rs_roles ri) role")
      case False
      with Some Cons.prems have "\<not> strict"
        and "keep_refs schema ri strict rs (d @ [''reference_images['' @ role @ '']'']) = Inr (keep, d')"
        by (auto split: if_splits)
      with Cons.IH [OF this(2)] show ?thesis by auto
    next
      case True
      with Some Cons.prems obtain k where k: "keep_refs schema ri strict rs d = Inr (k, d')"
        and "keep = r\<lparr>ri_role := Some role\<rparr> # k" by (auto simp: and_then_Inr)
      then have "keep = with_default ri r # k" using Some by (simp add: with_default_def)
      then show ?thesis using Cons.IH [OF k] True Some
        by (auto simp: declared_def with_default_def)
    qed
  qed
qed simp

lemma keep_refs_same: "list_all (declared ri) refs \<Longrightarrow> keep_refs schema ri strict refs d = Inr (refs, d)"
  by (induction refs) (auto simp: declared_def split: option.splits)

lemma check_refs_result:
  assumes "check_refs schema refs strict d = Inr (refs', d')" and l: "length refs < 2 ^ 32"
  shows "refs_fit schema refs' \<and> subseq refs' (default_roles schema refs)
    \<and> (\<exists>rd. d' = d @ rd \<and> length rd + length refs' = length refs \<and> (strict \<longrightarrow> rd = []))"
proof (cases "ms_ref_inputs schema")
  case None
  then show ?thesis using assms by (auto simp: check_refs_def refs_fit_def split: if_splits)
next
  case (Some ri)
  with assms have le: "length refs \<le> unat (rs_max_total ri)"
    and k: "keep_refs schema ri strict refs d = Inr (refs', d')"
    and c: "check_roles (count_roles refs') (rs_roles ri) = Inr ()"
    by (auto simp: check_refs_def and_then_Inr not_less word_le_nat_alt unat_of_nat_u32 split: if_splits)
  from keep_refs_result [OF k] have d: "list_all (declared ri) refs'" and "length refs' \<le> length refs"
    by auto
  then show ?thesis
    using keep_refs_result [OF k] c le l Some
    by (simp add: refs_fit_def default_roles_def check_roles_ok [OF d])
qed

lemma check_refs_keeps:
  assumes "length refs < 2 ^ 32"
  shows "check_refs schema refs strict d = Inr (refs, d) \<longleftrightarrow> refs_fit schema refs"
proof
  assume fit: "refs_fit schema refs"
  show "check_refs schema refs strict d = Inr (refs, d)"
  proof (cases "ms_ref_inputs schema")
    case None
    with fit show ?thesis by (simp add: check_refs_def refs_fit_def)
  next
    case (Some ri)
    with fit have d: "list_all (declared ri) refs" and le: "length refs \<le> unat (rs_max_total ri)"
      by (simp_all add: refs_fit_def)
    have c: "check_roles (count_roles refs) (rs_roles ri) = Inr ()"
      using fit Some by (simp add: refs_fit_def check_roles_ok [OF d assms])
    have "\<not> rs_max_total ri < of_nat (length refs)"
      using le by (simp add: not_less word_le_nat_alt unat_of_nat_u32 [OF assms])
    with c show ?thesis by (simp add: check_refs_def Some keep_refs_same [OF d])
  qed
qed (use check_refs_result [OF _ assms] in blast)

subsection \<open>Extra options\<close>

text \<open>The members of an object have different names, as in any parsed JSON object.\<close>

definition extra_wf :: "json option \<Rightarrow> bool" where
  "extra_wf extra = (case extra of Some (JObj obj) \<Rightarrow> distinct (map fst obj) | _ \<Rightarrow> True)"

definition extra_fits :: "model_schema \<Rightarrow> bool \<Rightarrow> json option \<Rightarrow> bool" where
  "extra_fits schema strict extra =
     (case extra of
        None \<Rightarrow> True
      | Some (JObj obj) \<Rightarrow> if strict then fst ` set obj \<subseteq> set (ms_extra_allowlist schema) else True
      | Some _ \<Rightarrow> False)"

lemma filter_extra_ok:
  "distinct (map fst (acc @ obj)) \<Longrightarrow>
     filter_extra schema obj acc = Inr out \<longleftrightarrow>
       fst ` set obj \<subseteq> set (ms_extra_allowlist schema) \<and> out = acc @ obj"
proof (induction obj arbitrary: acc)
  case (Cons a obj)
  obtain k v where a: "a = (k, v)" by (cases a)
  with Cons.prems have "al_insert k v acc = acc @ [(k, v)]" by (intro al_insert_new) auto
  with Cons.IH [of "acc @ [(k, v)]"] Cons.prems show ?case by (simp add: a)
qed auto

lemma check_extra_ok:
  "extra_wf extra \<Longrightarrow>
     check_extra schema extra strict = Inr extra' \<longleftrightarrow> extra_fits schema strict extra \<and> extra' = extra"
  by (cases extra; cases "the extra")
     (auto simp: check_extra_def extra_fits_def extra_wf_def and_then_Inr filter_extra_ok)

section \<open>Whole requests\<close>





lemmas video_param_result = check_video_param_result [OF decides_rules(1)]
  check_video_param_result [OF decides_rules(2)] check_video_param_result [OF decides_rules(3)]
  check_video_param_result [OF decides_rules(5)] check_video_param_result [OF decides_rules(6)]


lemmas video_param_keeps = check_video_param_keeps [OF decides_rules(1)]
  check_video_param_keeps [OF decides_rules(2)] check_video_param_keeps [OF decides_rules(3)]
  check_video_param_keeps [OF decides_rules(5)] check_video_param_keeps [OF decides_rules(6)]

text \<open>What a request must satisfy to be a parsed one at all.\<close>

definition base_wf :: "base_request \<Rightarrow> bool" where
  "base_wf b = (length (br_reference_images b) < 2 ^ 32 \<and> extra_wf (br_extra b))"



lemma removed_strict: "reduced True f f' \<Longrightarrow> removed key f f' = []"
  by (auto simp: reduced_def removed_def)



lemma default_roles_length [simp]: "length (default_roles schema refs) = length refs"
  by (simp add: default_roles_def split: option.splits)



subsection \<open>Video requests\<close>

text \<open>A duration fits when it is not positive, or when the spec of the duration admits it.\<close>

definition duration_fits :: "model_schema \<Rightarrow> f64 option \<Rightarrow> bool" where
  "duration_fits schema duration =
     (case duration of
        None \<Rightarrow> True
      | Some v \<Rightarrow>
          if v \<le> 0 then True
          else case map_of (ms_params schema) ''duration_seconds'' of
            Some (PFloat s) \<Rightarrow> in_range (sfl_min s) (sfl_max s) v
          | Some (PInt s) \<Rightarrow> in_range (si_min s) (si_max s) (round_to_i64 v)
          | _ \<Rightarrow> True)"

lemma check_duration_ok: "check_duration schema duration = Inr () \<longleftrightarrow> duration_fits schema duration"
  by (auto simp: check_duration_def duration_fits_def outside_iff not_le
      split: option.splits param_spec.splits)

definition video_fits :: "model_schema \<Rightarrow> video_request \<Rightarrow> bool" where
  "video_fits schema req =
     (let base = vr_base req in
      prompt_fits (ms_prompt schema) (br_prompt base)
      \<and> fits schema ''seed'' seed_ok (br_seed base)
      \<and> fits schema ''negative_prompt'' length_ok (br_negative_prompt base)
      \<and> duration_fits schema (vr_duration_seconds req)
      \<and> fits schema ''aspect_ratio'' ratio_ok (vr_aspect_ratio req)
      \<and> fits schema ''fps'' int_ok (vr_fps req)
      \<and> fits schema ''resolution'' text_ok (vr_resolution req)
      \<and> refs_fit schema (br_reference_images base)
      \<and> extra_fits schema (br_strict base) (br_extra base))"

definition video_reduced :: "model_schema \<Rightarrow> video_request \<Rightarrow> video_request \<Rightarrow> bool" where
  "video_reduced schema req out =
     (let b = vr_base req; b' = vr_base out; strict = br_strict b in
      reduced strict (br_seed b) (br_seed b')
      \<and> reduced strict (br_negative_prompt b) (br_negative_prompt b')
      \<and> reduced strict (vr_aspect_ratio req) (vr_aspect_ratio out)
      \<and> reduced strict (vr_fps req) (vr_fps out)
      \<and> reduced strict (vr_resolution req) (vr_resolution out)
      \<and> subseq (br_reference_images b') (default_roles schema (br_reference_images b))
      \<and> vr_duration_seconds out = vr_duration_seconds req
      \<and> b' = b\<lparr>br_seed := br_seed b', br_negative_prompt := br_negative_prompt b',
           br_reference_images := br_reference_images b'\<rparr>)"

definition video_removed :: "video_request \<Rightarrow> video_request \<Rightarrow> string list" where
  "video_removed req out =
     (let b = vr_base req; b' = vr_base out in
      removed ''seed'' (br_seed b) (br_seed b')
      @ removed ''negative_prompt'' (br_negative_prompt b) (br_negative_prompt b')
      @ removed ''aspect_ratio'' (vr_aspect_ratio req) (vr_aspect_ratio out)
      @ removed ''fps'' (vr_fps req) (vr_fps out)
      @ removed ''resolution'' (vr_resolution req) (vr_resolution out))"

lemma validate_video_steps:
  assumes "validate_video schema req = Inr (out, dropped)" and "base_wf (vr_base req)"
  shows "video_fits schema out \<and> video_reduced schema req out
    \<and> (\<exists>rd. dropped = video_removed req out @ rd
         \<and> length rd + length (br_reference_images (vr_base out)) = length (br_reference_images (vr_base req))
         \<and> (br_strict (vr_base req) \<longrightarrow> rd = []))"
proof -
  have w: "length (br_reference_images (vr_base req)) < 2 ^ 32" "extra_wf (br_extra (vr_base req))"
    using assms(2) by (auto simp: base_wf_def)
  from assms(1) show ?thesis
    unfolding validate_video_def Let_def
    apply (clarsimp simp: and_then_Inr check_extra_ok [OF w(2)] check_duration_ok)
    apply (drule video_param_result check_refs_result [OF _ w(1)])+
    apply (clarsimp simp: video_fits_def video_reduced_def video_removed_def check_prompt_ok Let_def)
    done
qed

lemma validate_video_fitting:
  assumes "video_fits schema req" and "base_wf (vr_base req)"
  shows "validate_video schema req = Inr (req, [])"
proof -
  have w: "length (br_reference_images (vr_base req)) < 2 ^ 32" "extra_wf (br_extra (vr_base req))"
    using assms(2) by (auto simp: base_wf_def)
  have "check_extra schema (br_extra (vr_base req)) (br_strict (vr_base req)) = Inr (br_extra (vr_base req))"
    using assms(1) by (simp add: video_fits_def Let_def check_extra_ok [OF w(2)])
  moreover have "check_prompt (ms_prompt schema) (br_prompt (vr_base req)) = Inr ()"
    "check_duration schema (vr_duration_seconds req) = Inr ()"
    using assms(1) by (simp_all add: video_fits_def Let_def check_prompt_ok check_duration_ok)
  ultimately show ?thesis
    using assms(1)
    by (simp add: validate_video_def video_fits_def Let_def video_param_keeps [THEN iffD2]
        check_refs_keeps [OF w(1), THEN iffD2])
qed

lemma video_reduced_extra:
  assumes "video_reduced schema req out"
  shows "br_extra (vr_base out) = br_extra (vr_base req)"
proof -
  have "vr_base out = (vr_base req)\<lparr>br_seed := br_seed (vr_base out),
      br_negative_prompt := br_negative_prompt (vr_base out),
      br_reference_images := br_reference_images (vr_base out)\<rparr>"
    using assms by (simp add: video_reduced_def Let_def)
  from arg_cong [OF this, of br_extra] show ?thesis by simp
qed

text \<open>
  Whatever passes the validation of a video request fits the schema (a duration only if it is
  positive) and would pass it again unchanged; it is the request that came in, but for absent
  roles that take the model's default and, in lax mode, parameters and reference images that
  are left out and reported in the order of the checks. In strict mode nothing is left out.
\<close>

theorem validated_video_fits:
  assumes "validate_video schema req = Inr (out, dropped)" and "base_wf (vr_base req)"
  shows "video_fits schema out \<and> validate_video schema out = Inr (out, [])
    \<and> video_reduced schema req out
    \<and> take (length (video_removed req out)) dropped = video_removed req out
    \<and> length dropped + length (br_reference_images (vr_base out))
        = length (video_removed req out) + length (br_reference_images (vr_base req))
    \<and> (if br_strict (vr_base req) then dropped = [] else True)"
proof -
  obtain rd where out: "video_fits schema out" "video_reduced schema req out"
    and d: "dropped = video_removed req out @ rd"
    and l: "length rd + length (br_reference_images (vr_base out)) = length (br_reference_images (vr_base req))"
    and s: "br_strict (vr_base req) \<longrightarrow> rd = []"
    using validate_video_steps [OF assms] by blast
  have "base_wf (vr_base out)"
    using assms(2) l by (simp add: base_wf_def video_reduced_extra [OF out(2)])
  then have again: "validate_video schema out = Inr (out, [])" using out(1) by (rule validate_video_fitting [rotated])
  have "dropped = []" if "br_strict (vr_base req)"
    using that s out(2) by (simp add: d video_removed_def video_reduced_def removed_strict Let_def)
  then show ?thesis using out again d l by auto
qed

section \<open>Panics\<close>

lemma check_param_panic:
  assumes "check_param schema strict key f check d = Inl RemainderByZero"
  shows "\<exists>v spec. f = Some v \<and> map_of (ms_params schema) key = Some spec
    \<and> check v spec = Some (Inl RemainderByZero)"
  using assms
  by (auto simp: check_param_def and_then_Inl invalid_def split: option.splits if_splits)

lemma no_panic [simp]:
  "seed_check v spec \<noteq> Some (Inl RemainderByZero)" "length_check fmt s spec \<noteq> Some (Inl RemainderByZero)"
  "int_check k i spec \<noteq> Some (Inl RemainderByZero)" "float_check k x spec \<noteq> Some (Inl RemainderByZero)"
  "text_check k s spec \<noteq> Some (Inl RemainderByZero)" "ratio_check s spec \<noteq> Some (Inl RemainderByZero)"
  "check_prompt p s \<noteq> Inl RemainderByZero" "check_extra schema e strict \<noteq> Inl RemainderByZero"
proof -
  have "filter_extra schema obj acc \<noteq> Inl RemainderByZero" for obj acc
    by (induction schema obj acc rule: filter_extra.induct) (auto simp: invalid_def)
  then show "check_extra schema e strict \<noteq> Inl RemainderByZero"
    by (auto simp: check_extra_def and_then_Inl invalid_def split: option.splits)
qed (auto simp: seed_check_def length_check_def int_check_def float_check_def text_check_def
    check_string_def ratio_check_def check_prompt_def and_then_Inl invalid_def
    split: param_spec.splits option.splits if_splits)

lemma check_refs_no_panic [simp]: "check_refs schema refs strict d \<noteq> Inl RemainderByZero"
proof -
  have "keep_refs schema ri strict refs d \<noteq> Inl RemainderByZero" for ri
    by (induction schema ri strict refs d rule: keep_refs.induct)
       (auto simp: invalid_def and_then_Inl split: option.splits)
  moreover have "check_roles counts roles \<noteq> Inl RemainderByZero" for counts roles
    by (induction counts roles rule: check_roles.induct) (auto simp: invalid_def Let_def)
  ultimately show ?thesis
    by (auto simp: check_refs_def invalid_def and_then_Inl split: option.splits if_splits)
qed

lemma size_check_panic:
  assumes "size_check v spec = Some (Inl RemainderByZero)"
  shows "\<exists>f. spec = PSize (Freeform f) \<and> sf_multiple_of f = Some 0"
  using assms by (auto simp: size_check_def check_size_def invalid_def
      split: param_spec.splits size_spec.splits option.splits if_splits)

text \<open>
  The validation of an image request panics only for a size, and only when the schema's freeform
  size spec has the multiple 0. (The loader accepts such a schema, see the example: there every
  size within the bounds makes the handler panic.)
\<close>

theorem panic_needs_zero_multiple:
  assumes "validate_image schema req = Inl RemainderByZero"
  shows "\<exists>f. map_of (ms_params schema) ''size'' = Some (PSize (Freeform f)) \<and> sf_multiple_of f = Some 0
    \<and> ir_size req \<noteq> None"
proof -
  from assms obtain v spec where "ir_size req = Some v"
    "map_of (ms_params schema) ''size'' = Some spec" "size_check v spec = Some (Inl RemainderByZero)"
    unfolding validate_image_def Let_def
    by (auto simp: and_then_Inl and_then_Inr dest!: check_param_panic split: prod.splits)
  then show ?thesis using size_check_panic by blast
qed

section \<open>The extractors\<close>

text \<open>
  Reading the body (\<open>axum::body::to_bytes\<close>, with its limit), splitting a multipart body
  (\<open>multer\<close>) and reading JSON (\<open>serde_json\<close>) are arguments. A multipart body is the sequence of
  what \<open>next_field\<close> returns: an error or a part, whose data may again fail to arrive.
\<close>

record http_part =
  pt_name :: "string option"
  pt_content_type :: "string option"
  pt_data :: "string + u8 list"

record ('b, 'r) body_reader =
  rd_to_bytes :: "'b \<Rightarrow> nat \<Rightarrow> string + u8 list"
  rd_multipart :: "u8 list \<Rightarrow> string \<Rightarrow> (string + http_part) list"
  rd_json :: "u8 list \<Rightarrow> string + json"
  rd_request :: "json \<Rightarrow> string + 'r"

record rejection =
  rj_status :: nat
  rj_code :: string
  rj_message :: message
  rj_param :: "string option"
  rj_model :: string

definition err_body :: "nat \<Rightarrow> string \<Rightarrow> message \<Rightarrow> string option \<Rightarrow> string \<Rightarrow> rejection" where
  "err_body status code msg param model =
     \<lparr>rj_status = status, rj_code = code, rj_message = msg, rj_param = param, rj_model = model\<rparr>"

definition bad_request :: "string \<Rightarrow> message \<Rightarrow> rejection" where
  "bad_request code msg = err_body 400 code msg None []"

definition boundary_of :: "string \<Rightarrow> string option" where
  "boundary_of ct =
     (case List.map_filter (\<lambda>p. strip_prefix ''boundary='' (trim p)) (split_on CHR '';'' ct) of
        [] \<Rightarrow> None | b # _ \<Rightarrow> Some b)"

fun read_parts ::
  "(u8 list \<Rightarrow> string + json) \<Rightarrow> (string + http_part) list \<Rightarrow> json option \<Rightarrow> materialize_context
   \<Rightarrow> rejection + json option \<times> materialize_context" where
  "read_parts from_slice [] req blobs = Inr (req, blobs)"
| "read_parts from_slice (Inl e # ps) req blobs =
     Inl (bad_request ''malformed_multipart'' (''{}'', [AStr e]))"
| "read_parts from_slice (Inr part # ps) req blobs =
     (let name = unwrap_or [] (pt_name part);
          part_ct = unwrap_or ''application/octet-stream'' (pt_content_type part)
      in case pt_data part of
           Inl e \<Rightarrow> Inl (bad_request ''malformed_multipart'' (''{}'', [AStr e]))
         | Inr bytes \<Rightarrow>
             if name = ''request''
             then (case from_slice bytes of
                     Inl e \<Rightarrow> Inl (bad_request ''malformed_request'' (''{}'', [AStr e]))
                   | Inr j \<Rightarrow> read_parts from_slice ps (Some j) blobs)
             else read_parts from_slice ps req (blobs(name \<mapsto> (bytes, part_ct))))"

definition parse_request_and_context ::
  "('b, 'r) body_reader \<Rightarrow> string option \<Rightarrow> u8 list \<Rightarrow> rejection + json \<times> materialize_context" where
  "parse_request_and_context rd content_type body =
     (let ct = unwrap_or ''application/json'' (Option.bind content_type header_text)
      in if starts_with ''multipart/form-data'' ct
         then (case boundary_of ct of
                 None \<Rightarrow> Inl (bad_request ''malformed_multipart'' (''missing boundary'', []))
               | Some b \<Rightarrow>
                   and_then (read_parts (rd_json rd) (rd_multipart rd body b) None Map.empty)
                     (\<lambda>(req, blobs). case req of
                        None \<Rightarrow> Inl (bad_request ''malformed_multipart'' (''missing 'request' part'', []))
                      | Some j \<Rightarrow> Inr (j, blobs)))
         else (case rd_json rd body of
                 Inl e \<Rightarrow> Inl (bad_request ''malformed_request'' (''{}'', [AStr e]))
               | Inr j \<Rightarrow> Inr (j, Map.empty)))"

record 'r validated =
  vd_schema :: model_schema
  vd_request :: 'r
  vd_dropped :: "string list"
  vd_ctx :: materialize_context

datatype 'r extraction = Extracted "'r validated" | Refused rejection | Unwound

text \<open>
  \<open>from_request\<close>, the same for images and videos: \<open>model\<close> reads the model's id from the request
  and \<open>check\<close> is the validation. The in-flight slot is taken first; whoever does not end with a
  validated request drops it again, a panic included.
\<close>

definition extract_steps ::
  "('b, 'r) body_reader \<Rightarrow> ('r \<Rightarrow> string) \<Rightarrow> (model_schema \<Rightarrow> 'r \<Rightarrow> val_failure + 'r \<times> string list)
   \<Rightarrow> capability_registry \<Rightarrow> string option \<Rightarrow> 'b \<Rightarrow> 'r extraction" where
  "extract_steps rd model check registry content_type body =
     (case rd_to_bytes rd body (25 * 1024 * 1024) of
        Inl e \<Rightarrow> Refused (err_body 413 ''body_too_large'' (''{}'', [AStr e]) None [])
      | Inr bytes \<Rightarrow>
     (case parse_request_and_context rd content_type bytes of
        Inl rej \<Rightarrow> Refused rej
      | Inr (j, ctx) \<Rightarrow>
     (case rd_request rd j of
        Inl e \<Rightarrow> Refused (bad_request ''malformed_request'' (''{}'', [AStr e]))
      | Inr req \<Rightarrow>
     (case resolve registry (model req) of
        None \<Rightarrow>
          Refused (err_body 404 ''model_not_found'' (''model '{}' not found'', [AStr (model req)]) None (model req))
      | Some schema \<Rightarrow>
     (case check schema req of
        Inr (out, dropped) \<Rightarrow>
          Extracted \<lparr>vd_schema = schema, vd_request = out, vd_dropped = dropped, vd_ctx = ctx\<rparr>
      | Inl (Invalid e) \<Rightarrow>
          Refused (err_body 400 (ve_code e) (ve_message e) (ve_param e) (ms_id schema))
      | Inl RemainderByZero \<Rightarrow> Unwound)))))"

definition extract_request ::
  "('b, 'r) body_reader \<Rightarrow> ('r \<Rightarrow> string) \<Rightarrow> (model_schema \<Rightarrow> 'r \<Rightarrow> val_failure + 'r \<times> string list)
   \<Rightarrow> capability_registry \<Rightarrow> string option \<Rightarrow> 'b \<Rightarrow> in_flight_limit \<Rightarrow> 'r extraction \<times> in_flight_limit" where
  "extract_request rd model check registry content_type body limit =
     (case try_acquire_owned limit of
        None \<Rightarrow>
          (Refused (err_body 503 ''server_at_capacity'' (''server at capacity, retry shortly'', []) None []), limit)
      | Some limit' \<Rightarrow>
          (case extract_steps rd model check registry content_type body of
             Extracted v \<Rightarrow> (Extracted v, limit')
           | failed \<Rightarrow> (failed, drop_permit limit')))"

definition extract_image ::
  "('b, image_request) body_reader \<Rightarrow> capability_registry \<Rightarrow> string option \<Rightarrow> 'b \<Rightarrow> in_flight_limit
   \<Rightarrow> image_request extraction \<times> in_flight_limit" where
  "extract_image rd = extract_request rd (\<lambda>r. br_model (ir_base r)) validate_image"

definition extract_video ::
  "('b, video_request) body_reader \<Rightarrow> capability_registry \<Rightarrow> string option \<Rightarrow> 'b \<Rightarrow> in_flight_limit
   \<Rightarrow> video_request extraction \<times> in_flight_limit" where
  "extract_video rd = extract_request rd (\<lambda>r. br_model (vr_base r)) validate_video"

text \<open>\<open>dropped_header\<close>: the names joined by commas, if they form a header value.\<close>

definition dropped_header :: "string list \<Rightarrow> string option" where
  "dropped_header values =
     (if values = [] then None
      else let s = join_with '','' values in
        if list_all (\<lambda>c. 32 \<le> byte c \<and> byte c \<noteq> 127 \<or> byte c = 9) s then Some s else None)"

lemma extract_request_cases:
  assumes "extract_request rd model check registry ct body l = (res, l')"
  shows "(case try_acquire_owned l of
      None \<Rightarrow> l' = l \<and> (\<exists>rej. res = Refused rej \<and> rj_status rej = 503)
    | Some held \<Rightarrow> res = extract_steps rd model check registry ct body
        \<and> l' = (case res of Extracted _ \<Rightarrow> held | _ \<Rightarrow> l))"
proof (cases "try_acquire_owned l")
  case None
  then show ?thesis using assms by (auto simp: extract_request_def err_body_def)
next
  case (Some held)
  then have "drop_permit held = l"
    by (auto simp: try_acquire_owned_def drop_permit_def split: if_splits)
  then show ?thesis using assms Some by (auto simp: extract_request_def split: extraction.splits)
qed

lemma extract_steps_Extracted:
  assumes "extract_steps rd model check registry ct body = Extracted v"
  shows "\<exists>bytes j req. rd_to_bytes rd body (25 * 1024 * 1024) = Inr bytes \<and> rd_request rd j = Inr req
    \<and> parse_request_and_context rd ct bytes = Inr (j, vd_ctx v)
    \<and> resolve registry (model req) = Some (vd_schema v)
    \<and> check (vd_schema v) req = Inr (vd_request v, vd_dropped v)"
  using assms by (auto simp: extract_steps_def split: sum.splits option.splits prod.splits val_failure.splits)

text \<open>C33:
  A handler only ever sees a request that was read within the body limit, names a model the
  registry serves and passed the validation against that model's schema, and it holds one
  in-flight slot; a request that gets no further, refused or lost to a panic, leaves the slots as
  they were, and without a free slot the answer is 503 whatever the body is.
\<close>

theorem handler_gets_validated_request:
  assumes "extract_image rd registry ct body l = (res, l')"
  shows "(case res of
      Extracted v \<Rightarrow>
        \<exists>j req. rd_request rd j = Inr req
          \<and> resolve registry (br_model (ir_base req)) = Some (vd_schema v)
          \<and> validate_image (vd_schema v) req = Inr (vd_request v, vd_dropped v)
          \<and> try_acquire_owned l = Some l' \<and> if_sem l = Suc (if_sem l')
    | _ \<Rightarrow> l' = l)
    \<and> (if if_sem l = 0 then \<exists>rej. res = Refused rej \<and> rj_status rej = 503 else True)"
proof (cases "try_acquire_owned l")
  case None
  then have "if_sem l = 0" by (simp add: try_acquire_owned_def split: if_splits)
  then show ?thesis
    using extract_request_cases [OF assms [unfolded extract_image_def]] None by auto
next
  case (Some held)
  then have "if_sem l = Suc (if_sem held)" by (auto simp: try_acquire_owned_def split: if_splits)
  then show ?thesis
    using extract_request_cases [OF assms [unfolded extract_image_def]] Some
    by (auto split: extraction.splits dest!: extract_steps_Extracted)
qed

section \<open>Examples\<close>

definition plain_base :: base_request where
  "plain_base = \<lparr>br_prompt = ''a cat'', br_model = ''fal/flux'', br_n = 1, br_negative_prompt = None,
     br_seed = Some 7, br_reference_images = [], br_strict = False, br_extra = None, br_metadata = None\<rparr>"

definition plain_image :: image_request where
  "plain_image = \<lparr>ir_base = plain_base, ir_size = Some ''512x512'', ir_aspect_ratio = None,
     ir_quality = None, ir_style = None, ir_steps = Some 20, ir_guidance_scale = None,
     ir_strength = None, ir_response_format = ''url''\<rparr>"

definition plain_video :: video_request where
  "plain_video = \<lparr>vr_base = plain_base, vr_duration_seconds = Some (- 1), vr_aspect_ratio = None,
     vr_resolution = None, vr_fps = None\<rparr>"

definition without_seed :: "base_request \<Rightarrow> base_request" where
  "without_seed b = b\<lparr>br_seed := None\<rparr>"

lemma plain_base_wf [simp]: "base_wf plain_base" "base_wf (without_seed plain_base)"
  by (simp_all add: base_wf_def plain_base_def extra_wf_def without_seed_def)

text \<open>The example model knows no seed: in lax mode it is dropped, in strict mode refused.\<close>

lemma example_validated:
  "validate_image example_model plain_image
     = Inr (plain_image\<lparr>ir_base := without_seed plain_base\<rparr>, [''seed''])"
  by code_simp

lemma example_video_validated:
  "validate_video example_model plain_video
     = Inr (plain_video\<lparr>vr_base := without_seed plain_base\<rparr>, [''seed''])"
  by code_simp

lemma plain_refused_in_strict_mode:
  "validate_image example_model (plain_image\<lparr>ir_base := plain_base\<lparr>br_strict := True\<rparr>\<rparr>)
     = invalid ''param_unsupported'' ''Parameter '{}' is not supported by model '{}'.''
         [AStr ''seed'', AStr ''fal/flux''] ''seed''"
  by code_simp



text \<open>A duration of minus one second passes the validation, and stays.\<close>

theorem validated_video_fits_witness:
  "video_fits example_model (plain_video\<lparr>vr_base := without_seed plain_base\<rparr>)
   \<and> vr_duration_seconds (plain_video\<lparr>vr_base := without_seed plain_base\<rparr>) = Some (- 1)"
  using validated_video_fits [OF example_video_validated] by (simp add: plain_video_def)

definition zero_multiple_model :: model_schema where
  "zero_multiple_model = example_model\<lparr>ms_params :=
     [(''size'', PSize (Freeform \<lparr>sf_min_width = 256, sf_max_width = 1024,
        sf_min_height = 256, sf_max_height = 1024, sf_multiple_of = Some 0\<rparr>))]\<rparr>"

lemma zero_multiple_model_loads: "validate_model zero_multiple_model = Inr ()"
  by code_simp

theorem panic_needs_zero_multiple_witness:
  "validate_model zero_multiple_model = Inr ()
   \<and> validate_image zero_multiple_model (plain_image\<lparr>ir_steps := None\<rparr>) = Inl RemainderByZero
   \<and> (\<exists>f. map_of (ms_params zero_multiple_model) ''size'' = Some (PSize (Freeform f))
        \<and> sf_multiple_of f = Some 0)"
proof -
  have p: "validate_image zero_multiple_model (plain_image\<lparr>ir_steps := None\<rparr>) = Inl RemainderByZero"
    by code_simp
  then show ?thesis
    using zero_multiple_model_loads panic_needs_zero_multiple [OF p] by blast
qed

text \<open>Readers for a body that is its own JSON text.\<close>

definition plain_reader :: "(u8 list, image_request) body_reader" where
  "plain_reader = \<lparr>rd_to_bytes = (\<lambda>b limit. if length b \<le> limit then Inr b else Inl ''length limit exceeded''),
     rd_multipart = (\<lambda>_ _. []), rd_json = (\<lambda>_. Inr JNull), rd_request = (\<lambda>_. Inr plain_image)\<rparr>"

theorem handler_gets_validated_request_witness:
  "\<exists>v. extract_image plain_reader example_registry None [] (in_flight_new 2)
      = (Extracted v, \<lparr>if_sem = 1, if_cap = 2\<rparr>)
    \<and> resolve example_registry ''fal/flux'' = Some (vd_schema v)"
proof -
  have r: "resolve example_registry ''fal/flux'' = Some example_model"
    by (simp add: resolve_def is_disabled_def example_registry_def)
  have "extract_image plain_reader example_registry None [] (in_flight_new 2)
      = (Extracted \<lparr>vd_schema = example_model, vd_request = plain_image\<lparr>ir_base := without_seed plain_base\<rparr>,
           vd_dropped = [''seed''], vd_ctx = Map.empty\<rparr>, \<lparr>if_sem = 1, if_cap = 2\<rparr>)"
    (is "_ = (Extracted ?v, ?l)")
    by (simp add: extract_image_def extract_request_def extract_steps_def in_flight_new_def
        try_acquire_owned_def plain_reader_def parse_request_and_context_def starts_with_def
        plain_image_def plain_base_def r example_validated [unfolded plain_image_def plain_base_def])
  from this handler_gets_validated_request [OF this] show ?thesis
    by (auto simp: plain_reader_def plain_image_def plain_base_def)
qed

end
