(* ===== verification/Gateway.thy ===== *)
theory Gateway
  imports EnforceProps RouterProps Validator
begin

text \<open>
  The generation endpoints (\<open>api/handlers/mod.rs\<close>): \<open>generate_image\<close> and \<open>generate_video\<close>, from
  the validated request to the answer. A handler materializes the reference images, resolves the
  tenant's credential, reserves the estimate on the key's quota and on the limits of every
  principal, dispatches through the router, and settles both reservations.

  The state joins the tables and counters of admission (\<open>gate\<close>) with the router; what is written
  to the log afterwards is handed to a task, and the model keeps the list of these tasks. While
  the provider works, other requests may change the tables: \<open>se_meanwhile\<close>.

  Parameters: the network, base64, decryption and JSON decoding of stored credentials, the
  lookup of a stored credential or of an application's storage, and the construction of a store.
\<close>

section \<open>State and environment\<close>

datatype artifact_params = ImageParams image_extras | VideoParams video_extras

record artifact =
  af_request_id :: string
  af_media_type :: string
  af_prompt :: "string option"
  af_negative_prompt :: "string option"
  af_params :: "artifact_params option"
  af_refs_meta :: "(string option \<times> ref_image_kind \<times> string) list option"
  af_output_kind :: string
  af_output_value :: "string option"
  af_output_mime :: "string option"
  af_output_truncated :: bool
  af_error :: "proxy_error option"
  af_org_id :: "string option"
  af_app_id :: "string option"

record log_row =
  lr_id :: string
  lr_model :: string
  lr_provider :: string
  lr_status :: string
  lr_media_type :: string
  lr_cost_usd :: f64
  lr_latency_ms :: u64
  lr_error :: "proxy_error option"
  lr_org_id :: "string option"
  lr_app_id :: "string option"

record started_generation =
  sg_id :: string
  sg_key_id :: "uuid option"
  sg_model :: string
  sg_provider :: string
  sg_provider_job_id :: "string option"
  sg_cost_usd :: f64
  sg_org_id :: "string option"
  sg_app_id :: "string option"

datatype task_step =
  LogRequest log_row | Attribute string attribution | InsertGeneration started_generation
| InsertArtifact artifact

record 'w server =
  sv_gate :: gate
  sv_router :: "'w router"
  sv_tasks :: "task_step list"

record storage_row =
  sr_backend :: string
  sr_bucket_name :: string
  sr_region :: string
  sr_endpoint_url :: "string option"
  sr_custom_public_url :: "string option"
  sr_path_prefix :: "string option"
  sr_ciphertext :: string
  sr_nonce :: string

record s3_config =
  s3_backend :: string
  s3_path_prefix :: "string option"
  s3_bucket_name :: string
  s3_region :: string
  s3_access_key_id :: string
  s3_secret_access_key :: string
  s3_endpoint_url :: "string option"
  s3_custom_public_url :: "string option"

record 'w server_env =
  se_gate :: gate_env
  se_gateway :: "'w gateway"
  se_net :: "'w router net"
  se_encode :: "u8 list \<Rightarrow> string"
  se_decode :: "string \<Rightarrow> string + u8 list"
  se_secrets_key :: "u8 list option"
  se_credential :: "string \<Rightarrow> string \<Rightarrow> string + (string \<times> string) option"
  se_storage :: "string \<Rightarrow> string + storage_row option"
  se_decrypt :: "u8 list \<Rightarrow> string \<Rightarrow> string \<Rightarrow> string + u8 list"
  se_json :: "u8 list \<Rightarrow> string + json"
  se_decode_keys :: "json \<Rightarrow> api_key_entry list option"
  se_decode_sets :: "json \<Rightarrow> credential_entry list option"
  se_storage_secret :: "u8 list \<Rightarrow> (string \<times> string) option"
  se_s3_store :: "s3_config \<Rightarrow> string option"
  se_meanwhile :: "gate \<Rightarrow> gate"

datatype gen_failure =
  BadReferences materialize_error string
| Rejected refusal
| DispatchFailed nat proxy_error

section \<open>Responses\<close>

definition quota_exceeded_response :: refusal where
  "quota_exceeded_response = Refuse 402 ''quota_exceeded'' ''quota exceeded'' None"

definition provider_not_configured_response :: "string \<Rightarrow> refusal" where
  "provider_not_configured_response provider = Refuse 400 ''provider_not_configured''
     (''Provider '' @ [CHR 0x27] @ provider @ [CHR 0x27] @ '' is not configured for this application. ''
      @ ''Add a provider credential in the dashboard.'') None"

definition internal_failure :: "string \<Rightarrow> refusal" where
  "internal_failure message = Refuse 500 ''internal_error'' message None"

definition valid_status :: "nat \<Rightarrow> nat" where
  "valid_status code = (if 100 \<le> code \<and> code < 1000 then code else 500)"

section \<open>The quota of the key\<close>

definition reserve_quota :: "gate_env \<Rightarrow> uuid option \<Rightarrow> f64 \<Rightarrow> f64 act" where
  "reserve_quota env key estimate s =
     (case key of
        None \<Rightarrow> (Inr 0, s)
      | Some k \<Rightarrow>
          if estimate \<le> 0 then (Inr 0, s)
          else (case db_call env (\<lambda>_ s. let (r, keys) = reserve_tokens (\<lambda>_. None) 0 k estimate (ga_keys s)
                                       in (r, s\<lparr>ga_keys := keys\<rparr>)) s of
                  (Some (Inr True), s') \<Rightarrow> (Inr estimate, s')
                | (Some (Inr False), s') \<Rightarrow> (Inl quota_exceeded_response, s')
                | (_, s') \<Rightarrow> (Inl store_error, s')))"

definition settle_quota :: "gate_env \<Rightarrow> uuid option \<Rightarrow> f64 \<Rightarrow> f64 \<Rightarrow> gate \<Rightarrow> gate" where
  "settle_quota env key reserved actual s =
     (case key of
        None \<Rightarrow> s
      | Some k \<Rightarrow>
          (let delta = f64_sub actual reserved
           in if f64_epsilon < \<bar>delta\<bar>
              then snd (db_call env (\<lambda>_ s. let (r, keys) = atomic_charge_tokens (\<lambda>_. None) 0 k delta (ga_keys s)
                                          in (r, s\<lparr>ga_keys := keys\<rparr>)) s)
              else s))"

section \<open>The tenant\<close>

definition cache_scope :: "key_context \<Rightarrow> string" where
  "cache_scope ctx =
     (case (kc_org_id ctx, kc_app_id ctx) of
        (Some org, Some app) \<Rightarrow> ''o:'' @ org @ ''/a:'' @ app
      | (Some org, None) \<Rightarrow> ''o:'' @ org
      | (None, _) \<Rightarrow>
          (case kc_key_id ctx of
             Some kid \<Rightarrow> ''k:'' @ uuid_text kid
           | None \<Rightarrow> (case kc_user ctx of Some u \<Rightarrow> ''u:'' @ uc_user_id u | None \<Rightarrow> ''master'')))"

definition resolve_org_provider_credential ::
  "'w server_env \<Rightarrow> key_context option \<Rightarrow> string \<Rightarrow> refusal + provider_credentials option" where
  "resolve_org_provider_credential env ctx provider =
     (case (Option.bind ctx kc_org_id, se_secrets_key env) of
        (Some org, Some key) \<Rightarrow>
          (case se_credential env org provider of
             Inl _ \<Rightarrow> Inl (internal_failure ''provider credential lookup failed'')
           | Inr None \<Rightarrow> Inr None
           | Inr (Some (ct, nonce)) \<Rightarrow>
               (case se_decrypt env key ct nonce of
                  Inl _ \<Rightarrow> Inl (internal_failure ''failed to decrypt provider credential'')
                | Inr plain \<Rightarrow>
                    (case se_json env plain of
                       Inl _ \<Rightarrow> Inl (internal_failure ''stored provider credential is corrupt'')
                     | Inr v \<Rightarrow> Inr (Some (credentials_from_json (se_decode_keys env) (se_decode_sets env) v)))))
      | _ \<Rightarrow> Inr None)"

text \<open>The application's own image store; every failure falls back to the global one.\<close>

definition resolve_app_image_store :: "'w server_env \<Rightarrow> key_context option \<Rightarrow> string option" where
  "resolve_app_image_store env ctx =
     (case (Option.bind ctx kc_app_id, se_secrets_key env) of
        (Some app, Some key) \<Rightarrow>
          (case se_storage env app of
             Inr (Some row) \<Rightarrow>
               (case se_decrypt env key (sr_ciphertext row) (sr_nonce row) of
                  Inr plain \<Rightarrow>
                    (case se_storage_secret env plain of
                       Some (access_id, access_secret) \<Rightarrow>
                         se_s3_store env \<lparr>s3_backend = sr_backend row, s3_path_prefix = sr_path_prefix row,
                           s3_bucket_name = sr_bucket_name row, s3_region = sr_region row,
                           s3_access_key_id = access_id, s3_secret_access_key = access_secret,
                           s3_endpoint_url = sr_endpoint_url row,
                           s3_custom_public_url = sr_custom_public_url row\<rparr>
                     | None \<Rightarrow> None)
                | Inl _ \<Rightarrow> None)
           | _ \<Rightarrow> None)
      | _ \<Rightarrow> None)"

definition has_image_provider :: "string \<Rightarrow> 'w router \<Rightarrow> bool" where
  "has_image_provider name s = (image_provider_for name (rt_registry s) \<noteq> None)"

definition has_video_provider :: "string \<Rightarrow> 'w router \<Rightarrow> bool" where
  "has_video_provider name s = (video_provider_for name (rt_registry s) \<noteq> None)"

section \<open>Billing\<close>

definition usage_cost :: "usage_info option \<Rightarrow> f64" where
  "usage_cost u = (case u of Some i \<Rightarrow> us_cost_usd i | None \<Rightarrow> 0)"

text \<open>
  The part the two handlers share: reserve the estimate on the key and on the limits, dispatch,
  and settle both to the cost of the response, or to nothing when there is none. The guard is
  dropped when the handler returns, after both settlements; the slots it holds are freed then.
\<close>

definition billed ::
  "'w server_env \<Rightarrow> key_context option \<Rightarrow> request_attribution \<Rightarrow> string \<Rightarrow> f64
   \<Rightarrow> ('w router \<Rightarrow> (proxy_error + 'r) \<times> 'w router) \<Rightarrow> ('r \<Rightarrow> usage_info option) \<Rightarrow> 'w server
   \<Rightarrow> (refusal + attribution \<times> (proxy_error + 'r)) \<times> 'w server" where
  "billed env ctx req model estimate dispatch usage s =
     (let ge = se_gate env; key = Option.bind ctx kc_key_id in
      case reserve_quota ge key estimate (sv_gate s) of
        (Inl e, g1) \<Rightarrow> (Inl e, s\<lparr>sv_gate := g1\<rparr>)
      | (Inr reserved, g1) \<Rightarrow>
          (case begin_limits ge ctx req model estimate g1 of
             (Inl e, g2) \<Rightarrow> (Inl e, s\<lparr>sv_gate := settle_quota ge key reserved 0 g2\<rparr>)
           | (Inr guard, g2) \<Rightarrow>
               (let (res, r') = dispatch (sv_router s);
                    g3 = se_meanwhile env g2;
                    actual = (case res of Inr resp \<Rightarrow> usage_cost (usage resp) | Inl _ \<Rightarrow> 0);
                    g4 = settle_quota ge key reserved actual g3;
                    (guard', g5) = settle ge actual guard g4
                in (Inr (lg_attribution guard, res),
                    s\<lparr>sv_gate := drop_guard guard' g5, sv_router := r'\<rparr>))))"

section \<open>Artifacts\<close>

definition refs_summary :: "reference_image \<Rightarrow> string" where
  "refs_summary r = (case ri_kind r of
     RefUrl \<Rightarrow> ''url '' @ take 80 (ri_value r)
   | RefBase64 \<Rightarrow> ''blob '' @ nat_to_string (length (ri_value r) div 1024) @ ''KB''
   | RefBlob \<Rightarrow> ''field '' @ take 40 (ri_value r))"

definition build_refs_meta :: "reference_image list \<Rightarrow> (string option \<times> ref_image_kind \<times> string) list option" where
  "build_refs_meta refs =
     (if refs = [] then None
      else Some (map (\<lambda>r. (ri_role r, ri_kind r, refs_summary r)) refs))"

definition image_output :: "image_response \<Rightarrow> string \<times> string option \<times> string option \<times> bool" where
  "image_output resp =
     (case ig_data resp of
        [] \<Rightarrow> (''error'', None, None, False)
      | img # _ \<Rightarrow>
          (case (im_b64_json img, im_url img) of
             (Some b64, _) \<Rightarrow>
               (let cap = 2 * 1024 * 1024 :: nat; truncated = cap < length b64
                in (''b64'', Some (if truncated then take cap b64 else b64), Some (im_content_type img), truncated))
           | (None, Some url) \<Rightarrow> (''url'', Some url, Some (im_content_type img), False)
           | (None, None) \<Rightarrow> (''error'', None, None, False)))"

definition image_artifact :: "key_context option \<Rightarrow> base_request \<Rightarrow> image_extras \<Rightarrow> image_response \<Rightarrow> artifact" where
  "image_artifact ctx base extras resp =
     (let (kind, val, mime, truncated) = image_output resp in
      \<lparr>af_request_id = ig_id resp, af_media_type = ''image'', af_prompt = Some (br_prompt base),
       af_negative_prompt = br_negative_prompt base, af_params = Some (ImageParams extras),
       af_refs_meta = build_refs_meta (br_reference_images base), af_output_kind = kind,
       af_output_value = val, af_output_mime = mime, af_output_truncated = truncated, af_error = None,
       af_org_id = Option.bind ctx kc_org_id, af_app_id = Option.bind ctx kc_app_id\<rparr>)"

definition failed_artifact :: "key_context option \<Rightarrow> base_request \<Rightarrow> string \<Rightarrow> proxy_error \<Rightarrow> artifact" where
  "failed_artifact ctx base request_id e =
     \<lparr>af_request_id = request_id, af_media_type = ''image'', af_prompt = Some (br_prompt base),
      af_negative_prompt = None, af_params = None, af_refs_meta = None, af_output_kind = ''error'',
      af_output_value = None, af_output_mime = None, af_output_truncated = False, af_error = Some e,
      af_org_id = Option.bind ctx kc_org_id, af_app_id = Option.bind ctx kc_app_id\<rparr>"

definition video_artifact :: "key_context option \<Rightarrow> base_request \<Rightarrow> video_extras \<Rightarrow> video_response \<Rightarrow> artifact" where
  "video_artifact ctx base extras resp =
     \<lparr>af_request_id = vg_id resp, af_media_type = ''video'', af_prompt = Some (br_prompt base),
      af_negative_prompt = br_negative_prompt base, af_params = Some (VideoParams extras),
      af_refs_meta = build_refs_meta (br_reference_images base), af_output_kind = ''url'',
      af_output_value = vg_video_url resp, af_output_mime = None, af_output_truncated = False,
      af_error = None, af_org_id = Option.bind ctx kc_org_id, af_app_id = Option.bind ctx kc_app_id\<rparr>"

section \<open>The handlers\<close>

definition image_extras_of :: "image_request \<Rightarrow> image_extras" where
  "image_extras_of r =
     \<lparr>ie_size = ir_size r, ie_aspect_ratio = ir_aspect_ratio r, ie_quality = ir_quality r,
      ie_style = ir_style r, ie_steps = ir_steps r, ie_guidance_scale = ir_guidance_scale r,
      ie_strength = ir_strength r, ie_response_format = ir_response_format r,
      ie_extra = br_extra (ir_base r)\<rparr>"

definition video_extras_of :: "model_schema \<Rightarrow> video_request \<Rightarrow> video_extras" where
  "video_extras_of schema r =
     \<lparr>ve_duration_seconds = resolve_duration_seconds schema (vr_duration_seconds r),
      ve_aspect_ratio = vr_aspect_ratio r, ve_resolution = vr_resolution r, ve_fps = vr_fps r,
      ve_extra = br_extra (vr_base r)\<rparr>"

definition materialize_refs :: "'w server_env \<Rightarrow> 'r validated \<Rightarrow> base_request \<Rightarrow> 'w server
   \<Rightarrow> (materialize_error + materialized_ref list) \<times> 'w server" where
  "materialize_refs env v base s =
     (let (m, r) = materialize (se_encode env) (se_decode env) (se_net env) (vd_schema v)
            (br_reference_images base) (vd_ctx v) (sv_router s)
      in (m, s\<lparr>sv_router := r\<rparr>))"

definition handle_image ::
  "'w server_env \<Rightarrow> key_context option \<Rightarrow> request_attribution \<Rightarrow> image_request validated \<Rightarrow> 'w server
   \<Rightarrow> (gen_failure + image_response \<times> string option) \<times> 'w server" where
  "handle_image env ctx req v s0 =
     (let schema = vd_schema v; base = ir_base (vd_request v); extras = image_extras_of (vd_request v);
          gw = se_gateway env; start = gw_now gw (sv_router s0)
      in case materialize_refs env v base s0 of
           (Inl e, s) \<Rightarrow> (Inl (BadReferences e (ms_id schema)), s)
         | (Inr mats, s) \<Rightarrow>
      (case resolve_org_provider_credential env ctx (ms_provider schema) of
         Inl e \<Rightarrow> (Inl (Rejected e), s)
       | Inr creds \<Rightarrow>
      if creds = None \<and> \<not> has_image_provider (ms_provider schema) (sv_router s)
      then (Inl (Rejected (provider_not_configured_response (ms_provider schema))), s)
      else (let store = resolve_app_image_store env ctx in
      case billed env ctx req (ms_id schema) (mp_base_cost_usd (ms_pricing schema))
             (generate_image gw schema base extras mats creds store (map_option cache_scope ctx)) ig_usage s of
         (Inl e, s1) \<Rightarrow> (Inl (Rejected e), s1)
       | (Inr (attr, Inr resp), s1) \<Rightarrow>
           (let latency = elapsed_ms start (gw_now gw (sv_router s1));
                row = \<lparr>lr_id = ig_id resp, lr_model = ig_model resp, lr_provider = ig_provider resp,
                  lr_status = ''completed'', lr_media_type = ''image'', lr_cost_usd = usage_cost (ig_usage resp),
                  lr_latency_ms = latency, lr_error = None,
                  lr_org_id = Option.bind ctx kc_org_id, lr_app_id = Option.bind ctx kc_app_id\<rparr>
            in (Inr (resp, dropped_header (vd_dropped v)),
                s1\<lparr>sv_tasks := sv_tasks s1 @ [LogRequest row, Attribute (ig_id resp) attr,
                  InsertArtifact (image_artifact ctx base extras resp)]\<rparr>))
       | (Inr (attr, Inl e), s1) \<Rightarrow>
           (let latency = elapsed_ms start (gw_now gw (sv_router s1));
                (uuid, r2) = gw_uuid gw (sv_router s1); i = ''litegen-img-'' @ uuid;
                row = \<lparr>lr_id = i, lr_model = ms_id schema, lr_provider = ''unknown'', lr_status = ''failed'',
                  lr_media_type = ''image'', lr_cost_usd = 0, lr_latency_ms = latency, lr_error = Some e,
                  lr_org_id = Option.bind ctx kc_org_id, lr_app_id = Option.bind ctx kc_app_id\<rparr>
            in (Inl (DispatchFailed (valid_status (proxy_status_code e)) e),
                s1\<lparr>sv_router := r2, sv_tasks := sv_tasks s1 @ [LogRequest row, Attribute i attr,
                  InsertArtifact (failed_artifact ctx base i e)]\<rparr>)))))"

definition handle_video ::
  "'w server_env \<Rightarrow> key_context option \<Rightarrow> request_attribution \<Rightarrow> video_request validated \<Rightarrow> 'w server
   \<Rightarrow> (gen_failure + video_response \<times> string option) \<times> 'w server" where
  "handle_video env ctx req v s0 =
     (let schema = vd_schema v; base = vr_base (vd_request v); extras = video_extras_of schema (vd_request v);
          gw = se_gateway env; start = gw_now gw (sv_router s0)
      in case materialize_refs env v base s0 of
           (Inl e, s) \<Rightarrow> (Inl (BadReferences e (ms_id schema)), s)
         | (Inr mats, s) \<Rightarrow>
      (case resolve_org_provider_credential env ctx (ms_provider schema) of
         Inl e \<Rightarrow> (Inl (Rejected e), s)
       | Inr creds \<Rightarrow>
      if creds = None \<and> \<not> has_video_provider (ms_provider schema) (sv_router s)
      then (Inl (Rejected (provider_not_configured_response (ms_provider schema))), s)
      else (case billed env ctx req (ms_id schema) (mp_base_cost_usd (ms_pricing schema))
             (generate_video gw schema base extras mats creds) vg_usage s of
         (Inl e, s1) \<Rightarrow> (Inl (Rejected e), s1)
       | (Inr (attr, Inr resp), s1) \<Rightarrow>
           (let latency = elapsed_ms start (gw_now gw (sv_router s1));
                cost = usage_cost (vg_usage resp);
                row = \<lparr>lr_id = vg_id resp, lr_model = vg_model resp, lr_provider = vg_provider resp,
                  lr_status = ''pending'', lr_media_type = ''video'', lr_cost_usd = cost,
                  lr_latency_ms = latency, lr_error = None,
                  lr_org_id = Option.bind ctx kc_org_id, lr_app_id = Option.bind ctx kc_app_id\<rparr>;
                gen = \<lparr>sg_id = vg_id resp, sg_key_id = Option.bind ctx kc_key_id, sg_model = vg_model resp,
                  sg_provider = vg_provider resp,
                  sg_provider_job_id = get_provider_job_id (sv_router s1) (vg_id resp), sg_cost_usd = cost,
                  sg_org_id = Option.bind ctx kc_org_id, sg_app_id = Option.bind ctx kc_app_id\<rparr>
            in (Inr (resp, dropped_header (vd_dropped v)),
                s1\<lparr>sv_tasks := sv_tasks s1 @ [LogRequest row, Attribute (vg_id resp) attr,
                  InsertGeneration gen, InsertArtifact (video_artifact ctx base extras resp)]\<rparr>))
       | (Inr (attr, Inl e), s1) \<Rightarrow>
           (Inl (DispatchFailed (valid_status (proxy_status_code e)) e), s1))))"

end
