(* ===== verification/Ids.thy ===== *)
theory Ids
  imports Enforce
begin

text \<open>The texts of identifiers: the hyphenated form of a UUID determines it.\<close>

lemma hex_digit_inject: "a < 16 \<Longrightarrow> b < 16 \<Longrightarrow> hex_digit a = hex_digit b \<longleftrightarrow> a = b"
  by (auto simp: hex_digit_def of_char_of dest!: arg_cong [where f = "of_char :: char \<Rightarrow> nat"] split: if_splits)

lemma digits_determine:
  fixes a b :: nat
  assumes "\<And>j. j < n \<Longrightarrow> a div 16 ^ j mod 16 = b div 16 ^ j mod 16"
  shows "a mod 16 ^ n = b mod 16 ^ n"
  using assms
proof (induction n)
  case (Suc n)
  have "c mod 16 ^ Suc n = 16 ^ n * (c div 16 ^ n mod 16) + c mod 16 ^ n" for c :: nat
    by (simp add: mult.commute [of 16] mod_mult2_eq)
  then show ?case using Suc by simp
qed simp

lemma groups_inject:
  assumes "length ds = 32" "length es = 32"
    and "take 8 ds @ x @ take 4 (drop 8 ds) @ x @ take 4 (drop 12 ds) @ x @ take 4 (drop 16 ds) @ x @ drop 20 ds
      = take 8 es @ x @ take 4 (drop 8 es) @ x @ take 4 (drop 12 es) @ x @ take 4 (drop 16 es) @ x @ drop 20 es"
  shows "ds = es"
proof -
  have parts: "take 8 ds = take 8 es" "take 4 (drop 8 ds) = take 4 (drop 8 es)"
    "take 4 (drop 12 ds) = take 4 (drop 12 es)" "take 4 (drop 16 ds) = take 4 (drop 16 es)" "drop 20 ds = drop 20 es"
    using assms by (simp_all add: append_eq_append_conv)
  have "ys = take 8 ys @ take 4 (drop 8 ys) @ take 4 (drop 12 ys) @ take 4 (drop 16 ys) @ drop 20 ys" for ys :: "'a list"
    using append_take_drop_id [of 8 ys] append_take_drop_id [of 4 "drop 8 ys"]
      append_take_drop_id [of 4 "drop 12 ys"] append_take_drop_id [of 4 "drop 16 ys"] by simp
  with parts show ?thesis by metis
qed

lemma uuid_text_inject: "uuid_text u = uuid_text w \<longleftrightarrow> u = w"
proof
  assume eq: "uuid_text u = uuid_text w"
  define ds where "ds = (\<lambda>v :: uuid. map (\<lambda>i. hex_digit (unat v div 16 ^ (31 - i) mod 16)) [0..<32])"
  have "ds u = ds w"
    by (rule groups_inject [of _ _ "''-''"])
      (use eq in \<open>simp_all only: uuid_text_def Let_def ds_def length_map length_upt diff_zero\<close>)
  then have digit: "unat u div 16 ^ (31 - i) mod 16 = unat w div 16 ^ (31 - i) mod 16" if "i < 32" for i
    using that by (auto simp: ds_def hex_digit_inject)
  have "unat u mod 16 ^ 32 = unat w mod 16 ^ 32"
  proof (rule digits_determine)
    fix j :: nat assume "j < 32"
    then show "unat u div 16 ^ j mod 16 = unat w div 16 ^ j mod 16" using digit [of "31 - j"] by simp
  qed
  moreover have "unat v mod 16 ^ 32 = unat v" for v :: uuid
  proof -
    have "unat v < 2 ^ LENGTH(128)" by (rule unsigned_less)
    then show ?thesis by simp
  qed
  ultimately show "u = w" by (simp add: word_unat_eq_iff)
qed simp

end
