(* ===== verification/GatewayProps.thy ===== *)
theory GatewayProps
  imports Gateway Ids
begin

text \<open>
  What the generation endpoints guarantee about money and tenants: quotas and budgets hold, a
  failed request is never billed, a successful one is charged what it cost, and the cache never
  answers one principal with another's image.
\<close>

section \<open>Quotas\<close>

definition key_capped :: "api_key \<Rightarrow> bool" where
  "key_capped k = (round_f64 (ky_tokens_used k) = ky_tokens_used k
     \<and> (case ky_token_quota k of None \<Rightarrow> True | Some q \<Rightarrow> ky_tokens_used k \<le> q))"

text \<open>No key has used more than its quota, and no budget is exceeded.\<close>

definition within_limits :: "gate \<Rightarrow> bool" where
  "within_limits s = (capped s \<and> (\<forall>k\<in>set (ga_keys s). key_capped k))"

lemmas statement_keys = key_table.roll [OF refl] key_table.touch [OF refl] key_table.reserve [OF refl]
  key_table.correct [OF refl TrueI] key_table.mark [OF refl]

lemma upsert_keys: "ga_keys (snd (upsert_limits l now s)) = ga_keys s"
  by (simp add: upsert_limits_def Let_def)

interpretation quotas: gate_invariant within_limits "\<lambda>d. d \<le> 0"
proof unfold_locales
  show "within_limits s \<Longrightarrow> default_row l \<Longrightarrow> within_limits (snd (upsert_limits l now s))" for s l now
    using budgets.fresh [of s l now] by (simp add: within_limits_def upsert_keys)
  show "0 < a \<Longrightarrow> f64_sub 0 a \<le> 0" for a by (rule f64_sub_nonpos) simp
qed (simp_all add: within_limits_def statement_keys capped_statements, simp_all add: capped_def)

lemma reserve_tokens_capped:
  assumes "\<forall>k\<in>set keys. key_capped k"
  shows "\<forall>k\<in>set (snd (reserve_tokens (\<lambda>_. None) i kid a keys)). key_capped k"
  using assms by (auto simp: reserve_tokens_def update_rows_def key_capped_def Let_def split: option.splits)

lemma charge_tokens_capped:
  assumes "\<forall>k\<in>set keys. key_capped k" and "d \<le> 0"
  shows "\<forall>k\<in>set (snd (atomic_charge_tokens (\<lambda>_. None) i kid d keys)). key_capped k"
proof -
  have "key_capped (k\<lparr>ky_tokens_used := f64_add (ky_tokens_used k) d\<rparr>)" if "key_capped k" for k
    using that f64_add_nonpos_le [of "ky_tokens_used k" d] assms(2)
    by (auto simp: key_capped_def split: option.splits)
  then show ?thesis using assms(1) by (auto simp: atomic_charge_tokens_def update_rows_def Let_def)
qed

lemma reserve_quota_keeps:
  assumes "others_keep within_limits env" and "within_limits s"
  shows "within_limits (snd (reserve_quota env key estimate s))"
proof (cases key)
  case (Some k)
  have "within_limits (snd (db_call env (\<lambda>_ s. let (r, keys) = reserve_tokens (\<lambda>_. None) 0 k estimate (ga_keys s)
        in (r, s\<lparr>ga_keys := keys\<rparr>)) s))"
    using assms(1) _ assms(2)
    by (rule db_call_keeps)
      (simp add: within_limits_def capped_def split_beta Let_def, intro reserve_tokens_capped, simp)
  with Some assms(2) show ?thesis
    by (auto simp: reserve_quota_def split: prod.splits option.splits sum.splits bool.splits)
qed (use assms(2) in \<open>simp add: reserve_quota_def\<close>)

lemma settle_quota_keeps:
  assumes "others_keep within_limits env" and "actual \<le> reserved" and "within_limits s"
  shows "within_limits (settle_quota env key reserved actual s)"
proof (cases key)
  case (Some k)
  let ?d = "f64_sub actual reserved"
  have "within_limits (snd (db_call env (\<lambda>_ s. let (r, keys) = atomic_charge_tokens (\<lambda>_. None) 0 k ?d (ga_keys s)
        in (r, s\<lparr>ga_keys := keys\<rparr>)) s))"
    using assms(1) _ assms(3)
    by (rule db_call_keeps)
      (simp add: within_limits_def capped_def split_beta Let_def,
        intro charge_tokens_capped f64_sub_nonpos assms(2), simp)
  with Some assms(3) show ?thesis by (simp add: settle_quota_def Let_def)
qed (use assms(3) in \<open>simp add: settle_quota_def\<close>)

lemma reserve_quota_amount:
  "reserve_quota env key estimate s = (Inr r, s') \<Longrightarrow>
     r = (case key of None \<Rightarrow> 0 | Some _ \<Rightarrow> max estimate 0)"
  by (auto simp: reserve_quota_def max_def split: option.splits if_splits prod.splits sum.splits bool.splits)

lemma reserve_rows_amount: "reserve_rows env a g ls s = (Inr g', s') \<Longrightarrow> lg_reserved g' = a"
  by (induction ls arbitrary: g s) (auto simp: Let_def split: if_splits prod.splits option.splits bool.splits)

lemma begin_amount:
  assumes "begin_limits env ctx req model estimate s = (Inr g, s')"
  shows "lg_store_backed g \<Longrightarrow> en_managed env \<Longrightarrow> lg_reserved g = max estimate 0"
  using assms
  by (auto simp: begin_limits_def Let_def bind_act_Inr refuse_def give_def passthrough_def
      dest: reserve_rows_amount split: if_splits)

section \<open>The billing steps\<close>

lemma billed_Inl:
  assumes "billed env ctx req model est dispatch usage s = (Inl e, s')"
  shows "(\<exists>g1. reserve_quota (se_gate env) (Option.bind ctx kc_key_id) est (sv_gate s) = (Inl e, g1) \<and> sv_gate s' = g1)
    \<or> (\<exists>r g1 g2. reserve_quota (se_gate env) (Option.bind ctx kc_key_id) est (sv_gate s) = (Inr r, g1)
        \<and> begin_limits (se_gate env) ctx req model est g1 = (Inl e, g2)
        \<and> sv_gate s' = settle_quota (se_gate env) (Option.bind ctx kc_key_id) r 0 g2)"
  using assms by (auto simp: billed_def Let_def split: prod.splits sum.splits)

lemma billed_Inr:
  assumes "billed env ctx req model est dispatch usage s = (Inr (attr, res), s')"
  obtains r g1 g g2 r' g' g5 where
    "reserve_quota (se_gate env) (Option.bind ctx kc_key_id) est (sv_gate s) = (Inr r, g1)"
    "begin_limits (se_gate env) ctx req model est g1 = (Inr g, g2)"
    "dispatch (sv_router s) = (res, r')" "attr = lg_attribution g"
    "settle (se_gate env) (case res of Inr resp \<Rightarrow> usage_cost (usage resp) | Inl _ \<Rightarrow> 0) g
       (settle_quota (se_gate env) (Option.bind ctx kc_key_id) r
          (case res of Inr resp \<Rightarrow> usage_cost (usage resp) | Inl _ \<Rightarrow> 0) (se_meanwhile env g2)) = (g', g5)"
    "sv_gate s' = drop_guard g' g5"
  using assms by (auto simp: billed_def Let_def split: prod.splits sum.splits)

definition cost_within :: "'w router \<Rightarrow> ('w router \<Rightarrow> (proxy_error + 'r) \<times> 'w router) \<Rightarrow> ('r \<Rightarrow> usage_info option) \<Rightarrow> f64 \<Rightarrow> bool" where
  "cost_within r dispatch usage bound =
     (\<forall>resp r'. dispatch r = (Inr resp, r') \<longrightarrow> usage_cost (usage resp) \<le> bound)"

lemma billed_keeps:
  assumes o': "others_keep within_limits (se_gate env)" and d: "default_cap_ok (se_gate env)"
    and m: "\<And>g. within_limits g \<Longrightarrow> within_limits (se_meanwhile env g)"
    and c: "cost_within (sv_router s) dispatch usage (max est 0)" and s: "within_limits (sv_gate s)"
  shows "within_limits (sv_gate (snd (billed env ctx req model est dispatch usage s)))"
proof -
  let ?ge = "se_gate env" and ?key = "Option.bind ctx kc_key_id"
  obtain x s' where run: "billed env ctx req model est dispatch usage s = (x, s')"
    by (cases "billed env ctx req model est dispatch usage s")
  have q: "within_limits g1" if "reserve_quota ?ge ?key est (sv_gate s) = (y, g1)" for y g1
    using reserve_quota_keeps [OF o' s] that by (metis snd_conv)
  have b: "within_limits g2" if "within_limits g1" "begin_limits ?ge ctx req model est g1 = (y, g2)" for y g1 g2
    using keepsD [OF quotas.begin_keeps [OF o' d] that] .
  show ?thesis
  proof (cases x)
    case (Inl e)
    with billed_Inl [of env ctx req model est dispatch usage s e s'] run consider
        (quota) g1 where "reserve_quota ?ge ?key est (sv_gate s) = (Inl e, g1)" "sv_gate s' = g1"
      | (limits) r g1 g2 where "reserve_quota ?ge ?key est (sv_gate s) = (Inr r, g1)"
          "begin_limits ?ge ctx req model est g1 = (Inl e, g2)" "sv_gate s' = settle_quota ?ge ?key r 0 g2"
      by auto
    then show ?thesis
    proof cases
      case quota
      then show ?thesis using q run by simp
    next
      case limits
      have "0 \<le> r" using reserve_quota_amount [OF limits(1)] by (simp split: option.splits)
      then have "within_limits (settle_quota ?ge ?key r 0 g2)"
        using b [OF q [OF limits(1)] limits(2)] by (rule settle_quota_keeps [OF o'])
      then show ?thesis using limits(3) run by simp
    qed
  next
    case (Inr p)
    then obtain attr res where p: "x = Inr (attr, res)" by (cases p) simp
    let ?cost = "case res of Inr resp \<Rightarrow> usage_cost (usage resp) | Inl _ \<Rightarrow> 0"
    from billed_Inr [OF run [unfolded p]] obtain r g1 g g2 r' g' g5 where
      st: "reserve_quota ?ge ?key est (sv_gate s) = (Inr r, g1)"
        "begin_limits ?ge ctx req model est g1 = (Inr g, g2)" "dispatch (sv_router s) = (res, r')"
        "settle ?ge ?cost g (settle_quota ?ge ?key r ?cost (se_meanwhile env g2)) = (g', g5)"
        "sv_gate s' = drop_guard g' g5" by metis
    have cost: "?cost \<le> max est 0"
      using c st(3) by (auto simp: cost_within_def split: sum.splits)
    have q2: "within_limits (settle_quota ?ge ?key r ?cost (se_meanwhile env g2))"
    proof (cases ?key)
      case None
      then show ?thesis using m [OF b [OF q [OF st(1)] st(2)]] by (simp add: settle_quota_def)
    next
      case (Some k)
      with reserve_quota_amount [OF st(1)] cost have "?cost \<le> r" by simp
      then show ?thesis using m [OF b [OF q [OF st(1)] st(2)]] by (rule settle_quota_keeps [OF o'])
    qed
    have "within_limits g5"
    proof (cases "lg_store_backed g \<and> en_managed ?ge")
      case True
      with begin_amount [OF st(2)] cost have "f64_sub ?cost (lg_reserved g) \<le> 0" by (simp add: f64_sub_nonpos)
      from quotas.settle_keeps [OF o' this q2] st(4) show ?thesis by simp
    next
      case False
      with st(4) q2 show ?thesis by (auto simp: settle_def)
    qed
    then show ?thesis using quotas.release_keeps st(5) run by (simp add: drop_guard_def)
  qed
qed
section \<open>The handlers\<close>

abbreviation base_cost :: "'r validated \<Rightarrow> f64" where
  "base_cost v \<equiv> mp_base_cost_usd (ms_pricing (vd_schema v))"

abbreviation image_dispatch where
  "image_dispatch env ctx v mats creds store \<equiv> generate_image (se_gateway env) (vd_schema v)
     (ir_base (vd_request v)) (image_extras_of (vd_request v)) mats creds store (map_option cache_scope ctx)"

abbreviation video_dispatch where
  "video_dispatch env v mats creds \<equiv> generate_video (se_gateway env) (vd_schema v)
     (vr_base (vd_request v)) (video_extras_of (vd_schema v) (vd_request v)) mats creds"

text \<open>How the answer of a handler follows from the billing steps.\<close>

definition answer_of :: "refusal + attribution \<times> (proxy_error + 'r) \<Rightarrow> gen_failure + 'r \<times> string option \<Rightarrow> bool" where
  "answer_of x res =
     (case x of
        Inl e \<Rightarrow> res = Inl (Rejected e)
      | Inr (attr, Inr resp) \<Rightarrow> (\<exists>h. res = Inr (resp, h))
      | Inr (attr, Inl e) \<Rightarrow> (\<exists>n. res = Inl (DispatchFailed n e)))"

lemma materialize_refs_gate: "materialize_refs env v base s = (m, t) \<Longrightarrow> sv_gate t = sv_gate s"
  by (auto simp: materialize_refs_def split: prod.splits)

lemma handle_image_steps:
  assumes "handle_image env ctx req v s = (res, s')"
  shows "(sv_gate s' = sv_gate s \<and> (\<exists>e. res = Inl e))
    \<or> (\<exists>mats creds store t x t'. materialize_refs env v (ir_base (vd_request v)) s = (Inr mats, t)
        \<and> billed env ctx req (ms_id (vd_schema v)) (base_cost v) (image_dispatch env ctx v mats creds store) ig_usage t = (x, t')
        \<and> sv_gate s' = sv_gate t' \<and> answer_of x res)"
proof -
  obtain m t where m: "materialize_refs env v (ir_base (vd_request v)) s = (m, t)"
    by (cases "materialize_refs env v (ir_base (vd_request v)) s")
  note t = materialize_refs_gate [OF m]
  show ?thesis
  proof (cases m)
    case (Inl e)
    with assms m t show ?thesis by (auto simp: handle_image_def Let_def)
  next
    case (Inr mats)
    show ?thesis
    proof (cases "resolve_org_provider_credential env ctx (ms_provider (vd_schema v))")
      case (Inl e)
      with assms m t Inr show ?thesis by (auto simp: handle_image_def Let_def)
    next
      case creds: (Inr creds)
      show ?thesis
      proof (cases "creds = None \<and> \<not> has_image_provider (ms_provider (vd_schema v)) (sv_router t)")
        case True
        with assms m t Inr creds show ?thesis by (auto simp: handle_image_def Let_def)
      next
        case False
        let ?d = "image_dispatch env ctx v mats creds (resolve_app_image_store env ctx)"
        obtain x t' where b: "billed env ctx req (ms_id (vd_schema v)) (base_cost v) ?d ig_usage t = (x, t')"
          by (cases "billed env ctx req (ms_id (vd_schema v)) (base_cost v) ?d ig_usage t")
        have "sv_gate s' = sv_gate t' \<and> answer_of x res"
          using assms unfolding handle_image_def Let_def m prod.case Inr sum.case creds if_not_P [OF False] b
          by (auto simp: answer_of_def split: sum.splits prod.splits)
        with m Inr b show ?thesis by blast
      qed
    qed
  qed
qed


text \<open>C13:
  Quotas and budgets hold through every image request: whatever the other requests do that keep
  them, whatever the database and the providers answer, no key passes its quota and no principal
  its budget, as long as no image costs more than the model's base price.
\<close>

theorem generations_stay_within_limits:
  assumes "others_keep within_limits (se_gate env)" and "default_cap_ok (se_gate env)"
    and "\<And>g. within_limits g \<Longrightarrow> within_limits (se_meanwhile env g)"
    and "\<And>mats t creds store. materialize_refs env v (ir_base (vd_request v)) s = (Inr mats, t) \<Longrightarrow>
      cost_within (sv_router t) (image_dispatch env ctx v mats creds store) ig_usage (max (base_cost v) 0)"
    and "within_limits (sv_gate s)"
  shows "within_limits (sv_gate (snd (handle_image env ctx req v s)))"
proof -
  obtain res s' where run: "handle_image env ctx req v s = (res, s')" by (cases "handle_image env ctx req v s")
  from handle_image_steps [OF run] show ?thesis
  proof (elim disjE exE conjE)
    fix mats creds store t x t'
    assume m: "materialize_refs env v (ir_base (vd_request v)) s = (Inr mats, t)" and t: "sv_gate s' = sv_gate t'"
      and b: "billed env ctx req (ms_id (vd_schema v)) (base_cost v)
        (image_dispatch env ctx v mats creds store) ig_usage t = (x, t')"
    have "within_limits (sv_gate t)" using assms(5) materialize_refs_gate [OF m] by simp
    from billed_keeps [OF assms(1,2,3) assms(4) [OF m] this, of ctx req "ms_id (vd_schema v)" creds store]
    show ?thesis using b t run by simp
  qed (use assms(5) run in simp)
qed

text \<open>What a video costs when no markup is configured: the base price of its model.\<close>

lemma unmarked_video_cost:
  assumes "\<And>cs x r'. dispatch_video (se_gateway env) (vd_schema v) (vr_base (vd_request v))
         (video_extras_of (vd_schema v) (vd_request v)) mats creds r = (cs, Inr x, r')
       \<Longrightarrow> cost_markup_percent r' = 0"
    and "round_f64 (base_cost v) = base_cost v"
  shows "cost_within r (video_dispatch env v mats creds) vg_usage (base_cost v)"
  using assms
  by (auto simp: cost_within_def generate_video_def usage_cost_def usage_for_def apply_markup_def Let_def
      f64_mul_def f64_div_def f64_add_def split: prod.splits sum.splits)

text \<open>And an image, when cached ones cost no more and storing one changes no settings.\<close>

lemma unmarked_image_cost:
  fixes env :: "'w server_env" and r :: "'w router"
  assumes "\<And>resp. get_image (gw_codec (se_gateway env)) (map_option cache_scope ctx) (ms_id (vd_schema v))
        (ir_base (vd_request v)) (image_extras_of (vd_request v)) (rt_cache r) = Some resp
       \<Longrightarrow> usage_cost (ig_usage resp) \<le> base_cost v"
    and "\<And>calls name out r1 data r2. dispatch_image (se_gateway env) (vd_schema v) (ir_base (vd_request v))
         (image_extras_of (vd_request v)) mats creds r = (calls, Inr (name, out), r1)
       \<Longrightarrow> build_image_results (se_gateway env) out (image_extras_of (vd_request v)) (unwrap_or (rt_image_store r1) store) r1
          = (data, r2)
       \<Longrightarrow> cost_markup_percent r2 = 0"
    and "round_f64 (base_cost v) = base_cost v"
  shows "cost_within r (image_dispatch env ctx v mats creds store) ig_usage (base_cost v)"
proof -
  have one: "length data = 1" if "build_image_results gw out x st r = (data, r')" for gw out x st r data r'
    using that by (auto simp: build_image_results_def Let_def split: prod.splits)
  have "usage_cost (ig_usage resp) \<le> base_cost v"
    if "image_dispatch env ctx v mats creds store r = (Inr resp, r')" for resp r'
    using that assms(1) [of resp] assms(2,3)
    by (auto simp: generate_image_def Let_def usage_cost_def usage_for_def apply_markup_def one
        f64_mul_def f64_div_def f64_add_def split: option.splits prod.splits sum.splits)
  then show ?thesis by (simp add: cost_within_def)
qed

section \<open>Without interference\<close>














section \<open>A successful request\<close>




section \<open>The cache and the principals\<close>

text \<open>Organization ids without a slash, and texts without zero bytes.\<close>

definition plain_context :: "key_context \<Rightarrow> bool" where
  "plain_context c = ((case kc_org_id c of Some org \<Rightarrow> CHR ''/'' \<notin> set org | None \<Rightarrow> True)
     \<and> nul_free (cache_scope c))"

text \<open>Whom a cached answer may be shared with.\<close>

definition same_principal :: "key_context \<Rightarrow> key_context \<Rightarrow> bool" where
  "same_principal c c' = (kc_org_id c = kc_org_id c'
     \<and> (case kc_org_id c of
          Some _ \<Rightarrow> kc_app_id c = kc_app_id c'
        | None \<Rightarrow> kc_key_id c = kc_key_id c'
            \<and> (kc_key_id c = None \<longrightarrow> map_option uc_user_id (kc_user c) = map_option uc_user_id (kc_user c'))))"

lemma slash_split:
  assumes "CHR ''/'' \<notin> set a" "CHR ''/'' \<notin> set b" "a @ CHR ''/'' # x = b @ CHR ''/'' # y"
  shows "a = b \<and> x = y"
proof -
  have "takeWhile (\<lambda>c. c \<noteq> CHR ''/'') (as @ CHR ''/'' # z) = as" if "CHR ''/'' \<notin> set as" for as z
    using that by (induction as) auto
  from this [OF assms(1), of x] this [OF assms(2), of y] assms(3) show ?thesis by simp
qed

lemma slash_absent: "CHR ''/'' \<notin> set b \<Longrightarrow> (a @ CHR ''/'' # x = b) = False" "CHR ''/'' \<notin> set b \<Longrightarrow> (b = a @ CHR ''/'' # x) = False"
  by auto

text \<open>Scopes of tenants, and of the others.\<close>

lemma cache_scope_tenant:
  assumes "kc_org_id c = Some org" and "kc_org_id c' = Some org'" and "CHR ''/'' \<notin> set org" "CHR ''/'' \<notin> set org'"
    and "cache_scope c = cache_scope c'"
  shows "org = org' \<and> kc_app_id c = kc_app_id c'"
proof (cases "kc_app_id c"; cases "kc_app_id c'")
  fix app app'
  assume a: "kc_app_id c = Some app" "kc_app_id c' = Some app'"
  then have "org @ CHR ''/'' # ''a:'' @ app = org' @ CHR ''/'' # ''a:'' @ app'"
    using assms by (simp add: cache_scope_def)
  from slash_split [OF assms(3,4) this] a show ?thesis by simp
qed (use assms in \<open>simp_all add: cache_scope_def slash_absent\<close>)

lemma cache_scope_other:
  assumes "kc_org_id c = None" and "kc_org_id c' = None" and "cache_scope c = cache_scope c'"
  shows "same_principal c c'"
  using assms
  by (cases "kc_key_id c"; cases "kc_key_id c'"; cases "kc_user c"; cases "kc_user c'")
    (simp_all add: cache_scope_def same_principal_def uuid_text_inject)

lemma cache_scope_mixed: "kc_org_id c = Some org \<Longrightarrow> kc_org_id c' = None \<Longrightarrow> cache_scope c \<noteq> cache_scope c'"
  by (cases "kc_app_id c"; cases "kc_key_id c'"; cases "kc_user c'") (simp_all add: cache_scope_def)

lemma cache_scope_separates:
  assumes "plain_context c" and "plain_context c'" and "cache_scope c = cache_scope c'"
  shows "same_principal c c'"
proof (cases "kc_org_id c"; cases "kc_org_id c'")
  fix org org'
  assume o': "kc_org_id c = Some org" "kc_org_id c' = Some org'"
  from cache_scope_tenant [OF this _ _ assms(3)] assms(1,2) o' show ?thesis
    by (simp add: plain_context_def same_principal_def)
qed (use assms cache_scope_mixed cache_scope_other in metis)+

text \<open>C31:
  The image cache, which all tenants share, never answers one principal with the image of another:
  requests of different principals have different keys, whatever else they contain. Principals are
  an organization's application, an organization, or, without one, a key, a user or the operator.
\<close>

theorem cache_never_crosses_principals:
  assumes "inj (cd_digest cd)" and "plain_context c" and "plain_context c'" and "\<not> same_principal c c'"
  shows "image_cache_key cd (Some (cache_scope c)) model base extras
    \<noteq> image_cache_key cd (Some (cache_scope c')) model' base' extras'"
  by (rule tenants_never_share_keys [OF assms(1)])
    (use cache_scope_separates [OF assms(2,3)] assms(2-4) in \<open>auto simp: plain_context_def\<close>)
section \<open>Examples\<close>

lemma round_f64_32th [simp]: "round_f64 (1 / 32) = 1 / 32" "round_f64 (97 / 32) = 97 / 32"
  using round_f64_exact [of 1 "- 5"] round_f64_exact [of 97 "- 5"] by (simp_all add: power_int_minus)

text \<open>A key with a quota of 1 in the organization of the example gate; images cost 1/32.\<close>

definition paying_key :: api_key where
  "paying_key = new_row 1 0 ''org'' ''app'' ''pk'' ''key'' ''hash'' ''prefix'' (Some 1) None ''generate'' None None"

abbreviation paying_context :: key_context where
  "paying_context \<equiv> key_context_of paying_key"

definition example_server :: "nat server" where
  "example_server = \<lparr>sv_gate = example_gate\<lparr>ga_keys := [paying_key]\<rparr>, sv_router = example_router, sv_tasks = []\<rparr>"

definition example_server_env :: "string \<Rightarrow> nat server_env" where
  "example_server_env mode =
     \<lparr>se_gate = example_gate_env\<lparr>en_app_access := (\<lambda>_. (mode, []))\<rparr>, se_gateway = example_gateway,
      se_net = \<lparr>nt_parse = (\<lambda>_. Inl []), nt_parse_ip = (\<lambda>_. None), nt_lookup = (\<lambda>_ _ _. Inl []),
        nt_get = (\<lambda>_ w. (Inl [], w))\<rparr>,
      se_encode = (\<lambda>_. []), se_decode = (\<lambda>_. Inl []), se_secrets_key = None, se_credential = (\<lambda>_ _. Inr None),
      se_storage = (\<lambda>_. Inr None), se_decrypt = (\<lambda>_ _ _. Inl []), se_json = (\<lambda>_. Inl []),
      se_decode_keys = (\<lambda>_. None), se_decode_sets = (\<lambda>_. None), se_storage_secret = (\<lambda>_. None),
      se_s3_store = (\<lambda>_. None), se_meanwhile = (\<lambda>g. g)\<rparr>"

definition example_request_image :: "image_request validated" where
  "example_request_image =
     \<lparr>vd_schema = example_model\<lparr>ms_provider := ''openai''\<rparr>,
      vd_request = \<lparr>ir_base = example_base, ir_size = Some ''512x512'', ir_aspect_ratio = None,
        ir_quality = None, ir_style = None, ir_steps = None, ir_guidance_scale = None, ir_strength = None,
        ir_response_format = ''url''\<rparr>,
      vd_dropped = [], vd_ctx = Map.empty\<rparr>"

lemma paying_key_simps [simp]:
  "ky_id paying_key = 1" "ky_tokens_used paying_key = 0" "ky_token_quota paying_key = Some 1"
  "kc_key_id paying_context = Some 1" "kc_org_id paying_context = Some ''org''"
  "kc_app_id paying_context = Some ''app''" "kc_user paying_context = None"
  by (simp_all add: paying_key_def new_row_def key_context_of_def)

lemma example_env_simps [simp]:
  "se_gate (example_server_env mode) = example_gate_env\<lparr>en_app_access := (\<lambda>_. (mode, []))\<rparr>"
  "se_gateway (example_server_env mode) = example_gateway" "se_meanwhile (example_server_env mode) g = g"
  "se_secrets_key (example_server_env mode) = None"
  "sv_gate example_server = example_gate\<lparr>ga_keys := [paying_key]\<rparr>" "sv_router example_server = example_router"
  "vd_schema example_request_image = example_model\<lparr>ms_provider := ''openai''\<rparr>"
  "ir_base (vd_request example_request_image) = example_base"
  "base_cost example_request_image = 1 / 32"
  "vd_dropped example_request_image = []"
  by (simp_all add: example_server_env_def example_server_def example_request_image_def)


lemma example_server_ok:
  "quiet (se_gate (example_server_env mode))" "healthy (se_gate (example_server_env mode))"
  "default_cap_ok (se_gate (example_server_env mode))" "en_managed (se_gate (example_server_env mode))"
  "keyed (sv_gate example_server)" "distinct (map ky_id (ga_keys (sv_gate example_server)))"
  "within_limits (sv_gate example_server)"
  using example_env_ok
  by (simp_all add: quiet_def healthy_def default_cap_ok_def keyed_def within_limits_def capped_def key_capped_def)
    (simp_all add: example_gate_def row_capped_def example_row_def)

lemma example_materialized:
  "materialize_refs (example_server_env mode) example_request_image (ir_base (vd_request example_request_image)) example_server
     = (Inr [], example_server)"
  by (simp add: materialize_refs_def materialize_def)

lemma direct_attempts_markup:
  assumes "\<And>s. cost_markup_percent (snd (call s)) = cost_markup_percent s"
    and "direct_attempts gw call p n s = (rs, x, s')"
  shows "cost_markup_percent s' = cost_markup_percent s"
  using assms(2)
proof (induction n arbitrary: s rs x s')
  case 0
  then show ?case
    using assms(1) [of s]
    by (auto simp: direct_attempts.simps [of _ _ _ 0] record_latency_def cost_markup_percent_def Let_def
        split: prod.splits attempt.splits if_splits)
next
  case (Suc n)
  obtain a s1 where c: "call s = (a, s1)" by (cases "call s")
  then have s1: "cost_markup_percent s1 = cost_markup_percent s" using assms(1) [of s] by simp
  obtain rs' x' s2 where d: "direct_attempts gw call p n s1 = (rs', x', s2)" by (cases "direct_attempts gw call p n s1") auto
  have s2: "cost_markup_percent s2 = cost_markup_percent s" using Suc.IH [OF d] s1 by simp
  show ?case
    using Suc.prems s1 s2 d
    by (cases a) (auto simp: direct_attempts.simps [of _ _ _ "Suc n"] record_latency_def cost_markup_percent_def
        Let_def c split: if_splits)
qed

lemma example_markup:
  assumes "dispatch_image example_gateway schema base extras mats creds example_router = (calls, Inr (p, out), r1)"
  shows "cost_markup_percent r1 = 0"
proof -
  have "find_model_route example_router m = None" for m
    by (simp add: find_model_route_def model_routes_def example_router_def)
  with assms obtain pv rs where
    "direct_attempts example_gateway (gw_image example_gateway pv schema base extras mats 120) (ms_provider schema) 2
       example_router = (rs, Inr out, r1)"
    by (auto simp: dispatch_image_def direct_dispatch_def Let_def split: option.splits prod.splits sum.splits)
  then have "cost_markup_percent r1 = cost_markup_percent example_router"
    by (rule direct_attempts_markup [rotated])
      (simp add: example_gateway_def example_image_call_def cost_markup_percent_def)
  then show ?thesis by (simp add: cost_markup_percent_def example_router_def)
qed

lemma example_stores: "build_image_results example_gateway out extras store r = (data, r') \<Longrightarrow> r' = r"
  by (auto simp: build_image_results_def example_gateway_def Let_def)

lemma example_cache_empty: "get_image cd tenant m base extras (rt_cache example_router) = None"
  by (simp add: get_image_def example_router_def)

theorem generations_stay_within_limits_witness:
  "within_limits (sv_gate (snd (handle_image (example_server_env ''all'') (Some paying_context) no_attribution
     example_request_image example_server)))"
proof (rule generations_stay_within_limits)
  fix mats t creds store
  assume "materialize_refs (example_server_env ''all'') example_request_image
      (ir_base (vd_request example_request_image)) example_server = (Inr mats, t)"
  then have t: "sv_router t = example_router" by (simp add: example_materialized del: example_env_simps) simp
  have "cost_within example_router (image_dispatch (example_server_env ''all'') (Some paying_context)
      example_request_image mats creds store) ig_usage (base_cost example_request_image)"
    by (rule unmarked_image_cost) (auto simp: example_cache_empty dest: example_stores example_markup)
  then show "cost_within (sv_router t) (image_dispatch (example_server_env ''all'') (Some paying_context)
      example_request_image mats creds store) ig_usage (max (base_cost example_request_image) 0)"
    by (simp add: t)
next
  show "others_keep within_limits (se_gate (example_server_env ''all''))"
    by (rule quiet_others [OF example_server_ok(1)]) (simp add: within_limits_def capped_def)
qed (use example_server_ok in simp_all)







theorem cache_never_crosses_principals_witness:
  "image_cache_key example_codec (Some (cache_scope paying_context)) ''fal/flux'' example_base example_extras
    \<noteq> image_cache_key example_codec (Some (cache_scope (paying_context\<lparr>kc_app_id := None\<rparr>))) ''fal/flux''
        example_base example_extras"
  by (rule cache_never_crosses_principals)
    (simp_all add: example_codec_def inj_def plain_context_def same_principal_def cache_scope_def nul_free_def nul_eq)

end
