(* ===== verification/Tenancy.thy ===== *)
theory Tenancy
  imports Prelude
begin

text \<open>
  What every tenant relies on: the requests of the others leave its data alone. The interface is
  a step of the server on a request, the organization a request acts for, and the part of the
  state an organization owns; the components that keep tenants' data provide it.
\<close>

locale tenant_isolation =
  fixes step :: "'q \<Rightarrow> 's \<Rightarrow> 's"
    and acts_for :: "'q \<Rightarrow> string option"
    and owned :: "string \<Rightarrow> 's \<Rightarrow> 'd"
    and ok :: "'s \<Rightarrow> bool"
  assumes ok_step: "ok s \<Longrightarrow> ok (step q s)"
    and owned_step: "ok s \<Longrightarrow> acts_for q \<noteq> Some org \<Longrightarrow> owned org (step q s) = owned org s"
begin

lemma ok_run: "ok s \<Longrightarrow> ok (fold step qs s)"
  by (induction qs arbitrary: s) (auto intro: ok_step)

lemma owned_run:
  "ok s \<Longrightarrow> (\<And>q. q \<in> set qs \<Longrightarrow> acts_for q \<noteq> Some org) \<Longrightarrow> owned org (fold step qs s) = owned org s"
  by (induction qs arbitrary: s) (simp_all add: ok_step owned_step)

text \<open>Interleaved with an organization's own requests, only those count.\<close>

lemma owned_after:
  "ok s \<Longrightarrow> (\<And>q. q \<in> set rs \<Longrightarrow> acts_for q \<noteq> Some org)
     \<Longrightarrow> owned org (fold step (qs @ rs) s) = owned org (fold step qs s)"
  by (simp add: owned_run ok_run)

end

end
