(* ===== verification/Keys.thy ===== *)
theory Keys
  imports KeyStore Ssrf Tenancy
begin

text \<open>
  The management of API keys: the handlers under \<open>/v1/keys\<close> (\<open>api/handlers/mod.rs\<close>). A
  handler gets the context of the authentication, if any, and changes the table of keys; the
  entries it hands to the audit log are kept in the order of the calls.

  The entries' random ids and times are left out, as the writing task draws them; before-images
  are never passed by these handlers.
\<close>

section \<open>Responses\<close>

record key_detail =
  kd_id :: uuid
  kd_name :: string
  kd_key_prefix :: string
  kd_created_at :: datetime
  kd_expires_at :: "datetime option"
  kd_is_active :: bool
  kd_token_quota :: "f64 option"
  kd_tokens_used :: f64
  kd_rpm_limit :: "u32 option"
  kd_scopes :: string
  kd_webhook_url :: "string option"

record key_info = key_detail +
  ki_public_id :: "string option"
  ki_app_id :: "string option"

record key_created =
  kr_id :: uuid
  kr_public_id :: string
  kr_key :: string
  kr_prefix :: string
  kr_name :: string
  kr_created_at :: datetime
  kr_token_quota :: "f64 option"
  kr_rpm_limit :: "u32 option"
  kr_scopes :: string

record key_rotated =
  ro_id :: uuid
  ro_public_id :: string
  ro_key :: string
  ro_prefix :: string
  ro_name :: string
  ro_scopes :: string
  ro_token_quota :: "f64 option"
  ro_rpm_limit :: "u32 option"
  ro_webhook_url :: "string option"
  ro_expires_at :: "datetime option"

datatype key_response =
  KeyError nat string string
| WebhookRefused url_error
| Created key_created | Listed "key_info list" | Revoked | Detail key_detail | Rotated key_rotated

fun key_status :: "key_response \<Rightarrow> nat" where
  "key_status (KeyError n _ _) = n"
| "key_status (WebhookRefused _) = 400"
| "key_status (Created _) = 201"
| "key_status _ = 200"

definition error_kind :: "nat \<Rightarrow> string" where
  "error_kind code =
     (if code = 400 then ''invalid_request_error''
      else if code = 401 then ''authentication_error''
      else if code = 403 then ''forbidden''
      else if code = 404 then ''not_found_error''
      else if code = 424 then ''provider_not_configured''
      else if code = 429 then ''rate_limit_error''
      else if code = 502 then ''provider_error''
      else if code = 503 then ''service_unavailable''
      else ''internal_error'')"

definition error_response :: "string \<Rightarrow> nat \<Rightarrow> key_response" where
  "error_response message code = KeyError code (error_kind code) message"

definition forbidden_no_org :: key_response where
  "forbidden_no_org = error_response ''no active organization'' 403"

abbreviation key_not_found :: key_response where
  "key_not_found \<equiv> error_response ''Key not found'' 404"

definition quoted :: "string \<Rightarrow> string" where
  "quoted s = [CHR 0x27] @ s @ [CHR 0x27]"

definition forbidden_perm_resp :: "string \<Rightarrow> key_response" where
  "forbidden_perm_resp perm = error_response (''Permission '' @ quoted perm @ '' required'') 403"

section \<open>State and environment\<close>

datatype audit_after = NoAfter
| AfterCreated string string "f64 option" "u32 option"
| AfterUpdated key_detail | AfterRotated string

record audit_entry =
  ae_actor_key_id :: "uuid option"
  ae_action :: string
  ae_target_id :: uuid
  ae_after :: audit_after
  ae_org_id :: "string option"

text \<open>The label of an entry is the text of the acting key's id, or \<open>master-key\<close>.\<close>

record key_state =
  ks_keys :: "api_key list"
  ks_audit :: "audit_entry list"

record key_env =
  ke_mode :: mode
  ke_faults :: faults
  ke_parse :: "string \<Rightarrow> string + url"
  ke_parse_ip :: "string \<Rightarrow> ip_addr option"
  ke_lookup :: "string \<Rightarrow> 16 word \<Rightarrow> string + ip_addr list"
  ke_pair :: key_pair
  ke_id :: uuid
  ke_now :: datetime

definition log_audit ::
  "key_context option \<Rightarrow> string \<Rightarrow> uuid \<Rightarrow> audit_after \<Rightarrow> key_state \<Rightarrow> key_state" where
  "log_audit ctx action target entry st =
     st\<lparr>ks_audit := ks_audit st @
       [\<lparr>ae_actor_key_id = Option.bind ctx kc_key_id, ae_action = action, ae_target_id = target,
         ae_after = entry, ae_org_id = Option.bind ctx kc_org_id\<rparr>]\<rparr>"

definition validate_tenant_webhook_url :: "key_env \<Rightarrow> string option \<Rightarrow> key_response option" where
  "validate_tenant_webhook_url env wh =
     (case wh of
        None \<Rightarrow> None
      | Some url \<Rightarrow>
          if ke_mode env \<noteq> Hosted \<or> url = [] then None
          else case validate_public_url (ke_parse env) (ke_parse_ip env) (ke_lookup env) url of
            Inl reason \<Rightarrow> Some (WebhookRefused reason)
          | Inr _ \<Rightarrow> None)"

section \<open>Creation\<close>

record create_request =
  cr_name :: string
  cr_token_quota :: "f64 option"
  cr_rpm_limit :: "u32 option"
  cr_scopes :: string
  cr_webhook_url :: "string option"
  cr_expires_at :: "datetime option"

definition default_key_scopes :: string where "default_key_scopes = ''generate,read''"

fun refused_scope :: "scope list \<Rightarrow> string list \<Rightarrow> key_response option" where
  "refused_scope grantable [] = None"
| "refused_scope grantable (t # ts) =
     (case scope_parse t of
        Some s \<Rightarrow>
          if s \<in> set grantable then refused_scope grantable ts
          else Some (error_response (''insufficient privilege to grant scope '' @ quoted t) 403)
      | None \<Rightarrow> Some (error_response (''unknown scope '' @ quoted t) 400))"

definition scope_tokens :: "string \<Rightarrow> string list" where
  "scope_tokens s = filter (\<lambda>t. t \<noteq> []) (map trim (split_on CHR '','' s))"

definition may_write :: "key_context \<Rightarrow> bool" where
  "may_write c = (KeyWriteOwn \<in> set (kc_permissions c) \<or> KeyWriteAny \<in> set (kc_permissions c))"

definition create_checks ::
  "key_env \<Rightarrow> key_context option \<Rightarrow> create_request \<Rightarrow> key_response + string \<times> string" where
  "create_checks env ctx r =
     (if (case ctx of Some c \<Rightarrow> kc_user c \<noteq> None \<and> \<not> may_write c | None \<Rightarrow> False)
      then Inl (error_response ''key:write:own permission required'' 403)
      else case (Option.bind ctx kc_org_id, Option.bind ctx kc_app_id) of
        (Some org, Some app) \<Rightarrow>
          (case validate_tenant_webhook_url env (cr_webhook_url r) of
             Some resp \<Rightarrow> Inl resp
           | None \<Rightarrow>
               (case Option.bind ctx (\<lambda>c. refused_scope (grantable_scopes c) (scope_tokens (cr_scopes r))) of
                  Some resp \<Rightarrow> Inl resp
                | None \<Rightarrow> Inr (org, app)))
      | _ \<Rightarrow> Inl forbidden_no_org)"

definition created_view :: "key_pair \<Rightarrow> api_key \<Rightarrow> key_created" where
  "created_view kp k =
     \<lparr>kr_id = ky_id k, kr_public_id = kp_public_id kp, kr_key = kp_secret kp, kr_prefix = kp_prefix kp,
      kr_name = ky_name k, kr_created_at = ky_created_at k, kr_token_quota = ky_token_quota k,
      kr_rpm_limit = ky_rpm_limit k, kr_scopes = ky_scopes k\<rparr>"

text \<open>The statements are numbered: insertion 0, its read 1, the owner 2.\<close>

definition create_api_key ::
  "key_env \<Rightarrow> key_context option \<Rightarrow> create_request \<Rightarrow> key_state \<Rightarrow> key_response \<times> key_state" where
  "create_api_key env ctx r st =
     (case create_checks env ctx r of
        Inl resp \<Rightarrow> (resp, st)
      | Inr (org, app) \<Rightarrow>
          (let kp = ke_pair env;
               row = new_row (ke_id env) (ke_now env) org app (kp_public_id kp) (cr_name r)
                 (kp_secret_hash kp) (kp_prefix kp) (cr_token_quota r) (cr_rpm_limit r)
                 (cr_scopes r) (cr_webhook_url r) (cr_expires_at r)
           in case insert_key (ke_faults env) 0 row (ks_keys st) of
                (Inl e, keys) \<Rightarrow> (error_response e 500, st\<lparr>ks_keys := keys\<rparr>)
              | (Inr k, keys) \<Rightarrow>
                  (let keys' = (case Option.bind ctx kc_user of
                         Some u \<Rightarrow> set_api_key_owner (ke_faults env) 2 (ky_id k) (uc_user_id u) keys
                       | None \<Rightarrow> keys)
                   in (Created (created_view kp k),
                       log_audit ctx ''key.create'' (ky_id k)
                         (AfterCreated (ky_name k) (ky_scopes k) (ky_token_quota k) (ky_rpm_limit k))
                         (st\<lparr>ks_keys := keys'\<rparr>)))))"

section \<open>Listing and reading\<close>

definition detail_of :: "api_key \<Rightarrow> key_detail" where
  "detail_of k =
     \<lparr>kd_id = ky_id k, kd_name = ky_name k, kd_key_prefix = ky_key_prefix k,
      kd_created_at = ky_created_at k, kd_expires_at = ky_expires_at k, kd_is_active = ky_is_active k,
      kd_token_quota = ky_token_quota k, kd_tokens_used = ky_tokens_used k,
      kd_rpm_limit = ky_rpm_limit k, kd_scopes = ky_scopes k, kd_webhook_url = ky_webhook_url k\<rparr>"

definition info_of :: "api_key \<Rightarrow> key_info" where
  "info_of k = key_detail.extend (detail_of k) (key_info.fields (ky_public_id k) (ky_app_id k))"

definition list_api_keys :: "key_env \<Rightarrow> key_context option \<Rightarrow> key_state \<Rightarrow> key_response" where
  "list_api_keys env ctx st =
     (case Option.bind ctx kc_app_id of
        None \<Rightarrow> forbidden_no_org
      | Some app \<Rightarrow>
          (let keys = list_api_keys_for_app (ke_faults env) 0 app (ks_keys st);
               own = (\<lambda>u. and_then keys (\<lambda>ks. Inr (filter (\<lambda>k. ky_owner_user_id k = Some (uc_user_id u)) ks)));
               answer = (\<lambda>res. case res of
                  Inl e \<Rightarrow> error_response e 500 | Inr ks \<Rightarrow> Listed (map info_of ks))
           in case ctx of
                Some c \<Rightarrow>
                  (case kc_user c of
                     Some u \<Rightarrow>
                       if KeyReadAny \<in> set (kc_permissions c) then answer keys
                       else if KeyReadOwn \<in> set (kc_permissions c) then answer (own u)
                       else error_response ''key:read:own permission required'' 403
                   | None \<Rightarrow> answer keys)
              | None \<Rightarrow> answer keys))"

definition get_api_key_handler :: "key_env \<Rightarrow> key_context option \<Rightarrow> uuid \<Rightarrow> key_state \<Rightarrow> key_response" where
  "get_api_key_handler env ctx kid st =
     (case Option.bind ctx kc_org_id of
        None \<Rightarrow> forbidden_no_org
      | Some org \<Rightarrow>
          (case get_api_key (ke_faults env) 0 kid (ks_keys st) of
             Inl e \<Rightarrow> error_response e 500
           | Inr None \<Rightarrow> key_not_found
           | Inr (Some k) \<Rightarrow>
               if ky_org_id k \<noteq> Some org then key_not_found
               else case Option.bind ctx (\<lambda>c. map_option (Pair c) (kc_user c)) of
                 None \<Rightarrow> Detail (detail_of k)
               | Some (c, u) \<Rightarrow>
                   if KeyReadAny \<in> set (kc_permissions c) then Detail (detail_of k)
                   else if KeyReadOwn \<in> set (kc_permissions c)
                   then if ky_owner_user_id k = Some (uc_user_id u) then Detail (detail_of k)
                        else error_response ''Forbidden'' 403
                   else error_response ''key:read:own permission required'' 403))"

section \<open>Changes\<close>

text \<open>What revoking, patching and rotating begin with: the key must exist in the caller's organization.\<close>

definition load_own_org_key ::
  "key_env \<Rightarrow> key_context option \<Rightarrow> uuid \<Rightarrow> key_state \<Rightarrow> key_response + api_key" where
  "load_own_org_key env ctx kid st =
     (case Option.bind ctx kc_org_id of
        None \<Rightarrow> Inl forbidden_no_org
      | Some org \<Rightarrow>
          (case get_api_key (ke_faults env) 0 kid (ks_keys st) of
             Inl e \<Rightarrow> Inl (error_response e 500)
           | Inr None \<Rightarrow> Inl key_not_found
           | Inr (Some k) \<Rightarrow> if ky_org_id k = Some org then Inr k else Inl key_not_found))"

text \<open>
  The ownership check of revoking and patching: a session without the permission for every key
  needs the one for its own keys, and the key, read once more (statement 1), must be its own.
\<close>

definition own_key_gate ::
  "key_env \<Rightarrow> key_context option \<Rightarrow> permission \<Rightarrow> permission \<Rightarrow> uuid \<Rightarrow> key_state \<Rightarrow> key_response option" where
  "own_key_gate env ctx any own kid st =
     (case Option.bind ctx (\<lambda>c. map_option (Pair c) (kc_user c)) of
        None \<Rightarrow> None
      | Some (c, u) \<Rightarrow>
          if any \<in> set (kc_permissions c) then None
          else if own \<in> set (kc_permissions c)
          then (case get_api_key (ke_faults env) 1 kid (ks_keys st) of
                  Inl e \<Rightarrow> Some (error_response e 500)
                | Inr None \<Rightarrow> Some key_not_found
                | Inr (Some k) \<Rightarrow>
                    if ky_owner_user_id k \<noteq> Some (uc_user_id u)
                    then Some (error_response ''Forbidden'' 403) else None)
          else Some (error_response (perm_string own @ '' permission required'') 403))"

definition revoke_api_key ::
  "key_env \<Rightarrow> key_context option \<Rightarrow> uuid \<Rightarrow> key_state \<Rightarrow> key_response \<times> key_state" where
  "revoke_api_key env ctx kid st =
     (case load_own_org_key env ctx kid st of
        Inl resp \<Rightarrow> (resp, st)
      | Inr _ \<Rightarrow>
          (case own_key_gate env ctx KeyDeleteAny KeyDeleteOwn kid st of
             Some resp \<Rightarrow> (resp, st)
           | None \<Rightarrow>
               (case revoke_row (ke_faults env) 2 kid (ks_keys st) of
                  (Inl e, keys) \<Rightarrow> (error_response e 500, st\<lparr>ks_keys := keys\<rparr>)
                | (Inr found, keys) \<Rightarrow>
                    if found
                    then (Revoked, log_audit ctx ''key.revoke'' kid NoAfter (st\<lparr>ks_keys := keys\<rparr>))
                    else (key_not_found, st\<lparr>ks_keys := keys\<rparr>))))"

definition patch_api_key ::
  "key_env \<Rightarrow> key_context option \<Rightarrow> uuid \<Rightarrow> update_request \<Rightarrow> key_state \<Rightarrow> key_response \<times> key_state" where
  "patch_api_key env ctx kid r st =
     (case load_own_org_key env ctx kid st of
        Inl resp \<Rightarrow> (resp, st)
      | Inr _ \<Rightarrow>
          (case own_key_gate env ctx KeyWriteAny KeyWriteOwn kid st of
             Some resp \<Rightarrow> (resp, st)
           | None \<Rightarrow>
               (case validate_tenant_webhook_url env (up_webhook_url r) of
                  Some resp \<Rightarrow> (resp, st)
                | None \<Rightarrow>
                    (case update_row (ke_faults env) 2 kid r (ks_keys st) of
                       (Inl e, keys) \<Rightarrow> (error_response e 500, st\<lparr>ks_keys := keys\<rparr>)
                     | (Inr None, keys) \<Rightarrow> (key_not_found, st\<lparr>ks_keys := keys\<rparr>)
                     | (Inr (Some k), keys) \<Rightarrow>
                         (Detail (detail_of k),
                          log_audit ctx ''key.update'' kid (AfterUpdated (detail_of k))
                            (st\<lparr>ks_keys := keys\<rparr>))))))"

definition authorize_key_for_session ::
  "key_context option \<Rightarrow> api_key \<Rightarrow> permission \<Rightarrow> permission \<Rightarrow> string \<Rightarrow> key_response option" where
  "authorize_key_for_session ctx k any own label =
     (case Option.bind ctx (\<lambda>c. map_option (Pair c) (kc_user c)) of
        None \<Rightarrow> None
      | Some (c, u) \<Rightarrow>
          if any \<in> set (kc_permissions c)
             \<or> (own \<in> set (kc_permissions c) \<and> ky_owner_user_id k = Some (uc_user_id u))
          then None else Some (forbidden_perm_resp label))"

definition rotated_view :: "key_pair \<Rightarrow> api_key \<Rightarrow> key_rotated" where
  "rotated_view kp k =
     \<lparr>ro_id = ky_id k, ro_public_id = kp_public_id kp, ro_key = kp_secret kp, ro_prefix = ky_key_prefix k,
      ro_name = ky_name k, ro_scopes = ky_scopes k, ro_token_quota = ky_token_quota k,
      ro_rpm_limit = ky_rpm_limit k, ro_webhook_url = ky_webhook_url k, ro_expires_at = ky_expires_at k\<rparr>"

definition rotate_api_key ::
  "key_env \<Rightarrow> key_context option \<Rightarrow> uuid \<Rightarrow> key_state \<Rightarrow> key_response \<times> key_state" where
  "rotate_api_key env ctx kid st =
     (case load_own_org_key env ctx kid st of
        Inl resp \<Rightarrow> (resp, st)
      | Inr existing \<Rightarrow>
          (case authorize_key_for_session ctx existing KeyWriteAny KeyWriteOwn ''key:write:own'' of
             Some resp \<Rightarrow> (resp, st)
           | None \<Rightarrow>
               (let kp = ke_pair env in
                case rotate_row (ke_faults env) 1 kid (kp_public_id kp) (kp_secret_hash kp) (kp_prefix kp)
                       (ks_keys st) of
                  (Inl e, keys) \<Rightarrow> (error_response e 500, st\<lparr>ks_keys := keys\<rparr>)
                | (Inr None, keys) \<Rightarrow> (key_not_found, st\<lparr>ks_keys := keys\<rparr>)
                | (Inr (Some k), keys) \<Rightarrow>
                    (Rotated (rotated_view kp k),
                     log_audit ctx ''key.rotate'' kid (AfterRotated (kp_public_id kp))
                       (st\<lparr>ks_keys := keys\<rparr>)))))"

text \<open>Any request under \<open>/v1/keys\<close>.\<close>

datatype key_request =
  CreateKey create_request | ListKeys | GetKey uuid | RevokeKey uuid
| PatchKey uuid update_request | RotateKey uuid

fun handle_key :: "key_env \<Rightarrow> key_context option \<Rightarrow> key_request \<Rightarrow> key_state \<Rightarrow> key_response \<times> key_state" where
  "handle_key env ctx (CreateKey r) st = create_api_key env ctx r st"
| "handle_key env ctx ListKeys st = (list_api_keys env ctx st, st)"
| "handle_key env ctx (GetKey kid) st = (get_api_key_handler env ctx kid st, st)"
| "handle_key env ctx (RevokeKey kid) st = revoke_api_key env ctx kid st"
| "handle_key env ctx (PatchKey kid r) st = patch_api_key env ctx kid r st"
| "handle_key env ctx (RotateKey kid) st = rotate_api_key env ctx kid st"

section \<open>Isolation\<close>

definition acting_org :: "key_env \<times> key_context option \<times> key_request \<Rightarrow> string option" where
  "acting_org q = Option.bind (fst (snd q)) kc_org_id"

definition key_step :: "key_env \<times> key_context option \<times> key_request \<Rightarrow> key_state \<Rightarrow> key_state" where
  "key_step q st = snd (handle_key (fst q) (fst (snd q)) (snd (snd q)) st)"

definition org_keys :: "string \<Rightarrow> key_state \<Rightarrow> api_key list \<times> audit_entry list" where
  "org_keys org st = (filter (\<lambda>k. ky_org_id k = Some org) (ks_keys st),
     filter (\<lambda>e. ae_org_id e = Some org) (ks_audit st))"

lemma log_audit_simps [simp]:
  "ks_keys (log_audit ctx a t e st) = ks_keys st"
  "Option.bind ctx kc_org_id \<noteq> Some org \<Longrightarrow>
     filter (\<lambda>e. ae_org_id e = Some org) (ks_audit (log_audit ctx a t e st))
       = filter (\<lambda>e. ae_org_id e = Some org) (ks_audit st)"
  by (simp_all add: log_audit_def)

lemma load_own_org_key_Inr:
  "load_own_org_key env ctx kid st = Inr k \<Longrightarrow>
     find_key kid (ks_keys st) = Some k \<and> Option.bind ctx kc_org_id \<noteq> None
     \<and> ky_org_id k = Option.bind ctx kc_org_id"
  by (auto simp: load_own_org_key_def get_api_key_def db_try_def split: option.splits if_splits)

text \<open>A change on an existing key goes through \<open>load_own_org_key\<close> and touches that row only.\<close>

definition same_audit_but :: "string option \<Rightarrow> key_state \<Rightarrow> key_state \<Rightarrow> bool" where
  "same_audit_but org st st' =
     (\<forall>o'. org \<noteq> Some o' \<longrightarrow> filter (\<lambda>e. ae_org_id e = Some o') (ks_audit st')
        = filter (\<lambda>e. ae_org_id e = Some o') (ks_audit st))"

lemma changes_touch:
  assumes "st' \<in> {snd (revoke_api_key env ctx kid st), snd (patch_api_key env ctx kid r st),
    snd (rotate_api_key env ctx kid st)}"
  shows "st' = st \<or> (\<exists>k. load_own_org_key env ctx kid st = Inr k
    \<and> touches kid (ks_keys st) (ks_keys st') \<and> same_audit_but (Option.bind ctx kc_org_id) st st'
    \<and> (keys_wf (ks_keys st) \<longrightarrow> keys_wf (ks_keys st')))"
proof (cases "load_own_org_key env ctx kid st")
  case (Inl resp)
  with assms show ?thesis
    by (auto simp: revoke_api_key_def patch_api_key_def rotate_api_key_def)
next
  case (Inr k)
  let ?fl = "ke_faults env" and ?keys = "ks_keys st" and ?kp = "ke_pair env"
  have "st' = st \<or> ks_keys st' \<in> {snd (revoke_row ?fl 2 kid ?keys), snd (update_row ?fl 2 kid r ?keys),
      snd (rotate_row ?fl 1 kid (kp_public_id ?kp) (kp_secret_hash ?kp) (kp_prefix ?kp) ?keys)}
      \<and> same_audit_but (Option.bind ctx kc_org_id) st st'"
    using assms Inr
    by (auto simp: revoke_api_key_def patch_api_key_def rotate_api_key_def Let_def same_audit_but_def
        split: option.splits sum.splits prod.splits if_splits)
  then show ?thesis
    using Inr statement_touches statement_wf rotate_wf by auto
qed

lemma create_cases:
  assumes "create_api_key env ctx r st = (resp, st')"
  shows "st' = st \<or> (\<exists>org app row. create_checks env ctx r = Inr (org, app)
    \<and> row = new_row (ke_id env) (ke_now env) org app (kp_public_id (ke_pair env)) (cr_name r)
        (kp_secret_hash (ke_pair env)) (kp_prefix (ke_pair env)) (cr_token_quota r) (cr_rpm_limit r)
        (cr_scopes r) (cr_webhook_url r) (cr_expires_at r)
    \<and> ke_id env \<notin> ky_id ` set (ks_keys st) \<and> kp_secret_hash (ke_pair env) \<notin> ky_key_hash ` set (ks_keys st)
    \<and> same_audit_but (Option.bind ctx kc_org_id) st st'
    \<and> (\<exists>owner. ks_keys st' = ks_keys st @ [row\<lparr>ky_owner_user_id := owner\<rparr>]
        \<and> (\<forall>v. resp = Created v \<longrightarrow> v = created_view (ke_pair env) row
             \<and> owner = (if ke_faults env 2 = None then map_option uc_user_id (Option.bind ctx kc_user) else None))))"
proof (cases "create_checks env ctx r")
  case (Inl x)
  with assms show ?thesis by (auto simp: create_api_key_def)
next
  case (Inr oa)
  obtain org app where oa: "oa = (org, app)" by (cases oa)
  define row where "row = new_row (ke_id env) (ke_now env) org app (kp_public_id (ke_pair env)) (cr_name r)
      (kp_secret_hash (ke_pair env)) (kp_prefix (ke_pair env)) (cr_token_quota r) (cr_rpm_limit r)
      (cr_scopes r) (cr_webhook_url r) (cr_expires_at r)"
  have row: "ky_id row = ke_id env" "ky_key_hash row = kp_secret_hash (ke_pair env)"
    "row\<lparr>ky_owner_user_id := None\<rparr> = row"
    by (simp_all add: row_def new_row_def)
  obtain res keys where ins: "insert_key (ke_faults env) 0 row (ks_keys st) = (res, keys)"
    by (cases "insert_key (ke_faults env) 0 row (ks_keys st)")
  have owner: "set_api_key_owner (ke_faults env) 2 (ky_id row) u (ks_keys st @ [row])
      = ks_keys st @ [row\<lparr>ky_owner_user_id := if ke_faults env 2 = None then Some u else None\<rparr>]"
    if "ky_id row \<notin> ky_id ` set (ks_keys st)" for u
    using update_key_absent [OF that] row(3) by (simp add: set_api_key_owner_def update_rows_def)
  from insert_key_cases [OF ins] show ?thesis
  proof (elim disjE conjE)
    assume "keys = ks_keys st" "\<exists>e. res = Inl e"
    with assms Inr oa ins show ?thesis by (auto simp: create_api_key_def Let_def row_def [symmetric])
  next
    assume k: "keys = ks_keys st @ [row]" "ky_id row \<notin> ky_id ` set (ks_keys st)"
      "ky_key_hash row \<notin> ky_key_hash ` set (ks_keys st)" "case res of Inl e \<Rightarrow> True | Inr k \<Rightarrow> k = row"
    have "\<exists>owner. ks_keys st' = ks_keys st @ [row\<lparr>ky_owner_user_id := owner\<rparr>]
        \<and> (\<forall>v. resp = Created v \<longrightarrow> v = created_view (ke_pair env) row
             \<and> owner = (if ke_faults env 2 = None then map_option uc_user_id (Option.bind ctx kc_user) else None))"
    proof (cases res)
      case (Inl e)
      with assms Inr oa ins k row(3) show ?thesis
        by (intro exI [of _ None]) (auto simp: create_api_key_def Let_def row_def [symmetric] error_response_def)
    next
      case (Inr k')
      with k have "k' = row" by simp
      with assms \<open>create_checks env ctx r = Inr oa\<close> oa ins k owner [OF k(2)] Inr row(3) show ?thesis
        by (auto simp: create_api_key_def Let_def row_def [symmetric] split: option.splits)
    qed
    moreover have "same_audit_but (Option.bind ctx kc_org_id) st st'"
      using assms Inr oa ins
      by (auto simp: create_api_key_def Let_def row_def [symmetric] same_audit_but_def split: sum.splits)
    ultimately show ?thesis
      using Inr oa k row by (intro disjI2 exI [of _ org] exI [of _ app] exI [of _ row]) (simp add: row_def)
  qed
qed

lemma create_checks_org: "create_checks env ctx r = Inr (org, app) \<Longrightarrow>
    Option.bind ctx kc_org_id = Some org \<and> Option.bind ctx kc_app_id = Some app
    \<and> Option.bind ctx (\<lambda>c. refused_scope (grantable_scopes c) (scope_tokens (cr_scopes r))) = None
    \<and> (\<forall>c. ctx = Some c \<and> kc_user c \<noteq> None \<longrightarrow> may_write c)"
  by (auto simp: create_checks_def split: option.splits if_splits)

lemma key_step_cases:
  assumes "keys_wf (ks_keys st)"
  shows "keys_wf (ks_keys (key_step q st))
    \<and> (acting_org q \<noteq> Some org \<longrightarrow> org_keys org (key_step q st) = org_keys org st)"
proof -
  obtain env ctx rq where q: "q = (env, ctx, rq)" by (cases q)
  let ?st = "key_step q st"
  have touched: ?thesis
    if "?st \<in> {snd (revoke_api_key env ctx kid st), snd (patch_api_key env ctx kid r st),
      snd (rotate_api_key env ctx kid st)}" for kid r
    using changes_touch [OF that] assms
  proof (elim disjE exE conjE)
    fix k
    assume l: "load_own_org_key env ctx kid st = Inr k"
      and t: "touches kid (ks_keys st) (ks_keys ?st)"
      and a: "same_audit_but (Option.bind ctx kc_org_id) st ?st"
      and w: "keys_wf (ks_keys st) \<longrightarrow> keys_wf (ks_keys ?st)"
    note k = load_own_org_key_Inr [OF l]
    show ?thesis
    proof (intro conjI impI)
      show "keys_wf (ks_keys ?st)" using w assms by simp
      assume o: "acting_org q \<noteq> Some org"
      then have "ky_org_id k \<noteq> Some org" using k by (simp add: acting_org_def q)
      then show "org_keys org ?st = org_keys org st"
        using touches_filter [OF t] assms k a o
        by (simp add: org_keys_def same_audit_but_def acting_org_def q keys_wf_def)
    qed
  qed simp
  show ?thesis
  proof (cases rq)
    case (CreateKey r)
    obtain resp where "create_api_key env ctx r st = (resp, ?st)"
      by (cases "create_api_key env ctx r st") (simp add: key_step_def q CreateKey)
    from create_cases [OF this] show ?thesis
    proof (elim disjE exE conjE)
      fix org' app row owner
      assume c: "create_checks env ctx r = Inr (org', app)"
        and row: "row = new_row (ke_id env) (ke_now env) org' app (kp_public_id (ke_pair env)) (cr_name r)
          (kp_secret_hash (ke_pair env)) (kp_prefix (ke_pair env)) (cr_token_quota r) (cr_rpm_limit r)
          (cr_scopes r) (cr_webhook_url r) (cr_expires_at r)"
        and new: "ke_id env \<notin> ky_id ` set (ks_keys st)"
          "kp_secret_hash (ke_pair env) \<notin> ky_key_hash ` set (ks_keys st)"
        and a: "same_audit_but (Option.bind ctx kc_org_id) st ?st"
        and k: "ks_keys ?st = ks_keys st @ [row\<lparr>ky_owner_user_id := owner\<rparr>]"
      have "keys_wf (ks_keys ?st)" using assms new by (simp add: keys_wf_def k row new_row_def)
      moreover have "org_keys org ?st = org_keys org st" if "acting_org q \<noteq> Some org"
      proof -
        have "org' \<noteq> org" using that create_checks_org [OF c] by (simp add: acting_org_def q)
        then show ?thesis
          using create_checks_org [OF c] a by (simp add: org_keys_def k row new_row_def same_audit_but_def)
      qed
      ultimately show ?thesis by simp
    qed (simp add: assms)
  next
    case (RevokeKey kid) show ?thesis by (rule touched [of kid]) (simp add: key_step_def q RevokeKey)
  next
    case (PatchKey kid r) show ?thesis by (rule touched [of kid r]) (simp add: key_step_def q PatchKey)
  next
    case (RotateKey kid) show ?thesis by (rule touched [of kid]) (simp add: key_step_def q RotateKey)
  qed (simp_all add: key_step_def q assms)
qed

interpretation keys: tenant_isolation key_step acting_org org_keys "\<lambda>st. keys_wf (ks_keys st)"
  by unfold_locales (use key_step_cases in blast)+

text \<open>C18:
  Tenants cannot touch each other's keys: whatever requests of other organizations are served,
  in any order and with any database failures, the rows of an organization's keys and its audit
  entries are what they were; and ids and secret hashes stay unique.
\<close>

theorem foreign_keys_untouched:
  assumes "keys_wf (ks_keys st)" and "\<And>q. q \<in> set qs \<Longrightarrow> acting_org q \<noteq> Some org"
  shows "org_keys org (fold key_step qs st) = org_keys org st \<and> keys_wf (ks_keys (fold key_step qs st))"
  using keys.owned_run [OF assms] keys.ok_run [OF assms(1)] by simp

section \<open>Secrecy\<close>

fun target :: "key_request \<Rightarrow> uuid option" where
  "target (GetKey kid) = Some kid"
| "target (RevokeKey kid) = Some kid"
| "target (PatchKey kid r) = Some kid"
| "target (RotateKey kid) = Some kid"
| "target _ = None"

lemma load_refused:
  assumes "\<forall>k. find_key kid (ks_keys st) = Some k \<longrightarrow> ky_org_id k \<noteq> Option.bind ctx kc_org_id"
  shows "load_own_org_key env ctx kid st = Inl (case Option.bind ctx kc_org_id of
      None \<Rightarrow> forbidden_no_org
    | Some _ \<Rightarrow> (case ke_faults env 0 of Some e \<Rightarrow> error_response e 500 | None \<Rightarrow> key_not_found))"
  using assms by (auto simp: load_own_org_key_def get_api_key_def db_try_def split: option.splits)

lemma get_refused:
  assumes "\<forall>k. find_key kid (ks_keys st) = Some k \<longrightarrow> ky_org_id k \<noteq> Option.bind ctx kc_org_id"
  shows "get_api_key_handler env ctx kid st = (case Option.bind ctx kc_org_id of
      None \<Rightarrow> forbidden_no_org
    | Some _ \<Rightarrow> (case ke_faults env 0 of Some e \<Rightarrow> error_response e 500 | None \<Rightarrow> key_not_found))"
  using assms by (auto simp: get_api_key_handler_def get_api_key_def db_try_def split: option.splits)

lemma refused_request:
  assumes "target rq = Some kid"
    and "\<forall>k. find_key kid (ks_keys st) = Some k \<longrightarrow> ky_org_id k \<noteq> Option.bind ctx kc_org_id"
  shows "handle_key env ctx rq st = (case Option.bind ctx kc_org_id of
      None \<Rightarrow> forbidden_no_org
    | Some _ \<Rightarrow> (case ke_faults env 0 of Some e \<Rightarrow> error_response e 500 | None \<Rightarrow> key_not_found), st)"
  using assms(1) load_refused [OF assms(2)] get_refused [OF assms(2)]
  by (cases rq) (auto simp: revoke_api_key_def patch_api_key_def rotate_api_key_def)

text \<open>
  Another organization's key is indistinguishable from one that does not exist: reading,
  revoking, changing or rotating it gives the answer that the same request would get if the
  table had no such row, and changes nothing.
\<close>

theorem foreign_key_like_absent:
  assumes "find_key kid (ks_keys st) = Some k" and "ky_org_id k \<noteq> Option.bind ctx kc_org_id"
    and "target rq = Some kid"
  shows "handle_key env ctx rq st = (fst (handle_key env ctx rq
      (st\<lparr>ks_keys := filter (\<lambda>k. ky_id k \<noteq> kid) (ks_keys st)\<rparr>)), st)"
proof -
  have "find_key kid (filter (\<lambda>k. ky_id k \<noteq> kid) (ks_keys st)) = None"
    by (auto simp: find_key_None)
  then show ?thesis
    using refused_request [OF assms(3), of st ctx env] assms(1,2)
      refused_request [OF assms(3), of "st\<lparr>ks_keys := filter (\<lambda>k. ky_id k \<noteq> kid) (ks_keys st)\<rparr>" ctx env]
    by simp
qed

section \<open>Authority\<close>

lemma trimmed_scope: "scope_parse t = Some s \<Longrightarrow> trim t \<noteq> [] \<and> scope_parse (trim t) = Some s"
proof -
  have "trim ''generate'' = ''generate''" "trim ''read'' = ''read''" "trim ''admin'' = ''admin''"
    by code_simp+
  moreover assume "scope_parse t = Some s"
  ultimately show ?thesis by (auto simp: scope_parse_def split: if_splits)
qed

lemma refused_scope_None:
  "refused_scope grantable ts = None \<Longrightarrow> t \<in> set ts \<Longrightarrow> scope_parse t = Some s \<Longrightarrow> s \<in> set grantable"
  by (induction ts) (auto split: option.splits if_splits)

lemma granted_scopes:
  assumes "refused_scope grantable (scope_tokens scopes) = None"
  shows "set (List.map_filter scope_parse (split_on CHR '','' scopes)) \<subseteq> set grantable"
proof
  fix s
  assume "s \<in> set (List.map_filter scope_parse (split_on CHR '','' scopes))"
  then obtain t where t: "t \<in> set (split_on CHR '','' scopes)" "scope_parse t = Some s"
    by (auto simp: List.map_filter_def)
  then have "trim t \<in> set (scope_tokens scopes)" using trimmed_scope [OF t(2)] by (simp add: scope_tokens_def)
  then show "s \<in> set grantable" using refused_scope_None [OF assms] trimmed_scope [OF t(2)] by blast
qed

lemma refused_scope_error: "refused_scope g ts = Some x \<Longrightarrow> x \<noteq> Created v"
  by (induction ts) (auto simp: error_response_def split: option.splits if_splits)

lemma create_checks_error: "create_checks env ctx r = Inl x \<Longrightarrow> x \<noteq> Created v"
  by (auto simp: create_checks_def validate_tenant_webhook_url_def error_response_def forbidden_no_org_def
      dest: refused_scope_error split: option.splits if_splits sum.splits)

lemma created_changes: "create_api_key env ctx r st = (Created v, st') \<Longrightarrow> st' \<noteq> st"
  using create_checks_error
  by (auto simp: create_api_key_def Let_def error_response_def log_audit_def
      split: sum.splits prod.splits dest: arg_cong [where f = ks_audit])

lemma lookup_new_row:
  assumes "ky_key_hash row \<notin> ky_key_hash ` set keys" and "ky_is_active row"
  shows "lookup_api_key_by_hash (\<lambda>_. None) 0 (ky_key_hash row) (keys @ [row]) = Inr (Some row)"
  using assms by (induction keys) (auto simp: lookup_api_key_by_hash_def db_try_def)

text \<open>C21:
  A key never has more authority than its creator: when an authenticated creation succeeds,
  exactly one row is added, in the creator's organization and application and owned by the
  session's user; the secret in the answer authenticates as that row; and the scopes it
  authenticates with are among those its creator may grant.
\<close>

theorem created_key_within_authority:
  assumes "create_api_key env (Some ctx) r st = (Created v, st')" and "ke_faults env 2 = None"
  shows "\<exists>row. ks_keys st' = ks_keys st @ [row]
    \<and> kc_org_id ctx \<noteq> None \<and> ky_org_id row = kc_org_id ctx
    \<and> kc_app_id ctx \<noteq> None \<and> ky_app_id row = kc_app_id ctx
    \<and> ky_owner_user_id row = map_option uc_user_id (kc_user ctx)
    \<and> kr_key v = kp_secret (ke_pair env)
    \<and> lookup_api_key_by_hash (\<lambda>_. None) 0 (kp_secret_hash (ke_pair env)) (ks_keys st') = Inr (Some row)
    \<and> set (kc_scopes (key_context_of row)) \<subseteq> set (grantable_scopes ctx)"
proof -
  from create_cases [OF assms(1)] created_changes [OF assms(1)] obtain org app owner where
    c: "create_checks env (Some ctx) r = Inr (org, app)"
    and new: "kp_secret_hash (ke_pair env) \<notin> ky_key_hash ` set (ks_keys st)"
    and k: "ks_keys st' = ks_keys st @ [new_row (ke_id env) (ke_now env) org app
        (kp_public_id (ke_pair env)) (cr_name r) (kp_secret_hash (ke_pair env)) (kp_prefix (ke_pair env))
        (cr_token_quota r) (cr_rpm_limit r) (cr_scopes r) (cr_webhook_url r) (cr_expires_at r)
        \<lparr>ky_owner_user_id := owner\<rparr>]" (is "_ = _ @ [?row]")
    and v: "kr_key v = kp_secret (ke_pair env)"
    and owner: "owner = map_option uc_user_id (kc_user ctx)"
    using assms(2) by (auto simp: created_view_def)
  have row: "ky_org_id ?row = Some org" "ky_app_id ?row = Some app" "ky_owner_user_id ?row = owner"
    "ky_key_hash ?row = kp_secret_hash (ke_pair env)" "ky_is_active ?row" "ky_scopes ?row = cr_scopes r"
    by (simp_all add: new_row_def)
  have "kc_scopes (key_context_of ?row) = List.map_filter scope_parse (split_on CHR '','' (cr_scopes r))"
    by (simp add: key_context_of_def row)
  then have "set (kc_scopes (key_context_of ?row)) \<subseteq> set (grantable_scopes ctx)"
    using granted_scopes create_checks_org [OF c] by simp
  moreover have "lookup_api_key_by_hash (\<lambda>_. None) 0 (kp_secret_hash (ke_pair env)) (ks_keys st') = Inr (Some ?row)"
    using lookup_new_row [of ?row "ks_keys st"] new k row by simp
  ultimately show ?thesis
    using create_checks_org [OF c] k row v owner by (intro exI [of _ ?row]) simp
qed

definition only_scopes :: "string \<Rightarrow> update_request" where
  "only_scopes s = \<lparr>up_name = None, up_token_quota = None, up_rpm_limit = None, up_scopes = Some s,
     up_webhook_url = None, up_expires_at = None, up_is_active = None\<rparr>"

lemma lookup_updated:
  assumes "distinct (map ky_key_hash keys)" and "k' \<in> set keys" and "ky_is_active k'"
  shows "lookup_api_key_by_hash (\<lambda>_. None) 0 (ky_key_hash k') keys = Inr (Some k')"
  using assms by (induction keys) (auto simp: lookup_api_key_by_hash_def db_try_def)

lemma set_update_key: "k \<in> set keys \<Longrightarrow> ky_id k = kid \<Longrightarrow> f k \<in> set (update_key kid f keys)"
  by (auto simp: update_rows_def image_iff intro!: bexI [of _ k])

text \<open>
  A changed scope list is not checked the way a new one is: a session user who may write only
  its own keys, and so cannot create a key with the scope \<open>admin\<close>, can give that scope to a key
  it already owns; from then on the key authenticates with it.
\<close>

theorem patch_grants_what_create_refuses:
  assumes "keys_wf (ks_keys st)" and "ke_faults env = (\<lambda>_. None)"
    and ctx: "kc_user ctx = Some u" "kc_org_id ctx = Some org" "kc_app_id ctx = Some app"
      "KeyWriteOwn \<in> set (kc_permissions ctx)" "KeyWriteAny \<notin> set (kc_permissions ctx)"
    and key: "find_key kid (ks_keys st) = Some k" "ky_org_id k = Some org"
      "ky_owner_user_id k = Some (uc_user_id u)" "ky_is_active k"
  shows "key_status (fst (create_api_key env (Some ctx) \<lparr>cr_name = n, cr_token_quota = None,
      cr_rpm_limit = None, cr_scopes = ''admin'', cr_webhook_url = None, cr_expires_at = None\<rparr> st)) = 403
    \<and> (\<exists>k'. fst (patch_api_key env (Some ctx) kid (only_scopes ''admin'') st) = Detail (detail_of k')
       \<and> lookup_api_key_by_hash (\<lambda>_. None) 0 (ky_key_hash k)
           (ks_keys (snd (patch_api_key env (Some ctx) kid (only_scopes ''admin'') st))) = Inr (Some k')
       \<and> SAdmin \<in> set (kc_scopes (key_context_of k')))"
proof (intro conjI)
  have g: "grantable_scopes ctx = [SGenerate, SRead]"
    using ctx by (simp add: grantable_scopes_def is_platform_admin_def)
  have "scope_tokens ''admin'' = [''admin'']" "scope_parse ''admin'' = Some SAdmin" by code_simp+
  then show "key_status (fst (create_api_key env (Some ctx) \<lparr>cr_name = n, cr_token_quota = None,
      cr_rpm_limit = None, cr_scopes = ''admin'', cr_webhook_url = None, cr_expires_at = None\<rparr> st)) = 403"
    using ctx by (simp add: create_api_key_def create_checks_def validate_tenant_webhook_url_def
        may_write_def g error_response_def)
  let ?k = "set_columns (only_scopes ''admin'') k" and ?keys = "ks_keys st"
  let ?keys' = "update_key kid (set_columns (only_scopes ''admin'')) ?keys"
  have k: "k \<in> set ?keys" "ky_id k = kid" using find_key_Some [OF key(1)] by simp_all
  have cols: "ky_id (set_columns r x) = ky_id x" "ky_key_hash (set_columns r x) = ky_key_hash x" for r x
    by (simp_all add: set_columns_def)
  have f: "find_key kid ?keys' = Some ?k" using find_update_key [of "set_columns _", OF cols(1)] key(1) by simp
  have "patch_api_key env (Some ctx) kid (only_scopes ''admin'') st
      = (Detail (detail_of ?k), log_audit (Some ctx) ''key.update'' kid (AfterUpdated (detail_of ?k))
          (st\<lparr>ks_keys := ?keys'\<rparr>))"
    using ctx key f assms(2)
    by (simp add: patch_api_key_def load_own_org_key_def own_key_gate_def get_api_key_def db_try_def
        validate_tenant_webhook_url_def update_row_def no_columns_def only_scopes_def Let_def)
  moreover have "lookup_api_key_by_hash (\<lambda>_. None) 0 (ky_key_hash k) ?keys' = Inr (Some ?k)"
  proof -
    have "distinct (map ky_key_hash ?keys')"
      using assms(1) hashes_kept [of "set_columns _", OF cols(2)] by (simp add: keys_wf_def)
    moreover have "ky_is_active ?k" using key(4) by (simp add: set_columns_def only_scopes_def)
    ultimately show ?thesis
      using lookup_updated [of ?keys' ?k] set_update_key [OF k] by (simp add: cols)
  qed
  moreover have "SAdmin \<in> set (kc_scopes (key_context_of ?k))"
  proof -
    have "kc_scopes (key_context_of ?k) = List.map_filter scope_parse (split_on CHR '','' ''admin'')"
      by (simp add: key_context_of_def set_columns_def only_scopes_def)
    also have "\<dots> = [SAdmin]" by code_simp
    finally show ?thesis by simp
  qed
  ultimately show "\<exists>k'. fst (patch_api_key env (Some ctx) kid (only_scopes ''admin'') st) = Detail (detail_of k')
       \<and> lookup_api_key_by_hash (\<lambda>_. None) 0 (ky_key_hash k)
           (ks_keys (snd (patch_api_key env (Some ctx) kid (only_scopes ''admin'') st))) = Inr (Some k')
       \<and> SAdmin \<in> set (kc_scopes (key_context_of k'))"
    by auto
qed

lemma load_own_org_key_error: "load_own_org_key env ctx kid st = Inl x \<Longrightarrow> x \<noteq> Rotated v"
  by (auto simp: load_own_org_key_def error_response_def forbidden_no_org_def
      split: option.splits sum.splits if_splits)

lemma authorize_error: "authorize_key_for_session ctx k p q l = Some x \<Longrightarrow> x \<noteq> Rotated v"
  by (auto simp: authorize_key_for_session_def forbidden_perm_resp_def error_response_def
      split: option.splits if_splits)

lemma rotated:
  assumes "rotate_api_key env ctx kid st = (Rotated v, st')"
  shows "\<exists>k. rotate_row (ke_faults env) 1 kid (kp_public_id (ke_pair env)) (kp_secret_hash (ke_pair env))
    (kp_prefix (ke_pair env)) (ks_keys st) = (Inr (Some k), ks_keys st')"
proof (cases "load_own_org_key env ctx kid st")
  case (Inl x)
  with assms load_own_org_key_error [OF Inl] show ?thesis by (simp add: rotate_api_key_def)
next
  case (Inr k)
  then have "authorize_key_for_session ctx k KeyWriteAny KeyWriteOwn ''key:write:own'' = None"
    using assms authorize_error by (cases "authorize_key_for_session ctx k KeyWriteAny KeyWriteOwn ''key:write:own''")
      (auto simp: rotate_api_key_def)
  with assms Inr show ?thesis
    by (auto simp: rotate_api_key_def Let_def error_response_def split: prod.splits sum.splits option.splits)
qed

lemma rotate_row_ok:
  assumes "rotate_row fl i kid p h x keys = (Inr (Some k'), keys')"
  shows "keys' = update_key kid (\<lambda>k. k\<lparr>ky_public_id := Some p, ky_key_hash := h, ky_key_prefix := x\<rparr>) keys
    \<and> (\<forall>k\<in>set keys. ky_id k \<noteq> kid \<longrightarrow> ky_key_hash k \<noteq> h)"
  using assms by (auto simp: rotate_row_def Let_def list_ex_iff split: option.splits if_splits)

text \<open>
  After a rotation the new secret authenticates as the key, with the scopes, limits, owner and
  tenant it had, and the old secret authenticates nobody; no other row changes.
\<close>

theorem rotated_secret_replaces_old:
  assumes "rotate_api_key env ctx kid st = (Rotated v, st')" and "keys_wf (ks_keys st)"
    and "find_key kid (ks_keys st) = Some k" and "ky_is_active k"
    and "kp_secret_hash (ke_pair env) \<noteq> ky_key_hash k"
  shows "\<exists>k'. lookup_api_key_by_hash (\<lambda>_. None) 0 (kp_secret_hash (ke_pair env)) (ks_keys st') = Inr (Some k')
    \<and> key_context_of k' = key_context_of k \<and> ky_owner_user_id k' = ky_owner_user_id k
    \<and> lookup_api_key_by_hash (\<lambda>_. None) 0 (ky_key_hash k) (ks_keys st') = Inr None
    \<and> filter (\<lambda>x. ky_id x \<noteq> kid) (ks_keys st') = filter (\<lambda>x. ky_id x \<noteq> kid) (ks_keys st)"
proof -
  let ?kp = "ke_pair env" and ?keys = "ks_keys st"
  let ?f = "\<lambda>k. k\<lparr>ky_public_id := Some (kp_public_id ?kp), ky_key_hash := kp_secret_hash ?kp,
    ky_key_prefix := kp_prefix ?kp\<rparr>"
  have free: "\<forall>x\<in>set ?keys. ky_id x \<noteq> kid \<longrightarrow> ky_key_hash x \<noteq> kp_secret_hash ?kp"
    and keys: "ks_keys st' = update_key kid ?f ?keys"
    using rotated [OF assms(1)] rotate_row_ok by blast+
  have k: "k \<in> set ?keys" "ky_id k = kid" using find_key_Some [OF assms(3)] by simp_all
  have wf: "distinct (map ky_key_hash (update_key kid ?f ?keys))"
    using assms(2) free by (intro distinct_hashes_update [where h = "kp_secret_hash ?kp"]) (auto simp: keys_wf_def)
  have new: "lookup_api_key_by_hash (\<lambda>_. None) 0 (kp_secret_hash ?kp) (update_key kid ?f ?keys) = Inr (Some (?f k))"
    using lookup_updated [OF wf set_update_key [OF k]] assms(4) by simp
  have "ky_key_hash x \<noteq> ky_key_hash k" if "x \<in> set (update_key kid ?f ?keys)" for x
  proof -
    from that obtain y where y: "y \<in> set ?keys" "x = (if ky_id y = kid then ?f y else y)"
      by (auto simp: update_rows_def)
    show ?thesis
    proof (cases "ky_id y = kid")
      case True with y assms(5) show ?thesis by auto
    next
      case False
      with y k have "y \<noteq> k" by auto
      with y k assms(2) have "ky_key_hash y \<noteq> ky_key_hash k"
        by (auto simp: keys_wf_def distinct_map dest: inj_onD)
      with y False show ?thesis by simp
    qed
  qed
  then have old: "lookup_api_key_by_hash (\<lambda>_. None) 0 (ky_key_hash k) (update_key kid ?f ?keys) = Inr None"
    by (auto simp: lookup_api_key_by_hash_def db_try_def find_None_iff)
  have "filter (\<lambda>x. ky_id x \<noteq> kid) (update_key kid ?f keys) = filter (\<lambda>x. ky_id x \<noteq> kid) keys" for keys
    by (induction keys) (auto simp: update_rows_def)
  with new old keys show ?thesis
    by (intro exI [of _ "?f k"]) (simp add: key_context_of_def)
qed

section \<open>Examples\<close>

definition example_key :: api_key where
  "example_key = (new_row 1 0 ''org'' ''app'' ''pk'' ''mine'' ''h1'' ''sk'' None None ''read'' None None)
     \<lparr>ky_owner_user_id := Some ''u1''\<rparr>"

definition example_keys :: key_state where
  "example_keys = \<lparr>ks_keys = [example_key], ks_audit = []\<rparr>"

definition example_key_env :: key_env where
  "example_key_env = \<lparr>ke_mode = SingleTenant, ke_faults = (\<lambda>_. None), ke_parse = (\<lambda>s. Inl s),
     ke_parse_ip = (\<lambda>_. None), ke_lookup = (\<lambda>h _. Inl h),
     ke_pair = \<lparr>kp_public_id = ''pk2'', kp_secret = ''s2'', kp_secret_hash = ''h2'', kp_prefix = ''s''\<rparr>,
     ke_id = 2, ke_now = 0\<rparr>"

text \<open>A session of another organization.\<close>

abbreviation other_context :: key_context where
  "other_context \<equiv> example_context\<lparr>kc_org_id := Some ''other''\<rparr>"

lemma example_keys_wf: "keys_wf (ks_keys example_keys)"
  by (simp add: keys_wf_def example_keys_def)

lemma example_context_simps [simp]:
  "kc_org_id example_context = Some ''org''" "kc_app_id example_context = Some ''app''"
  "kc_user example_context = Some \<lparr>uc_user_id = ''u1'', uc_email = ''a@b.c'', uc_role = Owner\<rparr>"
  "kc_permissions example_context = permissions_for Member"
  by (simp_all add: example_context_def session_context_def example_user_def)

lemma example_key_simps [simp]:
  "ky_id example_key = 1" "ky_org_id example_key = Some ''org''" "ky_key_hash example_key = ''h1''"
  "ky_owner_user_id example_key = Some ''u1''" "ky_is_active example_key"
  "ky_public_id example_key = Some ''pk''"
  by (simp_all add: example_key_def new_row_def)

lemma example_find: "find_key 1 (ks_keys example_keys) = Some example_key"
  by (simp add: find_key_def example_keys_def)

theorem foreign_keys_untouched_witness:
  "org_keys ''org'' (fold key_step [(example_key_env, Some other_context, RevokeKey 1),
     (example_key_env, Some other_context, RotateKey 1)] example_keys) = org_keys ''org'' example_keys"
  by (rule conjunct1 [OF foreign_keys_untouched [OF example_keys_wf]]) (auto simp: acting_org_def)

theorem foreign_key_like_absent_witness:
  "handle_key example_key_env (Some other_context) (RotateKey 1) example_keys = (key_not_found, example_keys)"
  using foreign_key_like_absent [OF example_find, of "Some other_context" "RotateKey 1" example_key_env]
  by (simp add: rotate_api_key_def load_own_org_key_def get_api_key_def db_try_def example_key_env_def
      find_key_def example_keys_def)

definition read_request :: create_request where
  "read_request = \<lparr>cr_name = ''r'', cr_token_quota = None, cr_rpm_limit = None, cr_scopes = ''read'',
     cr_webhook_url = None, cr_expires_at = None\<rparr>"

lemma example_create:
  "\<exists>v st'. create_api_key example_key_env (Some example_context) read_request example_keys = (Created v, st')"
proof -
  have "scope_tokens ''read'' = [''read'']" "scope_parse ''read'' = Some SRead" by code_simp+
  then show ?thesis
    by (simp add: create_api_key_def create_checks_def may_write_def read_request_def
        validate_tenant_webhook_url_def grantable_scopes_def is_platform_admin_def insert_key_def
        get_api_key_def db_try_def example_key_env_def example_keys_def new_row_def find_key_def Let_def)
qed

theorem created_key_within_authority_witness:
  "\<exists>v st' row. create_api_key example_key_env (Some example_context) read_request example_keys = (Created v, st')
    \<and> ks_keys st' = ks_keys example_keys @ [row]
    \<and> set (kc_scopes (key_context_of row)) \<subseteq> set (grantable_scopes example_context)"
proof -
  from example_create obtain v st' where
    c: "create_api_key example_key_env (Some example_context) read_request example_keys = (Created v, st')"
    by blast
  have "ke_faults example_key_env 2 = None" by (simp add: example_key_env_def)
  from created_key_within_authority [OF c this] c show ?thesis by blast
qed

theorem patch_grants_what_create_refuses_witness:
  "\<exists>k'. SAdmin \<in> set (kc_scopes (key_context_of k'))
    \<and> fst (patch_api_key example_key_env (Some example_context) 1 (only_scopes ''admin'') example_keys)
        = Detail (detail_of k')"
proof -
  have "ke_faults example_key_env = (\<lambda>_. None)" by (simp add: example_key_env_def)
  from patch_grants_what_create_refuses [OF example_keys_wf this _ _ _ _ _ example_find, of example_context
      "\<lparr>uc_user_id = ''u1'', uc_email = ''a@b.c'', uc_role = Owner\<rparr>" "''org''" "''app''"]
  show ?thesis by auto
qed

theorem rotated_secret_replaces_old_witness:
  "\<exists>v st'. rotate_api_key example_key_env (Some example_context) 1 example_keys = (Rotated v, st')
    \<and> lookup_api_key_by_hash (\<lambda>_. None) 0 ''h1'' (ks_keys st') = Inr None"
proof -
  obtain v st' where r: "rotate_api_key example_key_env (Some example_context) 1 example_keys = (Rotated v, st')"
    using example_find
    by (simp add: rotate_api_key_def load_own_org_key_def get_api_key_def db_try_def rotate_row_def
        authorize_key_for_session_def example_key_env_def Let_def find_update_key example_keys_def)
  have "kp_secret_hash (ke_pair example_key_env) \<noteq> ky_key_hash example_key" by (simp add: example_key_env_def)
  from rotated_secret_replaces_old [OF r example_keys_wf example_find _ this] r show ?thesis by auto
qed

end
