(* ===== verification/Generations.thy ===== *)
theory Generations
  imports Gateway Keys
begin

text \<open>
  Stored generations: the statements of \<open>db/sqlite.rs\<close> on the table \<open>generations\<close>, and the
  handlers that read and cancel them (\<open>api/handlers/mod.rs\<close>): \<open>get_generation\<close>,
  \<open>list_generations\<close>, \<open>cancel_generation\<close> and \<open>get_video_status\<close>.

  The table is the list of its rows in the order of insertion; a row keeps the text of its status,
  and reading it parses the text. Rows that were created at the same time come in the order of
  insertion, an order the database leaves open. The \<open>i\<close>-th statement of a request fails, and
  changes nothing, when \<open>fl i\<close> is an error text.
\<close>

section \<open>The table\<close>

record generation =
  gn_id :: string
  gn_key_id :: "uuid option"
  gn_model :: string
  gn_provider :: string
  gn_media_type :: string
  gn_status :: generation_status
  gn_progress :: int
  gn_provider_job_id :: "string option"
  gn_result_url :: "string option"
  gn_error_message :: "string option"
  gn_cost_usd :: f64
  gn_created_at :: datetime
  gn_completed_at :: "datetime option"
  gn_metadata :: "json option"
  gn_org_id :: "string option"
  gn_app_id :: "string option"

text \<open>A row: the generation without its status, and the text of the status.\<close>

record gen_row =
  gr_generation :: generation
  gr_status :: string

definition parse_status :: "string \<Rightarrow> generation_status" where
  "parse_status s =
     (if s = ''completed'' then Completed
      else if s = ''failed'' then Failed
      else if s = ''processing'' then Processing
      else if s = ''cancelled'' then Cancelled
      else Pending)"

definition generation_from_row :: "gen_row \<Rightarrow> generation" where
  "generation_from_row r = (gr_generation r)\<lparr>gn_status := parse_status (gr_status r)\<rparr>"

abbreviation row_id :: "gen_row \<Rightarrow> string" where
  "row_id r \<equiv> gn_id (gr_generation r)"

abbreviation row_org :: "gen_row \<Rightarrow> string option" where
  "row_org r \<equiv> gn_org_id (gr_generation r)"

definition active_status :: "string \<Rightarrow> bool" where
  "active_status s = (s = ''pending'' \<or> s = ''processing'')"

definition find_row :: "string \<Rightarrow> gen_row list \<Rightarrow> gen_row option" where
  "find_row i rows = find (\<lambda>r. row_id r = i) rows"

definition update_gens :: "(gen_row \<Rightarrow> bool) \<Rightarrow> (gen_row \<Rightarrow> gen_row) \<Rightarrow> gen_row list \<Rightarrow> gen_row list" where
  "update_gens p f rows = map (\<lambda>r. if p r then f r else r) rows"

section \<open>Statements\<close>

text \<open>A generation without an organization or application gets the default ones.\<close>

definition new_generation :: "datetime \<Rightarrow> started_generation \<Rightarrow> gen_row" where
  "new_generation now g =
     \<lparr>gr_generation =
        \<lparr>gn_id = sg_id g, gn_key_id = sg_key_id g, gn_model = sg_model g, gn_provider = sg_provider g,
         gn_media_type = ''video'', gn_status = Pending, gn_progress = 0,
         gn_provider_job_id = sg_provider_job_id g, gn_result_url = None, gn_error_message = None,
         gn_cost_usd = sg_cost_usd g, gn_created_at = now, gn_completed_at = None, gn_metadata = None,
         gn_org_id = Some (unwrap_or DEFAULT_ORG_ID (sg_org_id g)),
         gn_app_id = Some (unwrap_or DEFAULT_APP_ID (sg_app_id g))\<rparr>,
      gr_status = ''pending''\<rparr>"

definition insert_generation ::
  "faults \<Rightarrow> nat \<Rightarrow> datetime \<Rightarrow> started_generation \<Rightarrow> gen_row list \<Rightarrow> (string + unit) \<times> gen_row list" where
  "insert_generation fl i now g rows =
     (case fl i of
        Some e \<Rightarrow> (Inl e, rows)
      | None \<Rightarrow>
          if find_row (sg_id g) rows \<noteq> None then (Inl unique_error, rows)
          else (Inr (), rows @ [new_generation now g]))"

definition set_status ::
  "string \<Rightarrow> int \<Rightarrow> string option \<Rightarrow> string option \<Rightarrow> datetime option \<Rightarrow> gen_row \<Rightarrow> gen_row" where
  "set_status status progress url err completed r =
     r\<lparr>gr_generation := (gr_generation r)\<lparr>gn_progress := progress, gn_result_url := url,
         gn_error_message := err, gn_completed_at := completed\<rparr>,
       gr_status := status\<rparr>"

definition update_generation_status ::
  "string \<Rightarrow> string \<Rightarrow> int \<Rightarrow> string option \<Rightarrow> string option \<Rightarrow> datetime option \<Rightarrow> gen_row list \<Rightarrow> gen_row list" where
  "update_generation_status i status progress url err completed =
     update_gens (\<lambda>r. row_id r = i) (set_status status progress url err completed)"

definition get_generation_row ::
  "faults \<Rightarrow> nat \<Rightarrow> string \<Rightarrow> gen_row list \<Rightarrow> string + generation option" where
  "get_generation_row fl i gid rows = db_try fl i (map_option generation_from_row (find_row gid rows))"

definition cancel_row :: "datetime \<Rightarrow> gen_row \<Rightarrow> gen_row" where
  "cancel_row now r =
     r\<lparr>gr_generation := (gr_generation r)\<lparr>gn_completed_at := Some now\<rparr>, gr_status := ''cancelled''\<rparr>"

definition cancel_generation_row ::
  "faults \<Rightarrow> nat \<Rightarrow> datetime \<Rightarrow> string \<Rightarrow> gen_row list \<Rightarrow> (string + generation option) \<times> gen_row list" where
  "cancel_generation_row fl i now gid rows =
     (case fl i of
        Some e \<Rightarrow> (Inl e, rows)
      | None \<Rightarrow>
          (let p = (\<lambda>r. row_id r = gid \<and> active_status (gr_status r));
               rows' = update_gens p (cancel_row now) rows
           in (Inr (if list_ex p rows then map_option generation_from_row (find_row gid rows') else None), rows')))"

definition oldest_first :: "gen_row list \<Rightarrow> gen_row list" where
  "oldest_first = sort_key (\<lambda>r. gn_created_at (gr_generation r))"

definition latest_first :: "gen_row list \<Rightarrow> gen_row list" where
  "latest_first = sort_key (\<lambda>r. - gn_created_at (gr_generation r))"

definition list_active_generations :: "nat \<Rightarrow> gen_row list \<Rightarrow> generation list" where
  "list_active_generations n rows =
     map generation_from_row (take n (oldest_first (filter (\<lambda>r. active_status (gr_status r)) rows)))"

text \<open>\<open>LIMIT per_page OFFSET offset(page, per_page) as i64\<close>; a negative offset is none.\<close>

definition page_of :: "u32 \<Rightarrow> u32 \<Rightarrow> 'a list \<Rightarrow> 'a list" where
  "page_of page per_page xs =
     (let off = sint (offset page per_page) in take (unat per_page) (drop (nat off) xs))"

definition of_tenant :: "string \<Rightarrow> string option \<Rightarrow> gen_row \<Rightarrow> bool" where
  "of_tenant org app r =
     (row_org r = Some org \<and> (case app of Some a \<Rightarrow> gn_app_id (gr_generation r) = Some a | None \<Rightarrow> True))"

definition list_generations_for_tenant ::
  "faults \<Rightarrow> nat \<Rightarrow> string \<Rightarrow> string option \<Rightarrow> u32 \<Rightarrow> u32 \<Rightarrow> gen_row list \<Rightarrow> string + generation list" where
  "list_generations_for_tenant fl i org app page per_page rows =
     db_try fl i (map generation_from_row (page_of page per_page (latest_first (filter (of_tenant org app) rows))))"

definition count_generations_for_tenant ::
  "faults \<Rightarrow> nat \<Rightarrow> string \<Rightarrow> string option \<Rightarrow> gen_row list \<Rightarrow> string + i64" where
  "count_generations_for_tenant fl i org app rows = db_try fl i (int (length (filter (of_tenant org app) rows)))"

definition list_generations_for_owner ::
  "faults \<Rightarrow> nat \<Rightarrow> string \<Rightarrow> string option \<Rightarrow> uuid list \<Rightarrow> u32 \<Rightarrow> u32 \<Rightarrow> gen_row list
   \<Rightarrow> string + generation list \<times> u64" where
  "list_generations_for_owner fl i org app keys page per_page rows =
     (if keys = [] then Inr ([], 0)
      else let p = (\<lambda>r. of_tenant org app r \<and> (\<exists>k\<in>set keys. gn_key_id (gr_generation r) = Some k)) in
        and_then (db_try fl i (of_nat (length (filter p rows)))) (\<lambda>n_total.
        and_then (db_try fl (i + 1) (map generation_from_row (page_of page per_page (latest_first (filter p rows)))))
          (\<lambda>gens. Inr (gens, n_total))))"

section \<open>Handlers\<close>

record gen_page =
  pg_data :: "generation list"
  pg_total :: u64
  pg_page :: u32
  pg_per_page :: u32
  pg_total_pages :: u32

datatype gen_response =
  GenError nat string string | GenDetail generation | GenPage gen_page | VideoStatus video_response
| VideoFailed nat proxy_error

definition gen_error :: "string \<Rightarrow> nat \<Rightarrow> gen_response" where
  "gen_error message code = GenError code (error_kind code) message"

definition no_active_org :: gen_response where
  "no_active_org = gen_error ''no active organization'' 403"

record cancel_entry =
  ce_actor_key_id :: "uuid option"
  ce_target_id :: string
  ce_after :: generation
  ce_org_id :: "string option"

record gen_state =
  gs_rows :: "gen_row list"
  gs_keys :: "api_key list"
  gs_audit :: "cancel_entry list"

record gen_env =
  ne_faults :: faults
  ne_now :: datetime

text \<open>
  Sessions need the permission for any generation, or the one for their own on a generation that
  no key submitted or that a key of theirs did. The statement has number 1.
\<close>

definition authorize_generation_for_session ::
  "gen_env \<Rightarrow> key_context option \<Rightarrow> generation \<Rightarrow> permission \<Rightarrow> permission \<Rightarrow> string \<Rightarrow> gen_state
   \<Rightarrow> gen_response option" where
  "authorize_generation_for_session env ctx g any own label s =
     (case Option.bind ctx (\<lambda>c. map_option (Pair c) (kc_user c)) of
        None \<Rightarrow> None
      | Some (c, u) \<Rightarrow>
          if any \<in> set (kc_permissions c) then None
          else if own \<in> set (kc_permissions c)
          then (case gn_key_id g of
                  None \<Rightarrow> None
                | Some kid \<Rightarrow>
                    (case list_api_keys_for_owner (ne_faults env) 1 (uc_user_id u) (gs_keys s) of
                       Inl e \<Rightarrow> Some (gen_error e 500)
                     | Inr owned \<Rightarrow>
                         if list_ex (\<lambda>k. ky_id k = kid) owned then None
                         else Some (gen_error (''Permission '' @ quoted label @ '' required'') 403)))
          else Some (gen_error (''Permission '' @ quoted label @ '' required'') 403))"

definition get_generation :: "gen_env \<Rightarrow> key_context option \<Rightarrow> string \<Rightarrow> gen_state \<Rightarrow> gen_response" where
  "get_generation env ctx gid s =
     (case Option.bind ctx kc_org_id of
        None \<Rightarrow> no_active_org
      | Some org \<Rightarrow>
          (case get_generation_row (ne_faults env) 0 gid (gs_rows s) of
             Inl e \<Rightarrow> gen_error e 500
           | Inr None \<Rightarrow> gen_error ''Generation not found'' 404
           | Inr (Some g) \<Rightarrow>
               if gn_org_id g \<noteq> Some org then gen_error ''Generation not found'' 404
               else case authorize_generation_for_session env ctx g GenerationReadAny GenerationReadOwn
                           ''generation:read:own'' s of
                 Some resp \<Rightarrow> resp
               | None \<Rightarrow> GenDetail g))"

definition paged :: "u32 \<Rightarrow> u32 \<Rightarrow> generation list \<times> u64 \<Rightarrow> gen_response" where
  "paged page per_page p = (case p of (gens, n_total) \<Rightarrow>
     GenPage \<lparr>pg_data = gens, pg_total = n_total, pg_page = page, pg_per_page = per_page,
       pg_total_pages = total_pages n_total per_page\<rparr>)"

text \<open>The two queries of a page run concurrently; they have the numbers 1 and 2.\<close>

definition list_generations :: "gen_env \<Rightarrow> key_context \<Rightarrow> u32 \<Rightarrow> u32 \<Rightarrow> gen_state \<Rightarrow> gen_response" where
  "list_generations env ctx page0 per_page0 s =
     (let page = clamp_page page0; per_page = clamp_per_page per_page0; fl = ne_faults env in
      case kc_org_id ctx of
        None \<Rightarrow> no_active_org
      | Some org \<Rightarrow>
          (let everything =
             (case (count_generations_for_tenant fl 1 org (kc_app_id ctx) (gs_rows s),
                    list_generations_for_tenant fl 2 org (kc_app_id ctx) page per_page (gs_rows s)) of
                (Inr n_total, Inr gens) \<Rightarrow> paged page per_page (gens, word_of_int n_total)
              | (Inl e, _) \<Rightarrow> gen_error e 500
              | (_, Inl e) \<Rightarrow> gen_error e 500)
           in case kc_user ctx of
                None \<Rightarrow> everything
              | Some u \<Rightarrow>
                  if GenerationReadAny \<in> set (kc_permissions ctx) then everything
                  else if GenerationReadOwn \<in> set (kc_permissions ctx)
                  then (let owned = (case list_api_keys_for_owner fl 0 (uc_user_id u) (gs_keys s) of
                              Inl _ \<Rightarrow> [] | Inr ks \<Rightarrow> map ky_id ks)
                        in case list_generations_for_owner fl 1 org (kc_app_id ctx) owned page per_page (gs_rows s) of
                             Inl e \<Rightarrow> gen_error e 500
                           | Inr p \<Rightarrow> paged page per_page p)
                  else gen_error ''generation:read:own permission required'' 403))"

definition cancel_generation :: "gen_env \<Rightarrow> key_context \<Rightarrow> string \<Rightarrow> gen_state \<Rightarrow> gen_response \<times> gen_state" where
  "cancel_generation env ctx gid s =
     (case kc_org_id ctx of
        None \<Rightarrow> (no_active_org, s)
      | Some org \<Rightarrow>
          (case get_generation_row (ne_faults env) 0 gid (gs_rows s) of
             Inl e \<Rightarrow> (gen_error e 500, s)
           | Inr None \<Rightarrow> (gen_error ''Generation not found'' 404, s)
           | Inr (Some g) \<Rightarrow>
               if gn_org_id g \<noteq> Some org then (gen_error ''Generation not found'' 404, s)
               else case authorize_generation_for_session env (Some ctx) g GenerationCancelAny
                           GenerationCancelOwn ''generation:cancel:own'' s of
                 Some resp \<Rightarrow> (resp, s)
               | None \<Rightarrow>
                   (case cancel_generation_row (ne_faults env) 2 (ne_now env) gid (gs_rows s) of
                      (Inl e, rows) \<Rightarrow> (gen_error e 500, s\<lparr>gs_rows := rows\<rparr>)
                    | (Inr None, rows) \<Rightarrow>
                        (gen_error ''Generation cannot be cancelled: not in pending or processing state'' 409,
                         s\<lparr>gs_rows := rows\<rparr>)
                    | (Inr (Some g'), rows) \<Rightarrow>
                        (GenDetail g',
                         s\<lparr>gs_rows := rows,
                           gs_audit := gs_audit s @ [\<lparr>ce_actor_key_id = kc_key_id ctx, ce_target_id = gid,
                             ce_after = g', ce_org_id = kc_org_id ctx\<rparr>]\<rparr>))))"

text \<open>
  The status of a video job, asked of its provider. A stored generation must be the caller's; a
  job that is not stored, and one whose row cannot be read, passes.
\<close>

definition video_status ::
  "gen_env \<Rightarrow> 'w gateway \<Rightarrow> key_context option \<Rightarrow> string \<Rightarrow> gen_state \<Rightarrow> 'w router \<Rightarrow> gen_response \<times> 'w router" where
  "video_status env gw ctx gid s rt =
     (case Option.bind ctx kc_org_id of
        None \<Rightarrow> (no_active_org, rt)
      | Some org \<Rightarrow>
          (let poll = (case get_video_status gw gid rt of
                 (Inr resp, rt') \<Rightarrow> (VideoStatus resp, rt')
               | (Inl e, rt') \<Rightarrow> (VideoFailed (valid_status (proxy_status_code e)) e, rt'))
           in case get_generation_row (ne_faults env) 0 gid (gs_rows s) of
                Inr (Some g) \<Rightarrow>
                  if gn_org_id g \<noteq> Some org then (gen_error ''Not found'' 404, rt)
                  else (case authorize_generation_for_session env ctx g GenerationReadAny GenerationReadOwn
                               ''generation:read:own'' s of
                          Some resp \<Rightarrow> (resp, rt) | None \<Rightarrow> poll)
              | _ \<Rightarrow> poll))"

end
