(* ===== verification/Webhook.thy ===== *)
theory Webhook
  imports Generations Ids
begin

text \<open>
  Webhooks: their delivery (\<open>proxy/webhook.rs\<close>), the table of deliveries (\<open>db/sqlite.rs\<close>) and
  the handlers that fire a test and list the deliveries of a key (\<open>api/handlers/mod.rs\<close>).

  Sending a request is a parameter: it changes the world and answers with an error or a reply.
  The requests sent and the pauses between them are recorded in the state in their order. HMAC,
  the JSON text of a generation and the text of a status line are parameters.
\<close>

section \<open>Deliveries\<close>

record delivery =
  dl_id :: string
  dl_key_id :: string
  dl_generation_id :: string
  dl_url :: string
  dl_attempt_number :: int
  dl_status_code :: "int option"
  dl_success :: bool
  dl_response_body :: "string option"
  dl_error_message :: "string option"
  dl_payload_json :: string
  dl_created_at :: datetime

record reply =
  rp_status :: nat
  rp_text :: "string + string"

record post =
  po_url :: string
  po_signature :: string
  po_body :: string

record 'w web_env =
  we_serialize :: "generation \<Rightarrow> string + string"
  we_hmac :: "string \<Rightarrow> string \<Rightarrow> u8 list"
  we_status_line :: "nat \<Rightarrow> string"
  we_send :: "post \<Rightarrow> 'w \<Rightarrow> (string + reply) \<times> 'w"
  we_uuid :: "nat \<Rightarrow> uuid"
  we_now :: "'w \<Rightarrow> datetime"
  we_faults :: faults

record 'w web =
  wb_world :: 'w
  wb_posts :: "post list"
  wb_pauses :: "u64 list"
  wb_deliveries :: "delivery list"

definition is_success :: "nat \<Rightarrow> bool" where
  "is_success status = (200 \<le> status \<and> status < 300)"

definition compute_signature :: "'w web_env \<Rightarrow> string \<Rightarrow> string \<Rightarrow> string" where
  "compute_signature env secret body = hex_encode (we_hmac env secret body)"

text \<open>The request of a delivery; a missing secret is replaced by the id of the generation.\<close>

definition signed_post :: "'w web_env \<Rightarrow> string \<Rightarrow> string option \<Rightarrow> generation \<Rightarrow> string \<Rightarrow> post" where
  "signed_post env url secret payload body =
     \<lparr>po_url = url, po_signature = ''sha256='' @ compute_signature env (unwrap_or (gn_id payload) secret) body,
      po_body = body\<rparr>"

definition send_post :: "'w web_env \<Rightarrow> post \<Rightarrow> 'w web \<Rightarrow> (string + reply) \<times> 'w web" where
  "send_post env p s =
     (case we_send env p (wb_world s) of
        (r, w) \<Rightarrow> (r, s\<lparr>wb_world := w, wb_posts := wb_posts s @ [p]\<rparr>))"

definition MAX_ATTEMPTS :: nat where "MAX_ATTEMPTS = 3"

text \<open>Before every attempt but the first: \<open>1 << (attempt - 1)\<close> seconds.\<close>

definition back_off :: "nat \<Rightarrow> 'w web \<Rightarrow> 'w web" where
  "back_off attempt s =
     (if 0 < attempt then s\<lparr>wb_pauses := wb_pauses s @ [push_bit (attempt - 1) 1]\<rparr> else s)"

definition exhausted :: "string \<Rightarrow> string" where
  "exhausted last_err = ''webhook failed after '' @ nat_to_string MAX_ATTEMPTS @ '' attempts: '' @ last_err"

section \<open>Delivery\<close>

fun attempt_all :: "'w web_env \<Rightarrow> post \<Rightarrow> nat list \<Rightarrow> string \<Rightarrow> 'w web \<Rightarrow> (string + unit) \<times> 'w web" where
  "attempt_all env p [] last_err s = (Inl (exhausted last_err), s)"
| "attempt_all env p (n # ns) last_err s =
     (case send_post env p (back_off n s) of
        (Inr resp, s') \<Rightarrow>
          if is_success (rp_status resp) then (Inr (), s')
          else attempt_all env p ns (''HTTP '' @ we_status_line env (rp_status resp)) s'
      | (Inl e, s') \<Rightarrow> attempt_all env p ns e s')"

definition dispatch_webhook ::
  "'w web_env \<Rightarrow> string \<Rightarrow> string option \<Rightarrow> generation \<Rightarrow> 'w web \<Rightarrow> (string + unit) \<times> 'w web" where
  "dispatch_webhook env url secret payload s =
     (case we_serialize env payload of
        Inl e \<Rightarrow> (Inl (''serialise payload: '' @ e), s)
      | Inr body \<Rightarrow> attempt_all env (signed_post env url secret payload body) [0..<MAX_ATTEMPTS] [] s)"

definition dispatch_webhook_once ::
  "'w web_env \<Rightarrow> string \<Rightarrow> string option \<Rightarrow> generation \<Rightarrow> 'w web \<Rightarrow> (string + reply) \<times> 'w web" where
  "dispatch_webhook_once env url secret payload s =
     (let body = (case we_serialize env payload of Inr b \<Rightarrow> b | Inl _ \<Rightarrow> [])
      in send_post env (signed_post env url secret payload body) s)"

definition insert_webhook_delivery ::
  "faults \<Rightarrow> nat \<Rightarrow> datetime \<Rightarrow> delivery \<Rightarrow> delivery list \<Rightarrow> (string + unit) \<times> delivery list" where
  "insert_webhook_delivery fl i now d rows =
     (case fl i of
        Some e \<Rightarrow> (Inl e, rows)
      | None \<Rightarrow>
          if list_ex (\<lambda>r. dl_id r = dl_id d) rows then (Inl unique_error, rows)
          else (Inr (), rows @ [d\<lparr>dl_created_at := now\<rparr>]))"

definition delivery_of :: "'w web_env \<Rightarrow> string \<Rightarrow> generation \<Rightarrow> post \<Rightarrow> nat \<Rightarrow> string + reply \<Rightarrow> datetime \<Rightarrow> delivery" where
  "delivery_of env key_id payload p n r now =
     \<lparr>dl_id = ''wh-'' @ uuid_text (we_uuid env n), dl_key_id = key_id, dl_generation_id = gn_id payload,
      dl_url = po_url p, dl_attempt_number = int (n + 1),
      dl_status_code = (case r of Inr resp \<Rightarrow> Some (int (rp_status resp)) | Inl _ \<Rightarrow> None),
      dl_success = (case r of Inr resp \<Rightarrow> is_success (rp_status resp) | Inl _ \<Rightarrow> False),
      dl_response_body = (case r of Inr resp \<Rightarrow> (case rp_text resp of Inr t \<Rightarrow> Some t | Inl _ \<Rightarrow> None) | Inl _ \<Rightarrow> None),
      dl_error_message = (case r of Inr _ \<Rightarrow> None | Inl e \<Rightarrow> Some e),
      dl_payload_json = po_body p, dl_created_at = now\<rparr>"

text \<open>The insertion of attempt \<open>n\<close> is statement \<open>n\<close>; its failure is logged only.\<close>

definition record_attempt ::
  "'w web_env \<Rightarrow> string \<Rightarrow> generation \<Rightarrow> post \<Rightarrow> nat \<Rightarrow> string + reply \<Rightarrow> 'w web \<Rightarrow> 'w web" where
  "record_attempt env key_id payload p n r s =
     (let now = we_now env (wb_world s)
      in s\<lparr>wb_deliveries := snd (insert_webhook_delivery (we_faults env) n now
             (delivery_of env key_id payload p n r now) (wb_deliveries s))\<rparr>)"

fun attempt_all_logged ::
  "'w web_env \<Rightarrow> string \<Rightarrow> generation \<Rightarrow> post \<Rightarrow> nat list \<Rightarrow> string \<Rightarrow> 'w web \<Rightarrow> (string + unit) \<times> 'w web" where
  "attempt_all_logged env key_id payload p [] last_err s = (Inl (exhausted last_err), s)"
| "attempt_all_logged env key_id payload p (n # ns) last_err s =
     (case send_post env p (back_off n s) of
        (Inr resp, s') \<Rightarrow>
          (let s'' = record_attempt env key_id payload p n (Inr resp) s'
           in if is_success (rp_status resp) then (Inr (), s'')
              else attempt_all_logged env key_id payload p ns (''HTTP '' @ nat_to_string (rp_status resp)) s'')
      | (Inl e, s') \<Rightarrow>
          attempt_all_logged env key_id payload p ns e (record_attempt env key_id payload p n (Inl e) s'))"

definition dispatch_webhook_logged ::
  "'w web_env \<Rightarrow> string \<Rightarrow> string option \<Rightarrow> generation \<Rightarrow> string \<Rightarrow> 'w web \<Rightarrow> (string + unit) \<times> 'w web" where
  "dispatch_webhook_logged env url secret payload key_id s =
     (case we_serialize env payload of
        Inl e \<Rightarrow> (Inl (''serialise payload: '' @ e), s)
      | Inr body \<Rightarrow>
          attempt_all_logged env key_id payload (signed_post env url secret payload body) [0..<MAX_ATTEMPTS] [] s)"

section \<open>Handlers\<close>

definition list_deliveries ::
  "faults \<Rightarrow> nat \<Rightarrow> string \<Rightarrow> u32 \<Rightarrow> u32 \<Rightarrow> delivery list \<Rightarrow> string + delivery list \<times> i64" where
  "list_deliveries fl i key_id page per_page rows =
     (let mine = filter (\<lambda>d. dl_key_id d = key_id) rows in
      and_then (db_try fl i (int (length mine))) (\<lambda>n_total.
      and_then (db_try fl (i + 1) (page_of page per_page (sort_key (\<lambda>d. - dl_created_at d) mine))) (\<lambda>ds.
      Inr (ds, n_total))))"

record webhook_test_result =
  wt_delivered :: bool
  wt_status_code :: "nat option"
  wt_error :: "string option"

record delivery_page =
  dp_data :: "delivery list"
  dp_total :: u64
  dp_page :: u32
  dp_per_page :: u32
  dp_total_pages :: u32

datatype hook_response =
  HookError key_response | NoWebhook | Tested webhook_test_result | Deliveries delivery_page

definition synthetic_generation :: "datetime \<Rightarrow> uuid \<Rightarrow> api_key \<Rightarrow> generation" where
  "synthetic_generation now u k =
     \<lparr>gn_id = ''webhook-test-'' @ uuid_text u, gn_key_id = Some (ky_id k), gn_model = ''test/webhook'',
      gn_provider = ''test'', gn_media_type = ''video'', gn_status = Completed, gn_progress = 100,
      gn_provider_job_id = None, gn_result_url = Some ''https://example.com/test.mp4'',
      gn_error_message = None, gn_cost_usd = 0, gn_created_at = now, gn_completed_at = Some now,
      gn_metadata = None, gn_org_id = ky_org_id k, gn_app_id = ky_app_id k\<rparr>"

definition test_webhook ::
  "key_env \<Rightarrow> 'w web_env \<Rightarrow> key_context option \<Rightarrow> uuid \<Rightarrow> key_state \<Rightarrow> 'w web
   \<Rightarrow> hook_response \<times> key_state \<times> 'w web" where
  "test_webhook env wenv ctx kid st s =
     (case load_own_org_key env ctx kid st of
        Inl resp \<Rightarrow> (HookError resp, st, s)
      | Inr k \<Rightarrow>
          (case authorize_key_for_session ctx k KeyTestWebhookAny KeyTestWebhookOwn ''key:test_webhook:own'' of
             Some resp \<Rightarrow> (HookError resp, st, s)
           | None \<Rightarrow>
               (case opt_filter (\<lambda>u. u \<noteq> []) (ky_webhook_url k) of
                  None \<Rightarrow> (NoWebhook, st, s)
                | Some url \<Rightarrow>
                    (case validate_tenant_webhook_url env (Some url) of
                       Some resp \<Rightarrow> (HookError resp, st, s)
                     | None \<Rightarrow>
                         (let synthetic = synthetic_generation (ke_now env) (ke_id env) k;
                              (r, s') = dispatch_webhook_once wenv url None synthetic s;
                              st' = log_audit ctx ''key.test_webhook'' kid NoAfter st
                          in (Tested (case r of
                                Inr resp \<Rightarrow> \<lparr>wt_delivered = is_success (rp_status resp),
                                  wt_status_code = Some (rp_status resp), wt_error = None\<rparr>
                              | Inl e \<Rightarrow> \<lparr>wt_delivered = False, wt_status_code = None, wt_error = Some e\<rparr>),
                              st', s'))))))"

definition list_webhook_deliveries ::
  "key_env \<Rightarrow> key_context option \<Rightarrow> uuid \<Rightarrow> u32 \<Rightarrow> u32 \<Rightarrow> key_state \<Rightarrow> delivery list \<Rightarrow> hook_response" where
  "list_webhook_deliveries env ctx kid page0 per_page0 st rows =
     (case load_own_org_key env ctx kid st of
        Inl resp \<Rightarrow> HookError resp
      | Inr k \<Rightarrow>
          (case authorize_key_for_session ctx k KeyReadAny KeyReadOwn ''key:read:own'' of
             Some resp \<Rightarrow> HookError resp
           | None \<Rightarrow>
               (let page = clamp_page page0; per_page = clamp_per_page per_page0
                in case list_deliveries (ke_faults env) 1 (uuid_text kid) page per_page rows of
                     Inl e \<Rightarrow> HookError (error_response e 500)
                   | Inr (ds, n_total) \<Rightarrow>
                       Deliveries \<lparr>dp_data = ds, dp_total = word_of_int n_total, dp_page = page,
                         dp_per_page = per_page, dp_total_pages = total_pages (word_of_int n_total) per_page\<rparr>)))"

section \<open>What a delivery does\<close>

definition delivered :: "string + reply \<Rightarrow> bool" where
  "delivered r = (case r of Inr resp \<Rightarrow> is_success (rp_status resp) | Inl _ \<Rightarrow> False)"

lemma delivered_simps [simp]: "\<not> delivered (Inl e)" "delivered (Inr resp) = is_success (rp_status resp)"
  by (simp_all add: delivered_def)






lemma back_off_simps [simp]:
  "wb_world (back_off n s) = wb_world s" "wb_posts (back_off n s) = wb_posts s"
  "wb_deliveries (back_off n s) = wb_deliveries s"
  "wb_pauses (back_off n s) = wb_pauses s @ (if 0 < n then [push_bit (n - 1) 1] else [])"
  by (simp_all add: back_off_def)

lemma record_attempt_simps [simp]:
  "wb_world (record_attempt env k g p n r s) = wb_world s"
  "wb_posts (record_attempt env k g p n r s) = wb_posts s"
  "wb_pauses (record_attempt env k g p n r s) = wb_pauses s"
  by (simp_all add: record_attempt_def Let_def)

lemma send_post_eq:
  "send_post env p s = (r, s') \<longleftrightarrow>
     (\<exists>w. we_send env p (wb_world s) = (r, w) \<and> s' = s\<lparr>wb_world := w, wb_posts := wb_posts s @ [p]\<rparr>)"
  by (auto simp: send_post_def split: prod.splits)

text \<open>The pauses before the first \<open>k\<close> attempts of \<open>ns\<close>.\<close>

definition pauses_of :: "nat list \<Rightarrow> u64 list" where
  "pauses_of ns = map (\<lambda>n. push_bit (n - 1) 1) (filter (\<lambda>n. 0 < n) ns)"

lemma pauses_of_simps [simp]:
  "pauses_of [] = []" "pauses_of (n # ns) = (if 0 < n then [push_bit (n - 1) 1] else []) @ pauses_of ns"
  by (simp_all add: pauses_of_def)


text \<open>What the two loops have in common.\<close>

definition effects :: "'w web \<Rightarrow> 'w \<times> post list \<times> u64 list" where
  "effects s = (wb_world s, wb_posts s, wb_pauses s)"

lemma send_post_effects:
  assumes "effects s = effects t" "send_post env p (back_off n s) = (r, s')"
  shows "\<exists>t'. send_post env p (back_off n t) = (r, t') \<and> effects s' = effects t'"
  using assms by (auto simp: effects_def send_post_eq)

lemma attempt_all_agree:
  assumes "attempt_all env p ns e s = (res, s')"
    "attempt_all_logged env k g p ns e' t = (res', t')" "effects s = effects t"
  shows "effects s' = effects t' \<and> (isl res \<longleftrightarrow> isl res')"
  using assms
proof (induction ns arbitrary: e e' s t)
  case Nil then show ?case by auto
next
  case (Cons n ns)
  obtain r s1 where s1: "send_post env p (back_off n s) = (r, s1)" by fastforce
  then obtain t1 where t1: "send_post env p (back_off n t) = (r, t1)" "effects s1 = effects t1"
    using send_post_effects Cons.prems(3) by blast
  let ?t2 = "record_attempt env k g p n r t1"
  have eff: "effects s1 = effects ?t2" using t1(2) by (simp add: effects_def)
  show ?case
  proof (cases "delivered r")
    case True
    then obtain resp where "r = Inr resp" by (cases r) auto
    with True Cons.prems s1 t1 eff show ?thesis by (auto simp: Let_def)
  next
    case False
    then obtain e1 e2 where "attempt_all env p ns e1 s1 = (res, s')"
      "attempt_all_logged env k g p ns e2 ?t2 = (res', t')"
      using Cons.prems s1 t1 by (cases r) (auto simp: Let_def)
    then show ?thesis by (rule Cons.IH [OF _ _ eff])
  qed
qed





section \<open>Properties\<close>






text \<open>
  The two delivery routines send the same requests, pause alike and agree on whether the
  delivery succeeded, whatever happens to the log.
\<close>

theorem logging_does_not_change_delivery:
  "effects (snd (dispatch_webhook env url secret g s)) = effects (snd (dispatch_webhook_logged env url secret g k s))
   \<and> (isl (fst (dispatch_webhook env url secret g s)) \<longleftrightarrow> isl (fst (dispatch_webhook_logged env url secret g k s)))"
proof (cases "we_serialize env g")
  case (Inr body)
  let ?p = "signed_post env url secret g body"
  obtain r1 s1 where 1: "attempt_all env ?p [0..<MAX_ATTEMPTS] [] s = (r1, s1)" by fastforce
  obtain r2 s2 where 2: "attempt_all_logged env k g ?p [0..<MAX_ATTEMPTS] [] s = (r2, s2)" by fastforce
  from attempt_all_agree [OF 1 2] 1 2 Inr show ?thesis
    by (simp add: dispatch_webhook_def dispatch_webhook_logged_def)
qed (simp add: dispatch_webhook_def dispatch_webhook_logged_def)

end
