(* ===== verification/Poller.thy ===== *)
theory Poller
  imports Webhook Registry
begin

text \<open>
  The background poller (\<open>proxy/poller.rs\<close>): one round asks the providers for the status of the
  oldest active generations, writes what they answer, gives up on generations that have been active
  for too long, and starts the webhooks of those that ended.

  A provider's answer is a parameter that may change the world, which also holds the registry.
  Between the read of the table and each write other requests run: \<open>pe_meanwhile\<close> is what they do to the table. The write for a generation
  fails when \<open>pe_update_fault\<close> gives an error for its id.
\<close>

definition MAX_ACTIVE_AGE_SECS :: i64 where "MAX_ACTIVE_AGE_SECS = 2 * 60 * 60"

record 'w poll_env =
  pe_list_fault :: "string option"
  pe_update_fault :: "string \<Rightarrow> string option"
  pe_meanwhile :: "string \<Rightarrow> gen_row list \<Rightarrow> gen_row list"
  pe_registry :: "'w \<Rightarrow> provider_registry"
  pe_poll :: "provider_instance \<Rightarrow> video_handle \<Rightarrow> 'w \<Rightarrow> (provider_error + video_poll_result) \<times> 'w"
  pe_now :: "'w \<Rightarrow> datetime"
  pe_secrets_key :: "u8 list option"
  pe_credential :: "string \<Rightarrow> string \<Rightarrow> string + (string \<times> string) option"
  pe_decrypt :: "u8 list \<Rightarrow> string \<Rightarrow> string \<Rightarrow> string + u8 list"
  pe_json :: "u8 list \<Rightarrow> string + json"
  pe_decode_keys :: "json \<Rightarrow> api_key_entry list option"
  pe_decode_sets :: "json \<Rightarrow> credential_entry list option"

record webhook_job =
  wj_key_id :: uuid
  wj_generation :: generation

record 'w poll_state =
  ps_rows :: "gen_row list"
  ps_world :: 'w
  ps_jobs :: "webhook_job list"

section \<open>A round\<close>

text \<open>Every failure falls back to the platform's own provider.\<close>

definition resolve_gen_credential :: "'w poll_env \<Rightarrow> generation \<Rightarrow> provider_credentials option" where
  "resolve_gen_credential env g =
     (case (gn_org_id g, pe_secrets_key env) of
        (Some org, Some key) \<Rightarrow>
          (case pe_credential env org (gn_provider g) of
             Inr (Some (ct, nonce)) \<Rightarrow>
               (case pe_decrypt env key ct nonce of
                  Inr plain \<Rightarrow>
                    (case pe_json env plain of
                       Inr v \<Rightarrow> Some (credentials_from_json (pe_decode_keys env) (pe_decode_sets env) v)
                     | Inl _ \<Rightarrow> None)
                | Inl _ \<Rightarrow> None)
           | _ \<Rightarrow> None)
      | _ \<Rightarrow> None)"

text \<open>A write of the poller, and whether it succeeded.\<close>

definition write_status ::
  "'w poll_env \<Rightarrow> string \<Rightarrow> string \<Rightarrow> int \<Rightarrow> string option \<Rightarrow> string option \<Rightarrow> datetime option
   \<Rightarrow> 'w poll_state \<Rightarrow> bool \<times> 'w poll_state" where
  "write_status env gid status progress url err completed s =
     (let rows = pe_meanwhile env gid (ps_rows s) in
      case pe_update_fault env gid of
        Some _ \<Rightarrow> (False, s\<lparr>ps_rows := rows\<rparr>)
      | None \<Rightarrow> (True, s\<lparr>ps_rows := update_generation_status gid status progress url err completed rows\<rparr>))"

definition reap_generation :: "'w poll_env \<Rightarrow> string \<Rightarrow> string \<Rightarrow> 'w poll_state \<Rightarrow> 'w poll_state" where
  "reap_generation env gid reason s =
     snd (write_status env gid ''failed'' 0 None (Some reason) (Some (pe_now env (ps_world s))) s)"

definition over_age :: "'w poll_env \<Rightarrow> generation \<Rightarrow> 'w \<Rightarrow> bool" where
  "over_age env g w = (MAX_ACTIVE_AGE_SECS < num_seconds (pe_now env w - gn_created_at g))"

definition updated_generation :: "video_poll_result \<Rightarrow> datetime option \<Rightarrow> generation \<Rightarrow> generation" where
  "updated_generation poll completed g =
     g\<lparr>gn_status := vp_status poll, gn_progress := uint (vp_progress poll), gn_result_url := vp_video_url poll,
       gn_error_message := vp_error poll, gn_completed_at := completed\<rparr>"

text \<open>What follows an answer of the provider; \<open>aged\<close> was found before asking.\<close>

definition record_poll :: "'w poll_env \<Rightarrow> generation \<Rightarrow> bool \<Rightarrow> video_poll_result \<Rightarrow> 'w poll_state \<Rightarrow> 'w poll_state" where
  "record_poll env g aged poll s =
     (let is_terminal = terminal (vp_status poll) in
      if \<not> is_terminal \<and> aged
      then reap_generation env (gn_id g) ''timed out: no terminal status within max active age'' s
      else let completed = (if is_terminal then Some (pe_now env (ps_world s)) else None) in
        case write_status env (gn_id g) (status_string (vp_status poll)) (uint (vp_progress poll))
               (vp_video_url poll) (vp_error poll) completed s of
          (False, s') \<Rightarrow> s'
        | (True, s') \<Rightarrow>
            (case gn_key_id g of
               Some kid \<Rightarrow>
                 if is_terminal
                 then s'\<lparr>ps_jobs := ps_jobs s' @
                   [\<lparr>wj_key_id = kid, wj_generation = updated_generation poll completed g\<rparr>]\<rparr>
                 else s'
             | None \<Rightarrow> s'))"

definition poll_generation :: "'w poll_env \<Rightarrow> generation \<Rightarrow> 'w poll_state \<Rightarrow> 'w poll_state" where
  "poll_generation env g s =
     (let aged = over_age env g (ps_world s);
          reap = (\<lambda>reason s. if aged then reap_generation env (gn_id g) reason s else s)
      in case video_provider_for_request (gn_provider g) (resolve_gen_credential env g)
                (pe_registry env (ps_world s)) of
           None \<Rightarrow> reap ''provider no longer configured'' s
         | Some p \<Rightarrow>
             (case gn_provider_job_id g of
                None \<Rightarrow> reap ''no provider job id was recorded'' s
              | Some job \<Rightarrow>
                  (case pe_poll env p \<lparr>vh_provider_job_id = job, vh_provider = gn_provider g, vh_model = gn_model g\<rparr>
                          (ps_world s) of
                     (Inl e, w) \<Rightarrow>
                       if \<not> is_retryable e
                       then reap_generation env (gn_id g) (provider_error_string e) (s\<lparr>ps_world := w\<rparr>)
                       else reap ''timed out awaiting provider'' (s\<lparr>ps_world := w\<rparr>)
                   | (Inr poll, w) \<Rightarrow> record_poll env g aged poll (s\<lparr>ps_world := w\<rparr>))))"

definition poll_once :: "'w poll_env \<Rightarrow> 'w poll_state \<Rightarrow> 'w poll_state" where
  "poll_once env s =
     (case pe_list_fault env of
        Some _ \<Rightarrow> s
      | None \<Rightarrow> fold (poll_generation env) (list_active_generations 100 (ps_rows s)) s)"

text \<open>The webhook of a generation that ended; the lookup of its key is statement 0 of the key's table.\<close>

definition run_webhook_job ::
  "key_env \<Rightarrow> 'w web_env \<Rightarrow> webhook_job \<Rightarrow> api_key list \<Rightarrow> 'w web \<Rightarrow> 'w web" where
  "run_webhook_job env wenv job keys s =
     (case get_api_key (ke_faults env) 0 (wj_key_id job) keys of
        Inr (Some k) \<Rightarrow>
          (case ky_webhook_url k of
             Some url \<Rightarrow>
               if ke_mode env = Hosted
                  \<and> isl (validate_public_url (ke_parse env) (ke_parse_ip env) (ke_lookup env) url)
               then s
               else snd (dispatch_webhook_logged wenv url (Some (ky_key_hash k)) (wj_generation job)
                           (uuid_text (wj_key_id job)) s)
           | None \<Rightarrow> s)
      | _ \<Rightarrow> s)"

end
