(* ===== verification/GenerationProps.thy ===== *)
theory GenerationProps
  imports Generations Tenancy
begin

text \<open>
  What holds of the stored generations: a status is read back as it was written, and tenants
  neither see nor change each other's generations.
\<close>

section \<open>Rows\<close>

lemma parse_status_string [simp]: "parse_status (status_string st) = st"
  by (cases st) (simp_all add: parse_status_def)

lemma active_status_string [simp]: "active_status (status_string st) \<longleftrightarrow> \<not> terminal st"
  by (cases st) (simp_all add: active_status_def terminal_def)

lemma active_parse: "status_string (parse_status t) = t \<Longrightarrow> active_status t \<longleftrightarrow> \<not> terminal (parse_status t)"
  using active_status_string [of "parse_status t"] by simp

lemma find_row_None: "find_row i rows = None \<longleftrightarrow> i \<notin> set (map row_id rows)"
  by (auto simp: find_row_def find_None_iff)

text \<open>What never changes in a row.\<close>

definition identity :: "gen_row \<Rightarrow> generation" where
  "identity r = (gr_generation r)\<lparr>gn_status := Pending, gn_progress := 0, gn_result_url := None,
     gn_error_message := None, gn_completed_at := None\<rparr>"

lemma identity_simps [simp]:
  "identity (set_status st p u e c r) = identity r" "identity (cancel_row now r) = identity r"
  "gn_id (identity r) = row_id r" "gn_org_id (identity r) = row_org r"
  "gn_created_at (identity r) = gn_created_at (gr_generation r)"
  by (simp_all add: identity_def set_status_def cancel_row_def)

text \<open>Rows are added at the end, and nothing else happens to what identifies them.\<close>

definition extends_rows :: "gen_row list \<Rightarrow> gen_row list \<Rightarrow> bool" where
  "extends_rows rows rows' =
     ((\<exists>new. map identity rows' = map identity rows @ new) \<and> (distinct (map row_id rows) \<longrightarrow> distinct (map row_id rows')))"

lemma extends_refl [simp, intro]: "extends_rows rows rows"
  by (simp add: extends_rows_def)

lemma extends_trans: "extends_rows a b \<Longrightarrow> extends_rows b c \<Longrightarrow> extends_rows a c"
  by (auto simp: extends_rows_def)

lemma ids_of_identity: "map row_id rows = map gn_id (map identity rows)"
  by simp

lemma extends_update:
  assumes "\<And>r. identity (f r) = identity r"
  shows "extends_rows rows (update_gens p f rows)"
proof -
  have "map identity (update_gens p f rows) = map identity rows"
    using assms by (simp add: update_gens_def)
  moreover from this have "map row_id (update_gens p f rows) = map row_id rows" by (simp only: ids_of_identity)
  ultimately show ?thesis by (simp add: extends_rows_def)
qed

lemma extends_status: "extends_rows rows (update_generation_status gid st p u e c rows)"
  unfolding update_generation_status_def by (rule extends_update) simp

text \<open>What cancelling does, seen from the table.\<close>

lemma cancel_rows:
  obtains "gs_rows (snd (cancel_generation env ctx gid s)) = gs_rows s"
  | now where "gs_rows (snd (cancel_generation env ctx gid s))
      = update_gens (\<lambda>r. row_id r = gid \<and> active_status (gr_status r)) (cancel_row now) (gs_rows s)"
proof -
  have row: "snd (cancel_generation_row fl i now gid rows)
      \<in> {rows, update_gens (\<lambda>r. row_id r = gid \<and> active_status (gr_status r)) (cancel_row now) rows}" for fl i now rows
    by (simp add: cancel_generation_row_def Let_def split: option.splits)
  have "gs_rows (snd (cancel_generation env ctx gid s))
      \<in> {gs_rows s, snd (cancel_generation_row (ne_faults env) 2 (ne_now env) gid (gs_rows s))}"
    by (simp add: cancel_generation_def split: option.split sum.split prod.split)
  then show thesis
    using that row [of "ne_faults env" 2 "ne_now env" "gs_rows s"] by auto
qed

section \<open>Reading what was written\<close>

lemma find_update_gens:
  assumes "\<And>r. row_id (f r) = row_id r"
  shows "find_row i (update_gens (\<lambda>r. row_id r = i) f rows) = map_option f (find_row i rows)"
  using assms by (induction rows) (auto simp: find_row_def update_gens_def)

text \<open>
  Reading a generation gives back the status, the progress, the result and the time that were
  last written for it, and the rest of it as it was: the text of a status is parsed as the status
  it was made of.
\<close>

theorem written_status_is_read:
  assumes "fl i = None" and "find_row gid rows = Some r"
  shows "get_generation_row fl i gid (update_generation_status gid (status_string st) progress url err completed rows)
    = Inr (Some ((gr_generation r)\<lparr>gn_status := st, gn_progress := progress, gn_result_url := url,
        gn_error_message := err, gn_completed_at := completed\<rparr>))"
  using assms
  by (simp add: get_generation_row_def db_try_def update_generation_status_def find_update_gens set_status_def
      generation_from_row_def)

definition example_started :: started_generation where
  "example_started = \<lparr>sg_id = ''g'', sg_key_id = Some 1, sg_model = ''fal/m'', sg_provider = ''fal'',
     sg_provider_job_id = Some ''job'', sg_cost_usd = 0, sg_org_id = Some ''org'', sg_app_id = Some ''app''\<rparr>"

definition example_rows :: "gen_row list" where
  "example_rows = [new_generation 0 example_started]"

lemma example_rows_simps [simp]:
  "find_row ''g'' example_rows = Some (new_generation 0 example_started)"
  "map row_id example_rows = [''g'']"
  by (simp_all add: example_rows_def find_row_def new_generation_def example_started_def)

theorem written_status_is_read_witness:
  "get_generation_row (\<lambda>_. None) 0 ''g''
     (update_generation_status ''g'' (status_string Completed) 100 (Some ''u'') None (Some 5) example_rows)
   = Inr (Some ((gr_generation (new_generation 0 example_started))\<lparr>gn_status := Completed, gn_progress := 100,
       gn_result_url := Some ''u'', gn_error_message := None, gn_completed_at := Some 5\<rparr>))"
  by (rule written_status_is_read) simp_all

section \<open>Tenants\<close>

text \<open>What belongs to an organization: its rows and its audit entries.\<close>

definition org_generations :: "string \<Rightarrow> gen_state \<Rightarrow> gen_row list \<times> cancel_entry list" where
  "org_generations org s =
     (filter (\<lambda>r. row_org r = Some org) (gs_rows s), filter (\<lambda>e. ce_org_id e = Some org) (gs_audit s))"

definition cancel_step :: "gen_env \<times> key_context \<times> string \<Rightarrow> gen_state \<Rightarrow> gen_state" where
  "cancel_step q s = (case q of (env, ctx, gid) \<Rightarrow> snd (cancel_generation env ctx gid s))"

definition canceller :: "gen_env \<times> key_context \<times> string \<Rightarrow> string option" where
  "canceller q = kc_org_id (fst (snd q))"

definition ids_distinct :: "gen_state \<Rightarrow> bool" where
  "ids_distinct s = distinct (map row_id (gs_rows s))"

lemma find_row_Some: "find_row i rows = Some r \<Longrightarrow> r \<in> set rows \<and> row_id r = i"
  by (auto simp: find_row_def find_Some_iff)

text \<open>A cancellation that changes anything is of a generation of the caller's organization.\<close>

lemma cancel_cases:
  assumes "cancel_generation env ctx gid s = (resp, s')"
  obtains "gs_rows s' = gs_rows s" "gs_audit s' = gs_audit s"
  | org r new where "kc_org_id ctx = Some org" "find_row gid (gs_rows s) = Some r" "row_org r = Some org"
      "gs_rows s' = update_gens (\<lambda>r. row_id r = gid \<and> active_status (gr_status r)) (cancel_row (ne_now env)) (gs_rows s)"
      "gs_audit s' = gs_audit s @ new" "list_all (\<lambda>e. ce_org_id e = Some org) new"
proof (cases "gs_rows s' = gs_rows s \<and> gs_audit s' = gs_audit s")
  case False
  then obtain org g where org: "kc_org_id ctx = Some org"
      and g: "get_generation_row (ne_faults env) 0 gid (gs_rows s) = Inr (Some g)" "gn_org_id g = Some org"
      and auth: "authorize_generation_for_session env (Some ctx) g GenerationCancelAny GenerationCancelOwn
        ''generation:cancel:own'' s = None"
    using assms by (auto simp: cancel_generation_def split: option.splits sum.splits if_splits)
  obtain res rows where c: "cancel_generation_row (ne_faults env) 2 (ne_now env) gid (gs_rows s) = (res, rows)"
    by fastforce
  obtain r where r: "find_row gid (gs_rows s) = Some r" "g = generation_from_row r"
    using g(1) by (auto simp: get_generation_row_def db_try_def split: option.splits)
  have rows: "rows = gs_rows s \<or> rows = update_gens (\<lambda>r. row_id r = gid \<and> active_status (gr_status r))
      (cancel_row (ne_now env)) (gs_rows s)"
    using c by (auto simp: cancel_generation_row_def Let_def split: option.splits)
  have "rows = gs_rows s \<Longrightarrow> \<not> isl res \<Longrightarrow> update_gens (\<lambda>r. row_id r = gid \<and> active_status (gr_status r))
      (cancel_row (ne_now env)) (gs_rows s) = rows"
    using c by (auto simp: cancel_generation_row_def Let_def split: option.splits)
  then show thesis
    using False assms org g auth c rows r that
    by (cases res; cases "projr res") (auto simp: cancel_generation_def generation_from_row_def)
qed (use that in blast)

lemma other_org_rows:
  assumes "distinct (map row_id rows)" "find_row gid rows = Some r" "row_org r \<noteq> Some org"
    "\<And>r. identity (f r) = identity r"
  shows "filter (\<lambda>r. row_org r = Some org) (update_gens (\<lambda>r. row_id r = gid \<and> p r) f rows)
    = filter (\<lambda>r. row_org r = Some org) rows"
proof -
  have only: "x = r" if "x \<in> set rows" "row_id x = gid" for x
    using that find_row_Some [OF assms(2)] assms(1) unfolding distinct_map by (metis inj_onD)
  have "row_org (f x) = row_org x" for x using assms(4) identity_simps(4) by metis
  then have "filter (\<lambda>r. row_org r = Some org) (update_gens (\<lambda>r. row_id r = gid \<and> p r) f xs)
      = filter (\<lambda>r. row_org r = Some org) xs" if "set xs \<subseteq> set rows" for xs
    using that only assms(3) by (induction xs) (auto simp: update_gens_def)
  then show ?thesis by simp
qed

lemma cancel_step_cases:
  "ids_distinct s \<Longrightarrow> ids_distinct (cancel_step q s)"
  "ids_distinct s \<Longrightarrow> canceller q \<noteq> Some org \<Longrightarrow> org_generations org (cancel_step q s) = org_generations org s"
proof -
  obtain env ctx gid where q: "q = (env, ctx, gid)" by (cases q) auto
  obtain resp s' where run: "cancel_generation env ctx gid s = (resp, s')" by fastforce
  then have step: "cancel_step q s = s'" by (simp add: cancel_step_def q)
  show "ids_distinct (cancel_step q s)" if "ids_distinct s"
    using run
  proof (cases rule: cancel_cases)
    case (2 org r new)
    then show ?thesis using that extends_update [of "cancel_row (ne_now env)" "gs_rows s"]
      by (simp add: step ids_distinct_def extends_rows_def)
  qed (use that in \<open>simp add: step ids_distinct_def\<close>)
  show "org_generations org (cancel_step q s) = org_generations org s"
    if "ids_distinct s" "canceller q \<noteq> Some org"
    using run
  proof (cases rule: cancel_cases)
    case (2 org' r new)
    then have "org' \<noteq> org" using that(2) by (auto simp: canceller_def q)
    then show ?thesis using 2 that(1)
      by (auto simp: step org_generations_def ids_distinct_def other_org_rows filter_empty_conv list_all_iff)
  qed (simp add: step org_generations_def)
qed

interpretation gens: tenant_isolation cancel_step canceller org_generations ids_distinct
  by unfold_locales (rule cancel_step_cases; assumption)+

text \<open>
  No sequence of cancellations by other organizations changes the generations or the audit
  entries of an organization.
\<close>

theorem foreign_generations_untouched:
  assumes "ids_distinct s" and "\<And>q. q \<in> set qs \<Longrightarrow> canceller q \<noteq> Some org"
  shows "org_generations org (fold cancel_step qs s) = org_generations org s"
  using assms by (rule gens.owned_run)

definition example_gen_env :: gen_env where
  "example_gen_env = \<lparr>ne_faults = (\<lambda>_. None), ne_now = 9\<rparr>"

definition foreign_context :: key_context where
  "foreign_context = example_context\<lparr>kc_org_id := Some ''other''\<rparr>"

abbreviation example_gens :: gen_state where
  "example_gens \<equiv> \<lparr>gs_rows = example_rows, gs_keys = [], gs_audit = []\<rparr>"

theorem foreign_generations_untouched_witness:
  "org_generations ''org'' (fold cancel_step [(example_gen_env, foreign_context, ''g'')] example_gens)
   = org_generations ''org'' example_gens"
  by (rule foreign_generations_untouched) (auto simp: ids_distinct_def canceller_def foreign_context_def)

lemma page_of_subset: "set (page_of page per_page xs) \<subseteq> set xs"
  unfolding page_of_def Let_def by (meson order_trans set_drop_subset set_take_subset)

lemma latest_first_set [simp]: "set (latest_first rows) = set rows"
  by (simp add: latest_first_def)

text \<open>What a page shows.\<close>

definition visible :: "key_context \<Rightarrow> api_key list \<Rightarrow> generation \<Rightarrow> bool" where
  "visible ctx keys g =
     (gn_org_id g = kc_org_id ctx \<and> (kc_app_id ctx \<noteq> None \<longrightarrow> gn_app_id g = kc_app_id ctx)
      \<and> (case kc_user ctx of
           Some u \<Rightarrow> GenerationReadAny \<notin> set (kc_permissions ctx) \<longrightarrow> GenerationReadOwn \<in> set (kc_permissions ctx)
             \<and> (\<exists>k\<in>set keys. gn_key_id g = Some (ky_id k) \<and> ky_owner_user_id k = Some (uc_user_id u))
         | None \<Rightarrow> True))"

lemma owner_keys:
  "k \<in> set (case list_api_keys_for_owner fl i u keys of Inl _ \<Rightarrow> [] | Inr ks \<Rightarrow> map ky_id ks)
   \<Longrightarrow> \<exists>x\<in>set keys. ky_id x = k \<and> ky_owner_user_id x = Some u"
  by (auto simp: list_api_keys_for_owner_def db_try_def newest_first_def split: option.splits)

lemma tenant_page:
  assumes "list_generations_for_tenant fl i org app page per_page rows = Inr gens"
  shows "length gens \<le> unat per_page \<and> (\<forall>g\<in>set gens. \<exists>r\<in>set rows. g = generation_from_row r \<and> of_tenant org app r)"
proof -
  have gens: "gens = map generation_from_row (page_of page per_page (latest_first (filter (of_tenant org app) rows)))"
    using assms by (simp add: list_generations_for_tenant_def db_try_def split: option.splits)
  then show ?thesis using page_of_subset [of page per_page "latest_first (filter (of_tenant org app) rows)"]
    by (auto simp: page_of_def Let_def)
qed

lemma owner_page:
  assumes "list_generations_for_owner fl i org app ks page per_page rows = Inr (gens, n)"
  shows "length gens \<le> unat per_page \<and> (\<forall>g\<in>set gens. \<exists>r\<in>set rows. g = generation_from_row r \<and> of_tenant org app r
    \<and> (\<exists>k\<in>set ks. gn_key_id (gr_generation r) = Some k))"
proof (cases "ks = []")
  case False
  let ?p = "\<lambda>r. of_tenant org app r \<and> (\<exists>k\<in>set ks. gn_key_id (gr_generation r) = Some k)"
  have gens: "gens = map generation_from_row (page_of page per_page (latest_first (filter ?p rows)))"
    using assms False by (auto simp: list_generations_for_owner_def db_try_def Let_def split: option.splits)
  then show ?thesis using page_of_subset [of page per_page "latest_first (filter ?p rows)"]
    by (auto simp: page_of_def Let_def)
qed (use assms in \<open>simp add: list_generations_for_owner_def\<close>)

text \<open>
  A page of generations shows at most as many as were asked for, never more than 200, and only
  generations of the caller's organization and application; to a session that may only read its own
  ones, only those submitted by keys its user owns.
\<close>

theorem page_shows_only_visible:
  assumes "list_generations env ctx page per_page s = GenPage pg"
  shows "list_all (visible ctx (gs_keys s)) (pg_data pg) \<and> length (pg_data pg) \<le> 200"
proof -
  let ?pp = "clamp_per_page per_page" and ?fl = "ne_faults env"
  obtain org where org: "kc_org_id ctx = Some org"
    using assms by (auto simp: list_generations_def Let_def no_active_org_def gen_error_def split: option.splits)
  have small: "unat ?pp \<le> 200" by (rule clamp_per_page_bounds)
  show ?thesis
  proof (cases "\<exists>u. kc_user ctx = Some u \<and> GenerationReadAny \<notin> set (kc_permissions ctx)")
    case False
    then obtain gens where gens: "list_generations_for_tenant ?fl 2 org (kc_app_id ctx) (clamp_page page) ?pp (gs_rows s) = Inr gens"
        "pg_data pg = gens"
      using assms org
      by (auto simp: list_generations_def Let_def gen_error_def paged_def split: option.splits sum.splits if_splits)
    then show ?thesis using tenant_page [OF gens(1)] small org False
      by (fastforce simp: list_all_iff visible_def of_tenant_def generation_from_row_def split: option.splits)
  next
    case True
    then obtain u where u: "kc_user ctx = Some u" "GenerationReadAny \<notin> set (kc_permissions ctx)" by blast
    let ?ks = "case list_api_keys_for_owner ?fl 0 (uc_user_id u) (gs_keys s) of Inl _ \<Rightarrow> [] | Inr ks \<Rightarrow> map ky_id ks"
    have own: "GenerationReadOwn \<in> set (kc_permissions ctx)"
      using assms org u by (auto simp: list_generations_def Let_def gen_error_def split: if_splits)
    then obtain gens n where gens: "list_generations_for_owner ?fl 1 org (kc_app_id ctx) ?ks (clamp_page page) ?pp (gs_rows s)
        = Inr (gens, n)" "pg_data pg = gens"
      using assms org u
      by (auto simp: list_generations_def Let_def gen_error_def paged_def split: sum.splits prod.splits)
    have "visible ctx (gs_keys s) g" if "g \<in> set gens" for g
    proof -
      from owner_page [OF gens(1)] that obtain r k where r: "g = generation_from_row r" "of_tenant org (kc_app_id ctx) r"
          "k \<in> set ?ks" "gn_key_id (gr_generation r) = Some k" by blast
      from owner_keys [OF r(3)] r(1,2,4) u own org show ?thesis
        by (fastforce simp: visible_def of_tenant_def generation_from_row_def split: option.splits)
    qed
    then show ?thesis using owner_page [OF gens(1)] small gens(2) by (auto simp: list_all_iff)
  qed
qed

theorem page_shows_only_visible_witness:
  "\<exists>pg. list_generations example_gen_env (example_context\<lparr>kc_user := None\<rparr>) 1 50 example_gens = GenPage pg
     \<and> list_all (visible (example_context\<lparr>kc_user := None\<rparr>) []) (pg_data pg)"
proof -
  obtain pg where run: "list_generations example_gen_env (example_context\<lparr>kc_user := None\<rparr>) 1 50 example_gens = GenPage pg"
    by (simp add: list_generations_def example_context_def session_context_def example_gen_env_def paged_def Let_def
        count_generations_for_tenant_def list_generations_for_tenant_def db_try_def)
  with page_shows_only_visible [OF run] show ?thesis by auto
qed

end
