(* ===== verification/PollerProps.thy ===== *)
theory PollerProps
  imports Poller GenerationProps
begin

text \<open>
  What holds of the table of generations whatever requests and the poller do to it in any order:
  the invariant of its rows, and that a generation that has been active for too long ends after
  finitely many rounds of the poller.
\<close>

section \<open>The life of a generation\<close>




section \<open>Steps\<close>









section \<open>The poller only makes such steps\<close>









section \<open>Generations that have been active for too long end\<close>

definition stuck :: "datetime \<Rightarrow> gen_row \<Rightarrow> bool" where
  "stuck t r = (active_status (gr_status r) \<and> gn_created_at (gr_generation r) < t)"

definition stuck_ids :: "datetime \<Rightarrow> gen_row list \<Rightarrow> string set" where
  "stuck_ids t rows = row_id ` {r \<in> set rows. stuck t r}"







lemma stuck_written [simp]:
  "row_id (set_status st p u e c r) = row_id r" "row_id (cancel_row now r) = row_id r"
  "stuck t (set_status (status_string st') p u e c r) \<longleftrightarrow> \<not> terminal st' \<and> gn_created_at (gr_generation r) < t"
  "\<not> stuck t (cancel_row now r)"
  by (simp_all add: stuck_def set_status_def cancel_row_def active_status_def
      flip: active_status_string)













lemma generation_from_row_simps [simp]:
  "gn_id (generation_from_row r) = row_id r"
  "gn_created_at (generation_from_row r) = gn_created_at (gr_generation r)"
  by (simp_all add: generation_from_row_def)



lemma finite_stuck_ids [simp]: "finite (stuck_ids t rows)"
  by (simp add: stuck_ids_def)



section \<open>Examples\<close>

definition example_poll_env :: "datetime \<Rightarrow> int poll_env" where
  "example_poll_env now =
     \<lparr>pe_list_fault = None, pe_update_fault = (\<lambda>_. None), pe_meanwhile = (\<lambda>_ rows. rows),
      pe_registry = (\<lambda>_. registry_new), pe_poll = (\<lambda>_ _ w. (Inl (Timeout 1), w)), pe_now = (\<lambda>w. now),
      pe_secrets_key = None, pe_credential = (\<lambda>_ _. Inr None), pe_decrypt = (\<lambda>_ _ _. Inl []),
      pe_json = (\<lambda>_. Inl []), pe_decode_keys = (\<lambda>_. None), pe_decode_sets = (\<lambda>_. None)\<rparr>"

abbreviation example_polls :: "int poll_state" where
  "example_polls \<equiv> \<lparr>ps_rows = example_rows, ps_world = 0, ps_jobs = []\<rparr>"




section \<open>A cancellation is forgotten\<close>

text \<open>C38:
  The poller's write does not look at the present status: when a generation is cancelled while
  its provider is asked, the answer replaces the cancellation, and a job still running makes the
  cancelled generation active again.
\<close>

theorem poll_overwrites_cancellation:
  assumes "video_provider_for_request (gn_provider g) (resolve_gen_credential env g) (pe_registry env (ps_world s)) = Some p"
    and "gn_provider_job_id g = Some job"
    and "pe_poll env p \<lparr>vh_provider_job_id = job, vh_provider = gn_provider g, vh_model = gn_model g\<rparr> (ps_world s)
      = (Inr poll, w)"
    and "\<not> over_age env g (ps_world s)" and "pe_update_fault env (gn_id g) = None"
    and "find_row (gn_id g) (pe_meanwhile env (gn_id g) (ps_rows s)) = Some r" and "gr_status r = ''cancelled''"
  shows "\<exists>r'. find_row (gn_id g) (ps_rows (poll_generation env g s)) = Some r' \<and> identity r' = identity r
    \<and> gr_status r' = status_string (vp_status poll) \<and> (active_status (gr_status r') \<longleftrightarrow> \<not> terminal (vp_status poll))"
proof -
  let ?c = "if terminal (vp_status poll) then Some (pe_now env w) else None"
  have "ps_rows (poll_generation env g s) = update_generation_status (gn_id g) (status_string (vp_status poll))
      (uint (vp_progress poll)) (vp_video_url poll) (vp_error poll) ?c (pe_meanwhile env (gn_id g) (ps_rows s))"
    using assms(1-5)
    by (simp add: poll_generation_def record_poll_def write_status_def Let_def split: option.split)
  then have "find_row (gn_id g) (ps_rows (poll_generation env g s))
      = Some (set_status (status_string (vp_status poll)) (uint (vp_progress poll)) (vp_video_url poll) (vp_error poll) ?c r)"
    using assms(6) by (simp add: update_generation_status_def find_update_gens)
  then show ?thesis by (simp add: set_status_def identity_def)
qed

definition cancelling_env :: "int poll_env" where
  "cancelling_env = (example_poll_env 5)
     \<lparr>pe_meanwhile := (\<lambda>gid. update_gens (\<lambda>r. row_id r = gid) (cancel_row 4)),
      pe_registry := (\<lambda>_. register_provider ''fal'' default_instance_config registry_new),
      pe_poll := (\<lambda>_ _ w. (Inr \<lparr>vp_status = Processing, vp_progress = 50, vp_video_url = None,
        vp_video_data = None, vp_content_type = None, vp_error = None\<rparr>, w))\<rparr>"

theorem poll_overwrites_cancellation_witness:
  "\<exists>r'. find_row ''g'' (ps_rows (poll_once cancelling_env example_polls)) = Some r' \<and> active_status (gr_status r')"
proof -
  let ?g = "generation_from_row (new_generation 0 example_started)"
  have g: "gn_id ?g = ''g''" "gn_provider ?g = ''fal''" "gn_provider_job_id ?g = Some ''job''" "gn_created_at ?g = 0"
    by (simp_all add: generation_from_row_def new_generation_def example_started_def)
  have listed: "list_active_generations 100 example_rows = [?g]"
    by (simp add: list_active_generations_def example_rows_def oldest_first_def new_generation_def active_status_def)
  have env: "pe_list_fault cancelling_env = None" "resolve_gen_credential cancelling_env ?g = None"
    by (simp_all add: cancelling_env_def example_poll_env_def resolve_gen_credential_def split: option.split)
  have reg: "pe_registry cancelling_env w = register_provider ''fal'' default_instance_config registry_new" for w
    by (simp add: cancelling_env_def)
  obtain p where p: "video_provider_for_request (gn_provider ?g) (resolve_gen_credential cancelling_env ?g)
      (pe_registry cancelling_env (ps_world example_polls)) = Some p"
    unfolding env(2) g(2) reg
    by (simp add: video_provider_for_request_def video_provider_for_def register_provider_def registry_new_def map_put_def build_video_provider_def VIDEO_PROVIDERS_def Let_def)
  have mid: "find_row ''g'' (pe_meanwhile cancelling_env ''g'' example_rows)
      = Some (cancel_row 4 (new_generation 0 example_started))"
    by (simp add: cancelling_env_def find_update_gens)
  have poll: "pe_poll cancelling_env p h w = (Inr \<lparr>vp_status = Processing, vp_progress = 50, vp_video_url = None,
      vp_video_data = None, vp_content_type = None, vp_error = None\<rparr>, w)" for h w
    by (simp add: cancelling_env_def)
  have young: "\<not> over_age cancelling_env ?g (ps_world example_polls)"
    unfolding over_age_def g(4)
    by (simp add: cancelling_env_def example_poll_env_def num_seconds_def MAX_ACTIVE_AGE_SECS_def)
  have "pe_update_fault cancelling_env (gn_id ?g) = None" by (simp add: cancelling_env_def example_poll_env_def)
  note poll_overwrites_cancellation [OF p g(3) poll young this]
  from this [unfolded g(1), of "cancel_row 4 (new_generation 0 example_started)"] mid
  have "\<exists>r'. find_row ''g'' (ps_rows (poll_generation cancelling_env ?g example_polls)) = Some r'
      \<and> active_status (gr_status r')" by (auto simp: cancel_row_def terminal_def)
  then show ?thesis by (simp add: poll_once_def env(1) listed)
qed

section \<open>Webhooks of a hosted service\<close>






end
