(* ===== verification/Handler.thy ===== *)
theory Handler
  imports KeyStore
begin

text \<open>
  Request handlers as computations: a handler runs over a database, may return early with a
  response, and makes calls of the outside world that are numbered in their order. Before each
  statement the other requests act (\<open>wd_other\<close>), and the statement itself fails with an error text
  where \<open>wd_fault\<close> says so. Random draws and readings of the clock are numbered with the statements.

  Triples with two postconditions, one for values and one for early returns, state what a handler
  guarantees while the others obey a relation.
\<close>

record 'd run =
  rn_db :: 'd
  rn_calls :: nat

record 'd world =
  wd_fault :: "nat \<Rightarrow> string option"
  wd_other :: "nat \<Rightarrow> 'd \<Rightarrow> 'd"
  wd_now :: "nat \<Rightarrow> datetime"
  wd_uuid :: "nat \<Rightarrow> uuid"
  wd_bytes :: "nat \<Rightarrow> u8 list"

type_synonym ('d, 'r, 'a) handler = "'d run \<Rightarrow> ('r + 'a) \<times> 'd run"

definition ret :: "'a \<Rightarrow> ('d, 'r, 'a) handler" where
  "ret a s = (Inr a, s)"

definition respond :: "'r \<Rightarrow> ('d, 'r, 'a) handler" where
  "respond r s = (Inl r, s)"

definition andthen :: "('d, 'r, 'a) handler \<Rightarrow> ('a \<Rightarrow> ('d, 'r, 'b) handler) \<Rightarrow> ('d, 'r, 'b) handler" where
  "andthen m f s = (case m s of (Inl r, s') \<Rightarrow> (Inl r, s') | (Inr a, s') \<Rightarrow> f a s')"

text \<open>A statement gives its value or an error text: one of its own, or a fault of the database.\<close>

definition stmt ::
  "'d world \<Rightarrow> ('d \<Rightarrow> (string + 'a) \<times> 'd) \<Rightarrow> ('d, 'r, string + 'a) handler" where
  "stmt w q s =
     (let n = rn_calls s; db = wd_other w n (rn_db s) in
      case wd_fault w n of
        Some e \<Rightarrow> (Inr (Inl e), \<lparr>rn_db = db, rn_calls = Suc n\<rparr>)
      | None \<Rightarrow> (case q db of (res, db') \<Rightarrow> (Inr res, \<lparr>rn_db = db', rn_calls = Suc n\<rparr>)))"

text \<open>A statement that reads the database's clock.\<close>

definition stmt_at ::
  "'d world \<Rightarrow> (datetime \<Rightarrow> 'd \<Rightarrow> (string + 'a) \<times> 'd) \<Rightarrow> ('d, 'r, string + 'a) handler" where
  "stmt_at w q s = stmt w (q (wd_now w (rn_calls s))) s"

definition reading :: "('d \<Rightarrow> 'a) \<Rightarrow> 'd \<Rightarrow> (string + 'a) \<times> 'd" where
  "reading f db = (Inr (f db), db)"

definition writing :: "('d \<Rightarrow> 'd) \<Rightarrow> 'd \<Rightarrow> (string + unit) \<times> 'd" where
  "writing f db = (Inr (), f db)"

text \<open>An insertion or update that a constraint may forbid.\<close>

definition guarded :: "('d \<Rightarrow> bool) \<Rightarrow> string \<Rightarrow> ('d \<Rightarrow> 'd) \<Rightarrow> 'd \<Rightarrow> (string + unit) \<times> 'd" where
  "guarded ok e f db = (if ok db then (Inr (), f db) else (Inl e, db))"

definition draw :: "(nat \<Rightarrow> 'a) \<Rightarrow> ('d, 'r, 'a) handler" where
  "draw f s = (Inr (f (rn_calls s)), s\<lparr>rn_calls := Suc (rn_calls s)\<rparr>)"

text \<open>Go on with the value, or return the response made of the error.\<close>

definition need :: "(string \<Rightarrow> 'r) \<Rightarrow> ('d, 'r, string + 'a) handler \<Rightarrow> ('d, 'r, 'a) handler" where
  "need g m = andthen m (\<lambda>r. case r of Inl e \<Rightarrow> respond (g e) | Inr a \<Rightarrow> ret a)"

definition unless :: "bool \<Rightarrow> 'r \<Rightarrow> ('d, 'r, 'a) handler \<Rightarrow> ('d, 'r, 'a) handler" where
  "unless b r m = (if b then respond r else m)"

definition must :: "'r \<Rightarrow> 'a option \<Rightarrow> ('d, 'r, 'a) handler" where
  "must r x = (case x of Some a \<Rightarrow> ret a | None \<Rightarrow> respond r)"

text \<open>A handler's answer, whichever way it returned.\<close>

definition serve :: "('d, 'r, 'r) handler \<Rightarrow> 'd \<Rightarrow> 'r \<times> 'd" where
  "serve m db = (case m \<lparr>rn_db = db, rn_calls = 0\<rparr> of
     (Inl r, s) \<Rightarrow> (r, rn_db s) | (Inr r, s) \<Rightarrow> (r, rn_db s))"

section \<open>Triples\<close>

definition obeys :: "('d \<Rightarrow> 'd \<Rightarrow> bool) \<Rightarrow> 'd world \<Rightarrow> bool" where
  "obeys rely w = (\<forall>n db. rely db (wd_other w n db))"

definition stable :: "('d \<Rightarrow> 'd \<Rightarrow> bool) \<Rightarrow> ('d \<Rightarrow> bool) \<Rightarrow> bool" where
  "stable rely p = (\<forall>db db'. p db \<longrightarrow> rely db db' \<longrightarrow> p db')"

definition triple ::
  "('d \<Rightarrow> bool) \<Rightarrow> ('d, 'r, 'a) handler \<Rightarrow> ('a \<Rightarrow> 'd \<Rightarrow> bool) \<Rightarrow> ('r \<Rightarrow> 'd \<Rightarrow> bool) \<Rightarrow> bool" where
  "triple p m q e =
     (\<forall>s. p (rn_db s) \<longrightarrow> (case m s of (Inr a, s') \<Rightarrow> q a (rn_db s') | (Inl r, s') \<Rightarrow> e r (rn_db s')))"

lemma triple_ret: "(\<And>db. p db \<Longrightarrow> q a db) \<Longrightarrow> triple p (ret a) q e"
  by (simp add: triple_def ret_def)

lemma triple_respond: "(\<And>db. p db \<Longrightarrow> e r db) \<Longrightarrow> triple p (respond r) q e"
  by (simp add: triple_def respond_def)

lemma triple_andthen:
  fixes m :: "('d, 'r, 'a) handler"
  assumes "triple p m q e" "\<And>a. triple (q a) (f a) q' e"
  shows "triple p (andthen m f) q' e"
  unfolding triple_def
proof (intro allI impI)
  fix s :: "'d run"
  assume "p (rn_db s)"
  with assms(1) show "case andthen m f s of (Inr a, s') \<Rightarrow> q' a (rn_db s') | (Inl r, s') \<Rightarrow> e r (rn_db s')"
    using assms(2) unfolding triple_def andthen_def by (cases "m s"; cases "fst (m s)") fastforce+
qed

lemma triple_draw: "(\<And>n db. p db \<Longrightarrow> q (f n) db) \<Longrightarrow> triple p (draw f) q e"
  by (simp add: triple_def draw_def)

lemma triple_stmt:
  fixes w :: "'d world"
  assumes "obeys rely w" "stable rely p"
    "\<And>x db. p db \<Longrightarrow> q (Inl x) db" "\<And>db. p db \<Longrightarrow> q (fst (f db)) (snd (f db))"
  shows "triple p (stmt w f) q e"
  unfolding triple_def
proof (intro allI impI)
  fix s :: "'d run"
  assume "p (rn_db s)"
  then have "p (wd_other w (rn_calls s) (rn_db s))" using assms(1,2) by (auto simp: obeys_def stable_def)
  then show "case stmt w f s of (Inr a, s') \<Rightarrow> q a (rn_db s') | (Inl r, s') \<Rightarrow> e r (rn_db s')"
    using assms(3,4) by (auto simp: stmt_def Let_def split: option.split prod.split) (metis fst_conv snd_conv)
qed

lemma triple_stmt_at:
  fixes w :: "'d world"
  assumes "obeys rely w" "stable rely p"
    "\<And>x db. p db \<Longrightarrow> q (Inl x) db" "\<And>now db. p db \<Longrightarrow> q (fst (f now db)) (snd (f now db))"
  shows "triple p (stmt_at w f) q e"
  unfolding triple_def
proof (intro allI impI)
  fix s :: "'d run"
  assume "p (rn_db s)"
  with triple_stmt [of rely w p q "f (wd_now w (rn_calls s))" e] assms
  show "case stmt_at w f s of (Inr a, s') \<Rightarrow> q a (rn_db s') | (Inl r, s') \<Rightarrow> e r (rn_db s')"
    by (simp add: triple_def stmt_at_def)
qed

lemma triple_pre: "triple p m q e \<Longrightarrow> (\<And>db. p' db \<Longrightarrow> p db) \<Longrightarrow> triple p' m q e"
  by (auto simp: triple_def)

lemma triple_post:
  "triple p m q e \<Longrightarrow> (\<And>a db. q a db \<Longrightarrow> q' a db) \<Longrightarrow> (\<And>r db. e r db \<Longrightarrow> e' r db) \<Longrightarrow> triple p m q' e'"
  unfolding triple_def by (fastforce split: prod.splits sum.splits)

lemma triple_serve:
  assumes "triple p m (\<lambda>r. q r) q" "p db" "serve m db = (r, db')"
  shows "q r db'"
  using assms unfolding triple_def serve_def
  by (auto split: prod.splits sum.splits dest!: spec [of _ "\<lparr>rn_db = db, rn_calls = 0\<rparr>"])

text \<open>Keeping an invariant, whatever is answered.\<close>

definition keeping :: "('d \<Rightarrow> bool) \<Rightarrow> ('d, 'r, 'a) handler \<Rightarrow> bool" where
  "keeping p m = triple p m (\<lambda>_. p) (\<lambda>_. p)"

named_theorems keeping_intros \<open>handlers that keep an invariant\<close>

lemma keeping_ret [keeping_intros, intro]: "keeping p (ret a)"
  by (simp add: keeping_def triple_ret)

lemma keeping_respond [keeping_intros, intro]: "keeping p (respond r)"
  by (simp add: keeping_def triple_respond)

lemma keeping_draw [keeping_intros, intro]: "keeping p (draw f)"
  by (simp add: keeping_def triple_draw)

lemma keeping_andthen [keeping_intros, intro]:
  "keeping p m \<Longrightarrow> (\<And>a. keeping p (f a)) \<Longrightarrow> keeping p (andthen m f)"
  unfolding keeping_def by (rule triple_andthen)

lemma keeping_need [keeping_intros, intro]: "keeping p m \<Longrightarrow> keeping p (need g m)"
  unfolding need_def by (rule keeping_andthen) (auto split: sum.split)

lemma keeping_unless [keeping_intros, intro]: "(\<not> b \<Longrightarrow> keeping p m) \<Longrightarrow> keeping p (unless b r m)"
  by (auto simp: unless_def)

lemma keeping_must [keeping_intros, intro]: "keeping p (must r x)"
  by (auto simp: must_def split: option.split)

lemma keeping_cases [keeping_intros]:
  "\<lbrakk>b \<Longrightarrow> keeping p m; \<not> b \<Longrightarrow> keeping p n\<rbrakk> \<Longrightarrow> keeping p (if b then m else n)"
  "\<lbrakk>x = None \<Longrightarrow> keeping p m; \<And>a. x = Some a \<Longrightarrow> keeping p (f a)\<rbrakk> \<Longrightarrow> keeping p (case x of None \<Rightarrow> m | Some a \<Rightarrow> f a)"
  "\<lbrakk>\<And>e. y = Inl e \<Longrightarrow> keeping p (g e); \<And>a. y = Inr a \<Longrightarrow> keeping p (h a)\<rbrakk>
     \<Longrightarrow> keeping p (case y of Inl e \<Rightarrow> g e | Inr a \<Rightarrow> h a)"
  "\<lbrakk>b \<Longrightarrow> keeping p m; \<not> b \<Longrightarrow> keeping p n\<rbrakk> \<Longrightarrow> keeping p (case b of True \<Rightarrow> m | False \<Rightarrow> n)"
  "(\<And>c d. z = (c, d) \<Longrightarrow> keeping p (k c d)) \<Longrightarrow> keeping p (case z of (c, d) \<Rightarrow> k c d)"
  "keeping p (l v) \<Longrightarrow> keeping p (let u = v in l u)"
  by (auto split: option.split sum.split bool.split prod.split simp: Let_def)

text \<open>The others keep the invariant, too.\<close>

definition calm :: "('d \<Rightarrow> bool) \<Rightarrow> 'd world \<Rightarrow> bool" where
  "calm p w = (\<forall>n db. p db \<longrightarrow> p (wd_other w n db))"

lemma obeys_calm: "obeys rely w \<Longrightarrow> stable rely p \<Longrightarrow> calm p w"
  by (auto simp: obeys_def stable_def calm_def)

lemma calm_obeys:
  assumes "calm p w"
  shows "obeys (\<lambda>db db'. p db \<longrightarrow> p db') w" "stable (\<lambda>db db'. p db \<longrightarrow> p db') p"
  using assms by (auto simp: obeys_def calm_def stable_def)

lemma keeping_stmt [keeping_intros]:
  assumes "calm p w" "\<And>db. p db \<Longrightarrow> p (snd (f db))"
  shows "keeping p (stmt w f)"
  unfolding keeping_def by (rule triple_stmt [OF calm_obeys(1) [OF assms(1)] calm_obeys(2) [OF assms(1)]]) (use assms(2) in auto)

lemma keeping_stmt_at [keeping_intros]:
  assumes "calm p w" "\<And>now db. p db \<Longrightarrow> p (snd (f now db))"
  shows "keeping p (stmt_at w f)"
  unfolding keeping_def by (rule triple_stmt_at [OF calm_obeys(1) [OF assms(1)] calm_obeys(2) [OF assms(1)]]) (use assms(2) in auto)

lemma keeping_serve:
  assumes "keeping p m" "p db"
  shows "p (snd (serve m db))"
proof -
  obtain r db' where "serve m db = (r, db')" by fastforce
  then show ?thesis using triple_serve [of p m "\<lambda>_. p" db r db'] assms by (simp add: keeping_def)
qed

lemma stmt_simps [simp]:
  "snd (reading f db) = db" "fst (reading f db) = Inr (f db)"
  "snd (writing g db) = g db" "fst (writing g db) = Inr ()"
  by (simp_all add: reading_def writing_def)

text \<open>Nobody else acts and nothing fails.\<close>

definition alone :: "'d world \<Rightarrow> bool" where
  "alone w = ((\<forall>n. wd_fault w n = None) \<and> (\<forall>n db. wd_other w n db = db))"

definition solitary :: "'d world \<Rightarrow> bool" where
  "solitary w = (\<forall>n db. wd_other w n db = db)"

lemma solitary_obeys: "solitary w \<Longrightarrow> obeys (=) w"
  by (simp add: solitary_def obeys_def)

lemma stable_eq [simp]: "stable (=) p"
  by (simp add: stable_def)

lemma stmt_alone: "alone w \<Longrightarrow> stmt w q s = (case q (rn_db s) of (res, db) \<Rightarrow> (Inr res, \<lparr>rn_db = db, rn_calls = Suc (rn_calls s)\<rparr>))"
  by (simp add: alone_def stmt_def Let_def)

text \<open>Reading off how a run came to its answer; the early returns of each step are its left injections.\<close>

named_theorems outcomes \<open>how a handler gave its outcome\<close>

lemma ret_outcome [outcomes]: "ret a s = (x, s') \<longleftrightarrow> x = Inr a \<and> s' = s"
  by (auto simp: ret_def)

lemma respond_outcome [outcomes]: "respond r s = (x, s') \<longleftrightarrow> x = Inl r \<and> s' = s"
  by (auto simp: respond_def)

lemma andthen_outcome [outcomes]:
  "andthen m f s = (x, s') \<longleftrightarrow>
     (\<exists>r. m s = (Inl r, s') \<and> x = Inl r) \<or> (\<exists>a s1. m s = (Inr a, s1) \<and> f a s1 = (x, s'))"
  by (cases "m s"; cases "fst (m s)") (auto simp: andthen_def)

lemma draw_outcome [outcomes]:
  "draw f s = (x, s') \<longleftrightarrow> x = Inr (f (rn_calls s)) \<and> s' = s\<lparr>rn_calls := Suc (rn_calls s)\<rparr>"
  by (auto simp: draw_def)

lemma unless_outcome [outcomes]: "unless b r m s = (x, s') \<longleftrightarrow> b \<and> x = Inl r \<and> s' = s \<or> \<not> b \<and> m s = (x, s')"
  by (auto simp: unless_def respond_def)

lemma must_outcome [outcomes]:
  "must r a s = (x, s') \<longleftrightarrow> s' = s \<and> (a = None \<and> x = Inl r \<or> (\<exists>v. a = Some v \<and> x = Inr v))"
  by (cases a) (auto simp: must_def ret_def respond_def)

lemma need_outcome [outcomes]:
  "need g m s = (x, s') \<longleftrightarrow>
     (\<exists>r. m s = (Inl r, s') \<and> x = Inl r) \<or> (\<exists>e. m s = (Inr (Inl e), s') \<and> x = Inl (g e))
     \<or> (\<exists>a. m s = (Inr (Inr a), s') \<and> x = Inr a)"
  by (cases "m s"; cases "fst (m s)") (auto simp: need_def andthen_def ret_def respond_def split: sum.split)

lemma not_error_outcome [outcomes]: "(\<forall>e. a \<noteq> Inl e) \<longleftrightarrow> (\<exists>b. a = Inr b)"
  by (cases a) auto

definition seen :: "'d world \<Rightarrow> 'd run \<Rightarrow> 'd" where
  "seen w s = wd_other w (rn_calls s) (rn_db s)"

lemma seen_solitary [simp]: "solitary w \<Longrightarrow> seen w s = rn_db s"
  by (simp add: seen_def solitary_def)

lemma stmt_outcome [outcomes]:
  "stmt w q s = (x, s') \<longleftrightarrow>
     (\<exists>e. wd_fault w (rn_calls s) = Some e \<and> x = Inr (Inl e) \<and> s' = \<lparr>rn_db = seen w s, rn_calls = Suc (rn_calls s)\<rparr>)
     \<or> (wd_fault w (rn_calls s) = None \<and> x = Inr (fst (q (seen w s)))
        \<and> s' = \<lparr>rn_db = snd (q (seen w s)), rn_calls = Suc (rn_calls s)\<rparr>)"
  by (auto simp: stmt_def Let_def seen_def split: option.splits prod.splits)

lemma stmt_at_outcome [outcomes]:
  "stmt_at w q s = (x, s') \<longleftrightarrow> stmt w (q (wd_now w (rn_calls s))) s = (x, s')"
  by (simp add: stmt_at_def)

lemma serve_outcome:
  "serve m db = (r, db') \<longleftrightarrow> (\<exists>x s'. m \<lparr>rn_db = db, rn_calls = 0\<rparr> = (x, s') \<and> (x = Inl r \<or> x = Inr r) \<and> db' = rn_db s')"
  by (cases "m \<lparr>rn_db = db, rn_calls = 0\<rparr>"; cases "fst (m \<lparr>rn_db = db, rn_calls = 0\<rparr>)") (auto simp: serve_def)

text \<open>Running a handler forward.\<close>

lemma stmt_runs:
  "wd_fault w (rn_calls s) = None \<Longrightarrow>
   stmt w q s = (Inr (fst (q (seen w s))), \<lparr>rn_db = snd (q (seen w s)), rn_calls = Suc (rn_calls s)\<rparr>)"
  by (simp add: stmt_def seen_def Let_def split: prod.split)

lemmas runs = andthen_def ret_def respond_def draw_def unless_def must_def need_def stmt_at_def

text \<open>The answers of early returns.\<close>

definition early :: "('r \<Rightarrow> bool) \<Rightarrow> ('d, 'r, 'a) handler \<Rightarrow> bool" where
  "early P m = (\<forall>s r s'. m s = (Inl r, s') \<longrightarrow> P r)"

named_theorems early_intros \<open>the answers of early returns\<close>

lemma early_steps [early_intros]:
  "early P (ret a)" "early P (draw f)" "early P (stmt w q)" "early P (stmt_at w q')"
  "P r \<Longrightarrow> early P (respond r)" "P r \<Longrightarrow> early P (must r x)"
  by (auto simp: early_def outcomes)

lemma early_andthen [early_intros]: "early P m \<Longrightarrow> (\<And>a. early P (f a)) \<Longrightarrow> early P (andthen m f)"
  unfolding early_def by (fastforce simp: andthen_outcome)

lemma early_need [early_intros]: "early P m \<Longrightarrow> (\<And>e. P (g e)) \<Longrightarrow> early P (need g m)"
  unfolding early_def by (auto simp: need_outcome)

lemma early_unless [early_intros]: "P r \<Longrightarrow> early P m \<Longrightarrow> early P (unless b r m)"
  unfolding early_def by (auto simp: unless_outcome)

lemma early_cases [early_intros]:
  "early P m \<Longrightarrow> early P n \<Longrightarrow> early P (if b then m else n)"
  "early P m \<Longrightarrow> (\<And>a. early P (f a)) \<Longrightarrow> early P (case x of None \<Rightarrow> m | Some a \<Rightarrow> f a)"
  "(\<And>e. early P (g e)) \<Longrightarrow> (\<And>a. early P (h a)) \<Longrightarrow> early P (case y of Inl e \<Rightarrow> g e | Inr a \<Rightarrow> h a)"
  "early P m \<Longrightarrow> early P n \<Longrightarrow> early P (case b of True \<Rightarrow> m | False \<Rightarrow> n)"
  "(\<And>c d. early P (k c d)) \<Longrightarrow> early P (case z of (c, d) \<Rightarrow> k c d)"
  "early P (l v) \<Longrightarrow> early P (let u = v in l u)"
  by (auto split: option.split sum.split bool.split prod.split simp: Let_def)

lemma early_serve:
  "early P m \<Longrightarrow> serve m db = (r, db') \<Longrightarrow> \<not> P r
     \<Longrightarrow> \<exists>s'. m \<lparr>rn_db = db, rn_calls = 0\<rparr> = (Inr r, s') \<and> db' = rn_db s'"
  by (auto simp: early_def serve_outcome)

lemma calm_solitary [simp]: "solitary w \<Longrightarrow> calm p w"
  by (simp add: solitary_def calm_def)

end
