(* ===== verification/Identity.thy ===== *)
theory Identity
  imports Handler Generations
begin

text \<open>
  The tables behind accounts and organizations and the statements on them (\<open>db/sqlite.rs\<close>): users,
  sessions, invitations, password resets, login attempts, organizations, their members,
  applications, stored credentials and model lists, and the tenant tables that deleting an
  organization or an application clears.

  A statement checks the unique columns and the foreign keys it writes. A table whose rows nothing
  else here reads keeps only their tenant.
\<close>

section \<open>Rows\<close>

record account =
  ac_id :: string
  ac_email :: string
  ac_password_hash :: "string option"
  ac_role :: role
  ac_github_id :: "string option"
  ac_google_id :: "string option"
  ac_created_at :: datetime
  ac_updated_at :: datetime
  ac_last_login_at :: "datetime option"
  ac_is_active :: bool

record invitation =
  iv_id :: string
  iv_email :: string
  iv_role :: role
  iv_token :: string
  iv_invited_by :: "string option"
  iv_org_id :: string
  iv_expires_at :: datetime
  iv_used_at :: "datetime option"
  iv_created_at :: datetime

record password_reset =
  pw_token :: string
  pw_user_id :: string
  pw_expires_at :: datetime
  pw_used_at :: "datetime option"
  pw_created_at :: datetime

record login_attempt =
  la_email :: string
  la_at :: datetime
  la_success :: bool

record organization =
  og_id :: string
  og_name :: string
  og_slug :: string
  og_plan :: string
  og_status :: string
  og_created_at :: datetime
  og_updated_at :: datetime

record application =
  ap_id :: string
  ap_org_id :: string
  ap_name :: string
  ap_slug :: string
  ap_status :: string
  ap_created_at :: datetime
  ap_updated_at :: datetime

record membership =
  mb_org_id :: string
  mb_user_id :: string
  mb_role :: role
  mb_created_at :: datetime

record stored_credential =
  sc_org_id :: string
  sc_provider :: string
  sc_ciphertext :: string
  sc_nonce :: string
  sc_display_hint :: "string option"
  sc_created_at :: datetime
  sc_updated_at :: datetime

record app_storage =
  as_app_id :: string
  as_backend :: string
  as_bucket_name :: string
  as_region :: string
  as_endpoint_url :: "string option"
  as_custom_public_url :: "string option"
  as_path_prefix :: "string option"
  as_access_key_id_hint :: "string option"
  as_secret_ciphertext :: string
  as_secret_nonce :: string
  as_updated_at :: datetime

record tenant_row =
  tr_org_id :: "string option"
  tr_app_id :: "string option"

record org_audit =
  oa_actor_key_id :: "uuid option"
  oa_actor_label :: string
  oa_action :: string
  oa_target_type :: string
  oa_target_id :: string
  oa_org_id :: "string option"

record store =
  st_users :: "account list"
  st_sessions :: "session_row list"
  st_invitations :: "invitation list"
  st_resets :: "password_reset list"
  st_attempts :: "login_attempt list"
  st_orgs :: "organization list"
  st_members :: "membership list"
  st_apps :: "application list"
  st_credentials :: "stored_credential list"
  st_storage :: "app_storage list"
  st_org_models :: "(string \<times> string) list"
  st_app_access :: "(string \<times> string) list"
  st_app_models :: "(string \<times> string) list"
  st_keys :: "api_key list"
  st_gens :: "gen_row list"
  st_logs :: "tenant_row list"
  st_artifacts :: "tenant_row list"
  st_deliveries :: "tenant_row list"
  st_audit :: "org_audit list"

type_synonym 'a query = "store \<Rightarrow> (string + 'a) \<times> store"

definition unique_violation :: "string \<Rightarrow> string" where
  "unique_violation column = ''error returned from database: (code: 2067) UNIQUE constraint failed: '' @ column"

definition foreign_key_error :: string where
  "foreign_key_error = ''error returned from database: (code: 787) FOREIGN KEY constraint failed''"

text \<open>The rows of a table with a field changed where a condition holds.\<close>

definition change_rows :: "('a \<Rightarrow> bool) \<Rightarrow> ('a \<Rightarrow> 'a) \<Rightarrow> 'a list \<Rightarrow> 'a list" where
  "change_rows p f rows = map (\<lambda>r. if p r then f r else r) rows"

section \<open>Users\<close>

definition find_user :: "string \<Rightarrow> store \<Rightarrow> account option" where
  "find_user i db = find (\<lambda>u. ac_id u = i) (st_users db)"

definition get_user_by_email :: "string \<Rightarrow> account option query" where
  "get_user_by_email email = reading (\<lambda>db. find (\<lambda>u. ac_email u = email) (st_users db))"

definition get_user_by_id :: "string \<Rightarrow> account option query" where
  "get_user_by_id i = reading (find_user i)"

text \<open>The provider's column of a user.\<close>

definition oauth_id_of :: "string \<Rightarrow> account \<Rightarrow> string option" where
  "oauth_id_of provider u =
     (if provider = ''github'' then ac_github_id u
      else if provider = ''google'' then ac_google_id u else None)"

definition get_user_by_oauth :: "string \<Rightarrow> string \<Rightarrow> account option query" where
  "get_user_by_oauth provider oauth_id =
     reading (\<lambda>db. find (\<lambda>u. oauth_id_of provider u = Some oauth_id) (st_users db))"

definition clashes :: "'a option \<Rightarrow> 'a option \<Rightarrow> bool" where
  "clashes x y = (x \<noteq> None \<and> x = y)"

definition user_conflict :: "account \<Rightarrow> account list \<Rightarrow> string option" where
  "user_conflict u users =
     (if list_ex (\<lambda>x. ac_id x = ac_id u) users then Some ''users.id''
      else if list_ex (\<lambda>x. ac_email x = ac_email u) users then Some ''users.email''
      else if list_ex (\<lambda>x. clashes (ac_github_id x) (ac_github_id u)) users then Some ''users.oauth_github_id''
      else if list_ex (\<lambda>x. clashes (ac_google_id x) (ac_google_id u)) users then Some ''users.oauth_google_id''
      else None)"

definition create_user :: "account \<Rightarrow> unit query" where
  "create_user u db =
     (case user_conflict u (st_users db) of
        Some column \<Rightarrow> (Inl (unique_violation column), db)
      | None \<Rightarrow> (Inr (), db\<lparr>st_users := st_users db @ [u]\<rparr>))"

definition update_user_row ::
  "string \<Rightarrow> role option \<Rightarrow> bool option \<Rightarrow> string option \<Rightarrow> datetime \<Rightarrow> bool query" where
  "update_user_row i role active hash now db =
     (let f = (\<lambda>u. u\<lparr>ac_role := unwrap_or (ac_role u) role, ac_is_active := unwrap_or (ac_is_active u) active,
                  ac_password_hash := opt_or hash (ac_password_hash u), ac_updated_at := now\<rparr>)
      in (Inr (find_user i db \<noteq> None), db\<lparr>st_users := change_rows (\<lambda>u. ac_id u = i) f (st_users db)\<rparr>))"

definition update_user ::
  "store world \<Rightarrow> string \<Rightarrow> role option \<Rightarrow> bool option \<Rightarrow> string option
   \<Rightarrow> (store, 'r, string + account option) handler" where
  "update_user w i role active hash =
     andthen (stmt_at w (update_user_row i role active hash)) (\<lambda>r. case r of
        Inl e \<Rightarrow> ret (Inl e)
      | Inr False \<Rightarrow> ret (Inr None)
      | Inr True \<Rightarrow> stmt w (get_user_by_id i))"

definition touch_last_login :: "string \<Rightarrow> datetime \<Rightarrow> unit query" where
  "touch_last_login i now = writing (st_users_update (change_rows (\<lambda>u. ac_id u = i)
     (\<lambda>u. u\<lparr>ac_last_login_at := Some now, ac_updated_at := now\<rparr>)))"

definition count_users :: "i64 query" where
  "count_users = reading (\<lambda>db. int (length (st_users db)))"

definition list_user_rows :: "account list query" where
  "list_user_rows = reading (\<lambda>db. sort_key (\<lambda>u. - ac_created_at u) (st_users db))"

definition link_oauth :: "string \<Rightarrow> string \<Rightarrow> string \<Rightarrow> datetime \<Rightarrow> unit query" where
  "link_oauth i provider oauth_id now db =
     (if provider \<noteq> ''github'' \<and> provider \<noteq> ''google'' then (Inr (), db)
      else if list_ex (\<lambda>u. ac_id u \<noteq> i \<and> oauth_id_of provider u = Some oauth_id) (st_users db)
              \<and> list_ex (\<lambda>u. ac_id u = i) (st_users db)
      then (Inl (unique_violation (''users.oauth_'' @ provider @ ''_id'')), db)
      else (Inr (), db\<lparr>st_users := change_rows (\<lambda>u. ac_id u = i)
        (\<lambda>u. (if provider = ''github'' then u\<lparr>ac_github_id := Some oauth_id\<rparr>
              else u\<lparr>ac_google_id := Some oauth_id\<rparr>)\<lparr>ac_updated_at := now\<rparr>) (st_users db)\<rparr>))"

text \<open>Two updates in one transaction.\<close>

definition transfer_user_owner :: "string \<Rightarrow> datetime \<Rightarrow> unit query" where
  "transfer_user_owner i now = writing (st_users_update (\<lambda>users.
     change_rows (\<lambda>u. ac_id u = i) (\<lambda>u. u\<lparr>ac_role := Owner, ac_updated_at := now\<rparr>)
       (change_rows (\<lambda>u. ac_role u = Owner) (\<lambda>u. u\<lparr>ac_role := Admin, ac_updated_at := now\<rparr>) users)))"

section \<open>Sessions\<close>

definition create_session :: "session_row \<Rightarrow> unit query" where
  "create_session sess db =
     (if list_ex (\<lambda>x. sn_id x = sn_id sess) (st_sessions db) then (Inl (unique_violation ''sessions.id''), db)
      else if find_user (sn_user_id sess) db = None then (Inl foreign_key_error, db)
      else (Inr (), db\<lparr>st_sessions := st_sessions db @ [sess]\<rparr>))"

definition get_session :: "string \<Rightarrow> session_row option query" where
  "get_session i = reading (\<lambda>db. find (\<lambda>x. sn_id x = i) (st_sessions db))"

definition delete_session :: "string \<Rightarrow> unit query" where
  "delete_session i = writing (st_sessions_update (filter (\<lambda>x. sn_id x \<noteq> i)))"

definition delete_user_sessions :: "string \<Rightarrow> string option \<Rightarrow> unit query" where
  "delete_user_sessions user except = writing (st_sessions_update
     (filter (\<lambda>x. sn_user_id x \<noteq> user \<or> except = Some (sn_id x))))"

definition list_user_sessions :: "string \<Rightarrow> session_row list query" where
  "list_user_sessions user =
     reading (\<lambda>db. sort_key (\<lambda>x. - sn_created_at x) (filter (\<lambda>x. sn_user_id x = user) (st_sessions db)))"

section \<open>Invitations and password resets\<close>

definition create_invitation :: "invitation \<Rightarrow> unit query" where
  "create_invitation iv db =
     (if list_ex (\<lambda>x. iv_id x = iv_id iv) (st_invitations db) then (Inl (unique_violation ''invitations.id''), db)
      else if list_ex (\<lambda>x. iv_token x = iv_token iv) (st_invitations db)
      then (Inl (unique_violation ''invitations.token''), db)
      else if (case iv_invited_by iv of Some u \<Rightarrow> find_user u db = None | None \<Rightarrow> False)
      then (Inl foreign_key_error, db)
      else (Inr (), db\<lparr>st_invitations := st_invitations db @ [iv]\<rparr>))"

definition find_invitation :: "string \<Rightarrow> store \<Rightarrow> invitation option" where
  "find_invitation token db = find (\<lambda>x. iv_token x = token) (st_invitations db)"

definition get_invitation_row :: "string \<Rightarrow> invitation option query" where
  "get_invitation_row token = reading (find_invitation token)"

text \<open>A conditional update: only the first caller finds the row unused.\<close>

definition mark_invitation_used :: "string \<Rightarrow> datetime \<Rightarrow> bool query" where
  "mark_invitation_used token now db =
     (let p = (\<lambda>x. iv_token x = token \<and> iv_used_at x = None) in
      (Inr (list_ex p (st_invitations db)),
       db\<lparr>st_invitations := change_rows p (\<lambda>x. x\<lparr>iv_used_at := Some now\<rparr>) (st_invitations db)\<rparr>))"

definition find_reset :: "string \<Rightarrow> store \<Rightarrow> password_reset option" where
  "find_reset token db = find (\<lambda>x. pw_token x = token) (st_resets db)"

definition create_password_reset :: "password_reset \<Rightarrow> unit query" where
  "create_password_reset r db =
     (if find_reset (pw_token r) db \<noteq> None then (Inl (unique_violation ''password_resets.token''), db)
      else if find_user (pw_user_id r) db = None then (Inl foreign_key_error, db)
      else (Inr (), db\<lparr>st_resets := st_resets db @ [r]\<rparr>))"

definition get_password_reset :: "string \<Rightarrow> password_reset option query" where
  "get_password_reset token = reading (find_reset token)"

definition mark_password_reset_used :: "string \<Rightarrow> datetime \<Rightarrow> bool query" where
  "mark_password_reset_used token now db =
     (let p = (\<lambda>x. pw_token x = token \<and> pw_used_at x = None) in
      (Inr (list_ex p (st_resets db)),
       db\<lparr>st_resets := change_rows p (\<lambda>x. x\<lparr>pw_used_at := Some now\<rparr>) (st_resets db)\<rparr>))"

section \<open>Login attempts\<close>

definition record_login_attempt :: "string \<Rightarrow> bool \<Rightarrow> datetime \<Rightarrow> unit query" where
  "record_login_attempt email success now =
     writing (st_attempts_update (\<lambda>xs. xs @ [\<lparr>la_email = email, la_at = now, la_success = success\<rparr>]))"

definition recent_failed_login_attempts :: "string \<Rightarrow> datetime \<Rightarrow> datetime list query" where
  "recent_failed_login_attempts email since = reading (\<lambda>db. rev (sort (map la_at
     (filter (\<lambda>a. la_email a = email \<and> \<not> la_success a \<and> since \<le> la_at a) (st_attempts db)))))"

section \<open>Organizations, members and applications\<close>

definition find_org :: "string \<Rightarrow> store \<Rightarrow> organization option" where
  "find_org i db = find (\<lambda>o'. og_id o' = i) (st_orgs db)"

definition find_app :: "string \<Rightarrow> store \<Rightarrow> application option" where
  "find_app i db = find (\<lambda>a. ap_id a = i) (st_apps db)"

definition create_organization :: "organization \<Rightarrow> unit query" where
  "create_organization o' db =
     (if find_org (og_id o') db \<noteq> None then (Inl (unique_violation ''organizations.id''), db)
      else if list_ex (\<lambda>x. og_slug x = og_slug o') (st_orgs db) then (Inl (unique_violation ''organizations.slug''), db)
      else (Inr (), db\<lparr>st_orgs := st_orgs db @ [o']\<rparr>))"

definition get_organization :: "string \<Rightarrow> organization option query" where
  "get_organization i = reading (find_org i)"

definition get_org_by_slug :: "string \<Rightarrow> organization option query" where
  "get_org_by_slug slug = reading (\<lambda>db. find (\<lambda>o'. og_slug o' = slug) (st_orgs db))"

text \<open>The membership of a user in an organization.\<close>

definition member_role :: "string \<Rightarrow> string \<Rightarrow> store \<Rightarrow> role option" where
  "member_role org user db =
     map_option mb_role (find (\<lambda>m. mb_org_id m = org \<and> mb_user_id m = user) (st_members db))"

definition list_orgs_for_user :: "string \<Rightarrow> (organization \<times> role) list query" where
  "list_orgs_for_user user = reading (\<lambda>db. sort_key (\<lambda>p. og_created_at (fst p))
     (List.map_filter (\<lambda>o'. map_option (Pair o') (member_role (og_id o') user db)) (st_orgs db)))"

definition rename_org_row :: "string \<Rightarrow> string \<Rightarrow> datetime \<Rightarrow> bool query" where
  "rename_org_row i name now db =
     (Inr (find_org i db \<noteq> None),
      db\<lparr>st_orgs := change_rows (\<lambda>o'. og_id o' = i) (\<lambda>o'. o'\<lparr>og_name := name, og_updated_at := now\<rparr>) (st_orgs db)\<rparr>)"

definition update_organization ::
  "store world \<Rightarrow> string \<Rightarrow> string option \<Rightarrow> (store, 'r, string + organization option) handler" where
  "update_organization w i name =
     (case name of
        None \<Rightarrow> stmt w (get_organization i)
      | Some n \<Rightarrow> andthen (stmt_at w (rename_org_row i n)) (\<lambda>r. case r of
            Inl e \<Rightarrow> ret (Inl e)
          | Inr False \<Rightarrow> ret (Inr None)
          | Inr True \<Rightarrow> stmt w (get_organization i)))"

definition add_org_member :: "string \<Rightarrow> string \<Rightarrow> role \<Rightarrow> datetime \<Rightarrow> unit query" where
  "add_org_member org user role now db =
     (if member_role org user db \<noteq> None
      then (Inl (unique_violation ''organization_members.org_id, organization_members.user_id''), db)
      else if find_org org db = None \<or> find_user user db = None then (Inl foreign_key_error, db)
      else (Inr (), db\<lparr>st_members := st_members db @
        [\<lparr>mb_org_id = org, mb_user_id = user, mb_role = role, mb_created_at = now\<rparr>]\<rparr>))"

definition get_membership :: "string \<Rightarrow> string \<Rightarrow> role option query" where
  "get_membership org user = reading (member_role org user)"

definition list_org_members :: "string \<Rightarrow> (membership \<times> string) list query" where
  "list_org_members org = reading (\<lambda>db. sort_key (\<lambda>p. mb_created_at (fst p))
     (List.map_filter (\<lambda>m. if mb_org_id m = org
        then map_option (\<lambda>u. (m, ac_email u)) (find_user (mb_user_id m) db) else None) (st_members db)))"

definition update_member_role :: "string \<Rightarrow> string \<Rightarrow> role \<Rightarrow> unit query" where
  "update_member_role org user role = writing (st_members_update
     (change_rows (\<lambda>m. mb_org_id m = org \<and> mb_user_id m = user) (\<lambda>m. m\<lparr>mb_role := role\<rparr>)))"

definition remove_org_member :: "string \<Rightarrow> string \<Rightarrow> unit query" where
  "remove_org_member org user = writing (st_members_update
     (filter (\<lambda>m. \<not> (mb_org_id m = org \<and> mb_user_id m = user))))"

text \<open>One transaction: when the new owner is no member nothing changes, and the error is told apart.\<close>

definition transfer_org_owner :: "string \<Rightarrow> string \<Rightarrow> bool query" where
  "transfer_org_owner org user db =
     (if member_role org user db = None then (Inr False, db)
      else (Inr True, db\<lparr>st_members :=
        change_rows (\<lambda>m. mb_org_id m = org \<and> mb_user_id m = user) (\<lambda>m. m\<lparr>mb_role := Owner\<rparr>)
          (change_rows (\<lambda>m. mb_org_id m = org \<and> mb_role m = Owner) (\<lambda>m. m\<lparr>mb_role := Admin\<rparr>) (st_members db))\<rparr>))"

definition create_application :: "application \<Rightarrow> unit query" where
  "create_application a db =
     (if find_app (ap_id a) db \<noteq> None then (Inl (unique_violation ''applications.id''), db)
      else if list_ex (\<lambda>x. ap_org_id x = ap_org_id a \<and> ap_slug x = ap_slug a) (st_apps db)
      then (Inl (unique_violation ''applications.org_id, applications.slug''), db)
      else if find_org (ap_org_id a) db = None then (Inl foreign_key_error, db)
      else (Inr (), db\<lparr>st_apps := st_apps db @ [a]\<rparr>))"

definition get_application :: "string \<Rightarrow> application option query" where
  "get_application i = reading (find_app i)"

definition list_apps_for_org :: "string \<Rightarrow> application list query" where
  "list_apps_for_org org =
     reading (\<lambda>db. sort_key ap_created_at (filter (\<lambda>a. ap_org_id a = org) (st_apps db)))"

definition rename_app_row :: "string \<Rightarrow> string \<Rightarrow> datetime \<Rightarrow> bool query" where
  "rename_app_row i name now db =
     (Inr (find_app i db \<noteq> None),
      db\<lparr>st_apps := change_rows (\<lambda>a. ap_id a = i) (\<lambda>a. a\<lparr>ap_name := name, ap_updated_at := now\<rparr>) (st_apps db)\<rparr>)"

definition update_application ::
  "store world \<Rightarrow> string \<Rightarrow> string option \<Rightarrow> (store, 'r, string + application option) handler" where
  "update_application w i name =
     (case name of
        None \<Rightarrow> stmt w (get_application i)
      | Some n \<Rightarrow> andthen (stmt_at w (rename_app_row i n)) (\<lambda>r. case r of
            Inl e \<Rightarrow> ret (Inl e)
          | Inr False \<Rightarrow> ret (Inr None)
          | Inr True \<Rightarrow> stmt w (get_application i)))"

section \<open>Deletion of tenants\<close>

text \<open>
  The rows left when those of an organization, or of an application, are deleted. A generation that
  is kept must not refer to a key that is deleted, nor a row of another table to an application or
  organization that is; then the transaction fails.
\<close>

definition dangling_generations :: "gen_row list \<Rightarrow> api_key list \<Rightarrow> bool" where
  "dangling_generations gens gone =
     list_ex (\<lambda>r. list_ex (\<lambda>k. gn_key_id (gr_generation r) = Some (ky_id k)) gone) gens"

definition delete_organization :: "string \<Rightarrow> bool query" where
  "delete_organization org db =
     (let apps = map ap_id (filter (\<lambda>a. ap_org_id a = org) (st_apps db));
          gens = filter (\<lambda>r. row_org r \<noteq> Some org) (st_gens db);
          db' = db\<lparr>st_deliveries := filter (\<lambda>r. tr_org_id r \<noteq> Some org) (st_deliveries db),
                  st_artifacts := filter (\<lambda>r. tr_org_id r \<noteq> Some org) (st_artifacts db),
                  st_logs := filter (\<lambda>r. tr_org_id r \<noteq> Some org) (st_logs db),
                  st_gens := gens,
                  st_keys := filter (\<lambda>k. ky_org_id k \<noteq> Some org) (st_keys db),
                  st_audit := filter (\<lambda>e. oa_org_id e \<noteq> Some org) (st_audit db),
                  st_invitations := filter (\<lambda>i. iv_org_id i \<noteq> org) (st_invitations db),
                  st_credentials := filter (\<lambda>c. sc_org_id c \<noteq> org) (st_credentials db),
                  st_org_models := filter (\<lambda>m. fst m \<noteq> org) (st_org_models db),
                  st_members := filter (\<lambda>m. mb_org_id m \<noteq> org) (st_members db),
                  st_app_models := filter (\<lambda>m. fst m \<notin> set apps) (st_app_models db),
                  st_app_access := filter (\<lambda>m. fst m \<notin> set apps) (st_app_access db),
                  st_storage := filter (\<lambda>c. as_app_id c \<notin> set apps) (st_storage db),
                  st_apps := filter (\<lambda>a. ap_org_id a \<noteq> org) (st_apps db),
                  st_orgs := filter (\<lambda>o'. og_id o' \<noteq> org) (st_orgs db)\<rparr>
      in if dangling_generations gens (filter (\<lambda>k. ky_org_id k = Some org) (st_keys db))
         then (Inl foreign_key_error, db) else (Inr (find_org org db \<noteq> None), db'))"

definition delete_application :: "string \<Rightarrow> bool query" where
  "delete_application app db =
     (let gens = filter (\<lambda>r. gn_app_id (gr_generation r) \<noteq> Some app) (st_gens db);
          db' = db\<lparr>st_deliveries := filter (\<lambda>r. tr_app_id r \<noteq> Some app) (st_deliveries db),
                  st_artifacts := filter (\<lambda>r. tr_app_id r \<noteq> Some app) (st_artifacts db),
                  st_logs := filter (\<lambda>r. tr_app_id r \<noteq> Some app) (st_logs db),
                  st_gens := gens,
                  st_keys := filter (\<lambda>k. ky_app_id k \<noteq> Some app) (st_keys db),
                  st_app_models := filter (\<lambda>m. fst m \<noteq> app) (st_app_models db),
                  st_app_access := filter (\<lambda>m. fst m \<noteq> app) (st_app_access db),
                  st_storage := filter (\<lambda>c. as_app_id c \<noteq> app) (st_storage db),
                  st_apps := filter (\<lambda>a. ap_id a \<noteq> app) (st_apps db)\<rparr>
      in if dangling_generations gens (filter (\<lambda>k. ky_app_id k = Some app) (st_keys db))
         then (Inl foreign_key_error, db) else (Inr (find_app app db \<noteq> None), db'))"

section \<open>Credentials, storage and model lists\<close>

definition upsert_org_provider_credential ::
  "string \<Rightarrow> string \<Rightarrow> string \<Rightarrow> string \<Rightarrow> string option \<Rightarrow> datetime \<Rightarrow> unit query" where
  "upsert_org_provider_credential org provider ct nonce hint now db =
     (let p = (\<lambda>c. sc_org_id c = org \<and> sc_provider c = provider) in
      if list_ex p (st_credentials db)
      then (Inr (), db\<lparr>st_credentials := change_rows p (\<lambda>c. c\<lparr>sc_ciphertext := ct, sc_nonce := nonce,
             sc_display_hint := hint, sc_updated_at := now\<rparr>) (st_credentials db)\<rparr>)
      else if find_org org db = None then (Inl foreign_key_error, db)
      else (Inr (), db\<lparr>st_credentials := st_credentials db @ [\<lparr>sc_org_id = org, sc_provider = provider,
             sc_ciphertext = ct, sc_nonce = nonce, sc_display_hint = hint, sc_created_at = now, sc_updated_at = now\<rparr>]\<rparr>))"

definition get_org_provider_credential :: "string \<Rightarrow> string \<Rightarrow> (string \<times> string) option query" where
  "get_org_provider_credential org provider = reading (\<lambda>db. map_option (\<lambda>c. (sc_ciphertext c, sc_nonce c))
     (find (\<lambda>c. sc_org_id c = org \<and> sc_provider c = provider) (st_credentials db)))"

definition list_credentials :: "string \<Rightarrow> (string \<times> string option \<times> datetime) list query" where
  "list_credentials org = reading (\<lambda>db. map (\<lambda>c. (sc_provider c, sc_display_hint c, sc_created_at c))
     (sort_key sc_provider (filter (\<lambda>c. sc_org_id c = org) (st_credentials db))))"

definition delete_credential :: "string \<Rightarrow> string \<Rightarrow> bool query" where
  "delete_credential org provider db =
     (let p = (\<lambda>c. sc_org_id c = org \<and> sc_provider c = provider) in
      (Inr (list_ex p (st_credentials db)),
       db\<lparr>st_credentials := filter (\<lambda>c. \<not> p c) (st_credentials db)\<rparr>))"

definition upsert_app_storage :: "app_storage \<Rightarrow> datetime \<Rightarrow> unit query" where
  "upsert_app_storage row now db =
     (if list_ex (\<lambda>c. as_app_id c = as_app_id row) (st_storage db)
      then (Inr (), db\<lparr>st_storage := change_rows (\<lambda>c. as_app_id c = as_app_id row)
             (\<lambda>_. row\<lparr>as_updated_at := now\<rparr>) (st_storage db)\<rparr>)
      else if find_app (as_app_id row) db = None then (Inl foreign_key_error, db)
      else (Inr (), db\<lparr>st_storage := st_storage db @ [row\<lparr>as_updated_at := now\<rparr>]\<rparr>))"

definition get_storage :: "string \<Rightarrow> app_storage option query" where
  "get_storage app = reading (\<lambda>db. find (\<lambda>c. as_app_id c = app) (st_storage db))"

definition delete_storage :: "string \<Rightarrow> bool query" where
  "delete_storage app db =
     (Inr (list_ex (\<lambda>c. as_app_id c = app) (st_storage db)),
      db\<lparr>st_storage := filter (\<lambda>c. as_app_id c \<noteq> app) (st_storage db)\<rparr>)"

definition models_of :: "string \<Rightarrow> (string \<times> string) list \<Rightarrow> string list" where
  "models_of k rows = sort (map snd (filter (\<lambda>m. fst m = k) rows))"

definition get_org_models :: "string \<Rightarrow> string list query" where
  "get_org_models org = reading (\<lambda>db. models_of org (st_org_models db))"

text \<open>A transaction that deletes the old list and inserts the new one; a repeated model undoes it.\<close>

definition set_org_models :: "string \<Rightarrow> string list \<Rightarrow> unit query" where
  "set_org_models org models db =
     (if \<not> distinct models
      then (Inl (unique_violation ''org_allowed_models.org_id, org_allowed_models.model_id''), db)
      else if models \<noteq> [] \<and> find_org org db = None then (Inl foreign_key_error, db)
      else (Inr (), db\<lparr>st_org_models := filter (\<lambda>m. fst m \<noteq> org) (st_org_models db) @ map (Pair org) models\<rparr>))"

definition get_app_mode :: "string \<Rightarrow> string query" where
  "get_app_mode app = reading (\<lambda>db. unwrap_or ''all'' (map_of (st_app_access db) app))"

definition get_app_models :: "string \<Rightarrow> string list query" where
  "get_app_models app = reading (\<lambda>db. models_of app (st_app_models db))"

definition get_app_model_access ::
  "store world \<Rightarrow> string \<Rightarrow> (store, 'r, string + string \<times> string list) handler" where
  "get_app_model_access w app =
     andthen (stmt w (get_app_mode app)) (\<lambda>r. case r of
        Inl e \<Rightarrow> ret (Inl e)
      | Inr mode \<Rightarrow> andthen (stmt w (get_app_models app)) (\<lambda>r. case r of
            Inl e \<Rightarrow> ret (Inl e) | Inr ids \<Rightarrow> ret (Inr (mode, ids))))"

definition set_app_model_access :: "string \<Rightarrow> string \<Rightarrow> string list \<Rightarrow> unit query" where
  "set_app_model_access app mode models db =
     (if find_app app db = None then (Inl foreign_key_error, db)
      else if \<not> distinct models
      then (Inl (unique_violation ''app_model_access_ids.app_id, app_model_access_ids.model_id''), db)
      else (Inr (), db\<lparr>st_app_access := filter (\<lambda>m. fst m \<noteq> app) (st_app_access db) @ [(app, mode)],
                      st_app_models := filter (\<lambda>m. fst m \<noteq> app) (st_app_models db) @ map (Pair app) models\<rparr>))"

definition insert_audit :: "org_audit \<Rightarrow> unit query" where
  "insert_audit e = writing (st_audit_update (\<lambda>es. es @ [e]))"

end
