(* ===== verification/Accounts.thy ===== *)
theory Accounts
  imports Identity
begin

text \<open>
  Accounts: signing up, logging in and out, password resets (\<open>api/handlers/auth_password.rs\<close>), the
  own account (\<open>account.rs\<close>), the users of the platform and invitations (\<open>users.rs\<close>), password
  hashing (\<open>auth/password.rs\<close>), the sessions behind the cookies (\<open>api/middleware/mod.rs\<close>) and slugs
  (\<open>util/slug.rs\<close>).

  Unicode's lower case and its letters and digits, Argon2, SHA-256, AES-GCM, base64 and the text of
  JSON values are parameters, and the flags
  of the process are part of the environment. Entries of the audit log are kept in the order in
  which they are handed to the task that writes them; their random ids, times and JSON images are
  left out.
\<close>

record id_env =
  ie_mode :: mode
  ie_allow_password :: bool
  ie_owner_email :: "string option"
  ie_expose_resets :: bool
  ie_expose_invites :: bool
  ie_oauth_providers :: "string list"
  ie_lower :: "string \<Rightarrow> string"
  ie_alphanumeric :: "string \<Rightarrow> bool"
  ie_argon2 :: "u8 list \<Rightarrow> string \<Rightarrow> string + string"
  ie_argon2_verify :: "string \<Rightarrow> string \<Rightarrow> string + bool"
  ie_sha256 :: "string \<Rightarrow> u8 list"
  ie_secrets_key :: "u8 list option"
  ie_seal :: "u8 list \<Rightarrow> u8 list \<Rightarrow> u8 list \<Rightarrow> string + u8 list"
  ie_open :: "u8 list \<Rightarrow> u8 list \<Rightarrow> u8 list \<Rightarrow> string + u8 list"
  ie_base64 :: "u8 list \<Rightarrow> string"
  ie_unbase64 :: "string \<Rightarrow> string + u8 list"
  ie_json_text :: "json \<Rightarrow> u8 list"

section \<open>Passwords\<close>

datatype password_error = TooShort | HashError string | VerifyError string

definition MIN_PASSWORD_LEN :: nat where "MIN_PASSWORD_LEN = 12"

definition hash_password :: "id_env \<Rightarrow> u8 list \<Rightarrow> string \<Rightarrow> password_error + string" where
  "hash_password env salt plain =
     (if length plain < MIN_PASSWORD_LEN then Inl TooShort
      else case ie_argon2 env salt plain of Inl e \<Rightarrow> Inl (HashError e) | Inr h \<Rightarrow> Inr h)"

definition verify_password :: "id_env \<Rightarrow> string \<Rightarrow> string \<Rightarrow> password_error + bool" where
  "verify_password env plain phc =
     (case ie_argon2_verify env plain phc of Inl e \<Rightarrow> Inl (VerifyError e) | Inr b \<Rightarrow> Inr b)"

definition password_message :: "password_error \<Rightarrow> string" where
  "password_message e = (case e of
     TooShort \<Rightarrow> ''password must be at least 12 characters''
   | HashError m \<Rightarrow> ''argon2 hash error: '' @ m
   | VerifyError m \<Rightarrow> ''argon2 verify error: '' @ m)"

definition verified :: "id_env \<Rightarrow> string \<Rightarrow> string \<Rightarrow> bool" where
  "verified env plain phc = (verify_password env plain phc = Inr True)"

section \<open>Slugs\<close>

text \<open>The characters of a text, each with its bytes.\<close>

definition continuation :: "char \<Rightarrow> bool" where
  "continuation c = (128 \<le> byte c \<and> byte c < 192)"

fun chars_of :: "string \<Rightarrow> string list" where
  "chars_of [] = []"
| "chars_of (c # s) =
     (case chars_of s of
        (d # p) # ps \<Rightarrow> if continuation d then (c # d # p) # ps else [c] # (d # p) # ps
      | ps \<Rightarrow> [c] # ps)"

definition trim_dashes :: "string \<Rightarrow> string" where
  "trim_dashes s = rev (dropWhile (\<lambda>c. c = CHR ''-'') (rev (dropWhile (\<lambda>c. c = CHR ''-'') s)))"

definition slugify :: "id_env \<Rightarrow> string \<Rightarrow> string" where
  "slugify env s =
     (let slug = trim_dashes (concat (map (\<lambda>c. if ie_alphanumeric env c then c else ''-'')
            (chars_of (ie_lower env (trim s)))))
      in if slug = [] then ''org'' else slug)"

fun first_free ::
  "(string \<Rightarrow> (store, 'r, string + bool) handler) \<Rightarrow> string \<Rightarrow> nat list \<Rightarrow> (store, 'r, string + string option) handler" where
  "first_free taken base [] = ret (Inr None)"
| "first_free taken base (n # ns) =
     (let cand = base @ ''-'' @ nat_to_string n in
      andthen (taken cand) (\<lambda>r. case r of
        Inl e \<Rightarrow> ret (Inl e)
      | Inr True \<Rightarrow> first_free taken base ns
      | Inr False \<Rightarrow> ret (Inr (Some cand))))"

definition slug_taken :: "store world \<Rightarrow> string \<Rightarrow> (store, 'r, string + bool) handler" where
  "slug_taken w slug = andthen (stmt w (get_org_by_slug slug)) (\<lambda>r. case r of
     Inl e \<Rightarrow> ret (Inl e) | Inr x \<Rightarrow> ret (Inr (x \<noteq> None)))"

definition unique_org_slug :: "store world \<Rightarrow> string \<Rightarrow> (store, 'r, string + string) handler" where
  "unique_org_slug w base =
     andthen (slug_taken w base) (\<lambda>r. case r of
        Inl e \<Rightarrow> ret (Inl e)
      | Inr False \<Rightarrow> ret (Inr base)
      | Inr True \<Rightarrow> andthen (first_free (slug_taken w) base [2..<10000]) (\<lambda>r. case r of
            Inl e \<Rightarrow> ret (Inl e)
          | Inr (Some cand) \<Rightarrow> ret (Inr cand)
          | Inr None \<Rightarrow> andthen (draw (wd_uuid w)) (\<lambda>u. ret (Inr (base @ ''-'' @ uuid_text u)))))"

definition default_org_name_from_email :: "string \<Rightarrow> string" where
  "default_org_name_from_email email = hd (split_on CHR ''@'' email)"

section \<open>Sessions\<close>

definition days :: "int \<Rightarrow> int" where "days n = hours (24 * n)"

text \<open>The session token and the CSRF token of the cookies are those of the row.\<close>

definition create_session_cookies :: "store world \<Rightarrow> string \<Rightarrow> (store, 'r, string + session_row) handler" where
  "create_session_cookies w user =
     andthen (draw (wd_bytes w)) (\<lambda>token.
     andthen (draw (wd_bytes w)) (\<lambda>csrf.
     andthen (draw (wd_now w)) (\<lambda>created.
     andthen (draw (wd_now w)) (\<lambda>now.
     let sess = \<lparr>sn_id = hex_encode token, sn_user_id = user, sn_created_at = created,
           sn_expires_at = now + days 7, sn_ip = None, sn_user_agent = None, sn_csrf_token = hex_encode csrf\<rparr>
     in andthen (stmt w (create_session sess)) (\<lambda>r. case r of
          Inl e \<Rightarrow> ret (Inl e) | Inr _ \<Rightarrow> ret (Inr sess))))))"

section \<open>Responses\<close>

record public_user =
  pu_id :: string
  pu_email :: string
  pu_role :: string
  pu_created_at :: datetime
  pu_last_login_at :: "datetime option"
  pu_is_active :: bool

fun role_string :: "role \<Rightarrow> string" where
  "role_string Owner = ''owner''"
| "role_string Admin = ''admin''"
| "role_string Member = ''member''"
| "role_string Viewer = ''viewer''"

definition to_public_user :: "account \<Rightarrow> public_user" where
  "to_public_user u = \<lparr>pu_id = ac_id u, pu_email = ac_email u, pu_role = role_string (ac_role u),
     pu_created_at = ac_created_at u, pu_last_login_at = ac_last_login_at u, pu_is_active = ac_is_active u\<rparr>"

text \<open>A session as the account page shows it: the fingerprint of its token instead of the token.\<close>

record session_info =
  si_id :: string
  si_created_at :: datetime
  si_expires_at :: datetime
  si_ip :: "string option"
  si_user_agent :: "string option"

definition to_session_info :: "id_env \<Rightarrow> session_row \<Rightarrow> session_info" where
  "to_session_info env x = \<lparr>si_id = sha256_hex (ie_sha256 env) (sn_id x), si_created_at = sn_created_at x,
     si_expires_at = sn_expires_at x, si_ip = sn_ip x, si_user_agent = sn_user_agent x\<rparr>"

type_synonym org_view = "string \<times> string \<times> string"

datatype id_response =
  IdError nat string string
| PasswordAuthDisabled
| LockedOut i64
| SignedUp public_user org_view session_row
| LoggedIn public_user session_row
| LoggedOut
| AuthConfig bool "string list" bool
| Me user_context "(string \<times> string \<times> string) list" "string option" "string option"
| CsrfToken string
| ResetRequested "string option"
| UserView public_user
| UserViews "public_user list"
| SessionViews "session_info list"
| Invited string string string datetime "string option"
| InvitationView string string datetime
| NoContent
| NoContentClearingCookies

definition id_error :: "nat \<Rightarrow> string \<Rightarrow> string \<Rightarrow> id_response" where
  "id_error status code message = IdError status code message"

definition sanitized_500 :: "string \<Rightarrow> string \<Rightarrow> id_response" where
  "sanitized_500 code detail = id_error 500 code ''internal server error''"

definition db_error :: "string \<Rightarrow> id_response" where
  "db_error e = id_error 500 ''db_error'' e"

definition forbidden_perm :: "string \<Rightarrow> id_response" where
  "forbidden_perm perm = id_error 403 ''forbidden_permission'' (''Permission '' @ quoted perm @ '' required'')"

definition hash_or_fail ::
  "(string \<Rightarrow> string \<Rightarrow> id_response) \<Rightarrow> id_env \<Rightarrow> store world \<Rightarrow> string \<Rightarrow> (store, id_response, string) handler" where
  "hash_or_fail internal env w plain =
     andthen (draw (wd_bytes w)) (\<lambda>salt. case hash_password env salt plain of
        Inr h \<Rightarrow> ret h
      | Inl TooShort \<Rightarrow> respond (id_error 400 ''password_too_short'' ''Password must be at least 12 characters'')
      | Inl e \<Rightarrow> respond (internal ''hash_error'' (password_message e)))"

definition contains_text :: "string \<Rightarrow> string \<Rightarrow> bool" where
  "contains_text needle s = list_ex (\<lambda>i. starts_with needle (drop i s)) [0..<Suc (length s)]"

section \<open>Signing up and logging in\<close>

definition DEFAULT_APP_SLUG :: string where "DEFAULT_APP_SLUG = ''default''"

definition new_org :: "string \<Rightarrow> string \<Rightarrow> string \<Rightarrow> datetime \<Rightarrow> organization" where
  "new_org i name slug now = \<lparr>og_id = i, og_name = name, og_slug = slug, og_plan = ''free'',
     og_status = ''active'', og_created_at = now, og_updated_at = now\<rparr>"

definition new_app :: "string \<Rightarrow> string \<Rightarrow> string \<Rightarrow> string \<Rightarrow> datetime \<Rightarrow> application" where
  "new_app i org name slug now = \<lparr>ap_id = i, ap_org_id = org, ap_name = name, ap_slug = slug,
     ap_status = ''active'', ap_created_at = now, ap_updated_at = now\<rparr>"

definition org_name_for :: "string \<Rightarrow> string option \<Rightarrow> string" where
  "org_name_for email org_name =
     unwrap_or (default_org_name_from_email email) (opt_filter (\<lambda>n. n \<noteq> []) (map_option trim org_name))"

text \<open>The organization, its owner, and its first application, one statement after the other.\<close>

definition create_org_for_user ::
  "id_env \<Rightarrow> store world \<Rightarrow> string \<Rightarrow> string \<Rightarrow> string option \<Rightarrow> (store, string, org_view) handler" where
  "create_org_for_user env w user email org_name =
     andthen (draw (wd_now w)) (\<lambda>now.
     let name = org_name_for email org_name in
     andthen (need id (unique_org_slug w (slugify env name))) (\<lambda>slug.
     andthen (draw (wd_uuid w)) (\<lambda>u.
     let org = uuid_text u in
     andthen (need id (stmt w (create_organization (new_org org name slug now)))) (\<lambda>_.
     andthen (need id (stmt_at w (add_org_member org user Owner))) (\<lambda>_.
     andthen (draw (wd_uuid w)) (\<lambda>a.
     andthen (need id (stmt w (create_application (new_app (uuid_text a) org ''Default'' DEFAULT_APP_SLUG now)))) (\<lambda>_.
     ret (org, name, slug))))))))"

definition map_error :: "('e \<Rightarrow> 'f) \<Rightarrow> ('d, 'e, 'a) handler \<Rightarrow> ('d, 'f, 'a) handler" where
  "map_error g m s = (case m s of (Inl e, s') \<Rightarrow> (Inl (g e), s') | (Inr a, s') \<Rightarrow> (Inr a, s'))"

text \<open>A single tenant's only owner; an account of a hosted service must have a new address.\<close>

definition signup_gate :: "id_env \<Rightarrow> store world \<Rightarrow> string \<Rightarrow> (store, id_response, unit) handler" where
  "signup_gate env w email =
     (case ie_mode env of
        SingleTenant \<Rightarrow>
          andthen (need (sanitized_500 ''db_error'') (stmt w count_users)) (\<lambda>n.
          if 0 < n then respond (id_error 409 ''signup_closed'' ''Signup is closed: users already exist'')
          else case ie_owner_email env of
            None \<Rightarrow> ret ()
          | Some required \<Rightarrow>
              if ie_lower env (trim required) = email then ret ()
              else respond (id_error 403 ''owner_email_required''
                     (''Only '' @ required @ '' can claim the owner account'')))
      | Hosted \<Rightarrow>
          andthen (need (sanitized_500 ''db_error'') (stmt w (get_user_by_email email))) (\<lambda>u.
          if u = None then ret ()
          else respond (id_error 409 ''email_taken'' ''An account with that email already exists'')))"

definition signup_org ::
  "id_env \<Rightarrow> store world \<Rightarrow> string \<Rightarrow> string \<Rightarrow> string option \<Rightarrow> (store, id_response, org_view) handler" where
  "signup_org env w user email org_name =
     (case ie_mode env of
        SingleTenant \<Rightarrow>
          andthen (need (sanitized_500 ''db_error'') (stmt_at w (add_org_member DEFAULT_ORG_ID user Owner))) (\<lambda>_.
          andthen (stmt w (get_organization DEFAULT_ORG_ID)) (\<lambda>r. case r of
            Inr (Some o') \<Rightarrow> ret (og_id o', og_name o', og_slug o')
          | _ \<Rightarrow> ret (DEFAULT_ORG_ID, ''Default'', ''default'')))
      | Hosted \<Rightarrow> map_error (sanitized_500 ''db_error'') (create_org_for_user env w user email org_name))"

definition new_account :: "string \<Rightarrow> string \<Rightarrow> string \<Rightarrow> role \<Rightarrow> datetime \<Rightarrow> account" where
  "new_account i email hash role now = \<lparr>ac_id = i, ac_email = email, ac_password_hash = Some hash, ac_role = role,
     ac_github_id = None, ac_google_id = None, ac_created_at = now, ac_updated_at = now,
     ac_last_login_at = None, ac_is_active = True\<rparr>"

definition signup ::
  "id_env \<Rightarrow> store world \<Rightarrow> string \<Rightarrow> string \<Rightarrow> string option \<Rightarrow> (store, id_response, id_response) handler" where
  "signup env w email0 password org_name =
     (let email = ie_lower env (trim email0) in
      unless (\<not> ie_allow_password env) PasswordAuthDisabled (
      andthen (signup_gate env w email) (\<lambda>_.
      andthen (hash_or_fail sanitized_500 env w password) (\<lambda>hash.
      andthen (draw (wd_now w)) (\<lambda>now.
      andthen (draw (wd_uuid w)) (\<lambda>u.
      let user = new_account (''user-'' @ uuid_text u) email hash Owner now in
      andthen (need (\<lambda>e. let m = ie_lower env e in
           if contains_text ''unique'' m \<and> contains_text ''email'' m
           then id_error 409 ''email_taken'' ''An account with that email already exists''
           else sanitized_500 ''db_error'' e) (stmt w (create_user user))) (\<lambda>_.
      andthen (signup_org env w (ac_id user) email org_name) (\<lambda>view.
      andthen (need (sanitized_500 ''session_error'') (create_session_cookies w (ac_id user))) (\<lambda>sess.
      ret (SignedUp (to_public_user user) view sess))))))))))"

definition invalid_credentials :: id_response where
  "invalid_credentials = id_error 401 ''invalid_credentials'' ''Invalid email or password''"

definition or_default :: "'a \<Rightarrow> string + 'a \<Rightarrow> 'a" where
  "or_default d r = (case r of Inl _ \<Rightarrow> d | Inr a \<Rightarrow> a)"

definition password_matches :: "id_env \<Rightarrow> string \<Rightarrow> account \<Rightarrow> bool" where
  "password_matches env password u =
     (case ac_password_hash u of Some h \<Rightarrow> verified env password h | None \<Rightarrow> False)"

definition login :: "id_env \<Rightarrow> store world \<Rightarrow> string \<Rightarrow> string \<Rightarrow> (store, id_response, id_response) handler" where
  "login env w email0 password =
     (let email = ie_lower env (trim email0) in
      unless (\<not> ie_allow_password env) PasswordAuthDisabled (
      andthen (draw (wd_now w)) (\<lambda>now0.
      andthen (stmt w (recent_failed_login_attempts email (now0 - lockout_window))) (\<lambda>r.
      let fails = or_default [] r in
      andthen (draw (wd_now w)) (\<lambda>now.
      if is_locked_out fails now
      then andthen (draw (wd_now w)) (\<lambda>now'. respond (LockedOut (retry_after_seconds fails now')))
      else andthen (stmt w (get_user_by_email email)) (\<lambda>r.
      case opt_filter (\<lambda>u. password_matches env password u \<and> ac_is_active u) (or_default None r) of
        Some user \<Rightarrow>
          andthen (stmt_at w (record_login_attempt email True)) (\<lambda>_.
          andthen (stmt_at w (touch_last_login (ac_id user))) (\<lambda>_.
          andthen (need (sanitized_500 ''session_error'') (create_session_cookies w (ac_id user))) (\<lambda>sess.
          ret (LoggedIn (to_public_user user) sess))))
      | None \<Rightarrow> andthen (stmt_at w (record_login_attempt email False)) (\<lambda>_. respond invalid_credentials)))))))"

definition logout :: "store world \<Rightarrow> key_context \<Rightarrow> (store, id_response, id_response) handler" where
  "logout w ctx =
     (case kc_session_id ctx of
        Some sid \<Rightarrow> andthen (stmt w (delete_session sid)) (\<lambda>_. ret LoggedOut)
      | None \<Rightarrow> ret LoggedOut)"

definition auth_config :: "id_env \<Rightarrow> id_response" where
  "auth_config env = AuthConfig (ie_allow_password env) (ie_oauth_providers env) (ie_mode env = Hosted)"

definition me :: "store world \<Rightarrow> key_context \<Rightarrow> (store, id_response, id_response) handler" where
  "me w ctx =
     (case kc_user ctx of
        None \<Rightarrow> respond (id_error 401 ''not_authenticated'' ''Not logged in'')
      | Some u \<Rightarrow> andthen (stmt w (list_orgs_for_user (uc_user_id u))) (\<lambda>r.
          ret (Me u (map (\<lambda>(o', role). (og_id o', og_name o', role_string role)) (or_default [] r))
            (kc_org_id ctx) (kc_app_id ctx))))"

definition csrf_token :: "store world \<Rightarrow> key_context \<Rightarrow> (store, id_response, id_response) handler" where
  "csrf_token w ctx =
     (case kc_session_id ctx of
        None \<Rightarrow> respond (id_error 401 ''not_authenticated'' ''Not logged in'')
      | Some sid \<Rightarrow> andthen (stmt w (get_session sid)) (\<lambda>r. case r of
            Inr (Some sess) \<Rightarrow> ret (CsrfToken (sn_csrf_token sess))
          | _ \<Rightarrow> respond (id_error 401 ''session_not_found'' ''Session not found'')))"

section \<open>Password resets\<close>

definition password_reset_request :: "id_env \<Rightarrow> store world \<Rightarrow> string \<Rightarrow> (store, id_response, id_response) handler" where
  "password_reset_request env w email0 =
     (let email = ie_lower env (trim email0) in
      unless (\<not> ie_allow_password env) PasswordAuthDisabled (
      andthen (stmt w (get_user_by_email email)) (\<lambda>r. case r of
        Inr (Some user) \<Rightarrow>
          andthen (draw (wd_bytes w)) (\<lambda>b.
          andthen (draw (wd_now w)) (\<lambda>now.
          andthen (draw (wd_now w)) (\<lambda>created.
          let token = hex_encode b in
          andthen (stmt w (create_password_reset \<lparr>pw_token = token, pw_user_id = ac_id user,
              pw_expires_at = now + hours 1, pw_used_at = None, pw_created_at = created\<rparr>)) (\<lambda>_.
          ret (ResetRequested (if ie_expose_resets env then Some token else None))))))
      | _ \<Rightarrow> ret (ResetRequested None))))"

definition token_refused :: id_response where
  "token_refused = id_error 400 ''token_expired'' ''Token already used or expired''"

text \<open>The password is changed before the token is consumed.\<close>

definition password_reset_confirm ::
  "id_env \<Rightarrow> store world \<Rightarrow> string \<Rightarrow> string \<Rightarrow> (store, id_response, id_response) handler" where
  "password_reset_confirm env w token new_password =
     unless (\<not> ie_allow_password env) PasswordAuthDisabled (
     andthen (stmt w (get_password_reset token)) (\<lambda>r. case r of
       Inr (Some reset) \<Rightarrow>
         andthen (draw (wd_now w)) (\<lambda>now.
         unless (pw_used_at reset \<noteq> None \<or> pw_expires_at reset < now) token_refused (
         andthen (hash_or_fail sanitized_500 env w new_password) (\<lambda>hash.
         andthen (need (sanitized_500 ''db_error'') (update_user w (pw_user_id reset) None None (Some hash))) (\<lambda>_.
         andthen (need (sanitized_500 ''db_error'') (stmt_at w (mark_password_reset_used token))) (\<lambda>won.
         unless (\<not> won) token_refused (
         andthen (stmt w (delete_user_sessions (pw_user_id reset) None)) (\<lambda>_. ret NoContent)))))))
     | _ \<Rightarrow> respond (id_error 400 ''invalid_token'' ''Token not found or invalid'')))"

section \<open>The own account\<close>

definition actor_label :: "key_context \<Rightarrow> string" where
  "actor_label ctx = (case (kc_user ctx, kc_key_id ctx) of
     (Some u, _) \<Rightarrow> uc_email u | (None, Some k) \<Rightarrow> uuid_text k | (None, None) \<Rightarrow> ''master-key'')"

text \<open>Handing an entry to the log is no statement of the handler.\<close>

definition tell :: "org_audit \<Rightarrow> (store, 'r, unit) handler" where
  "tell e s = (Inr (), s\<lparr>rn_db := snd (insert_audit e (rn_db s))\<rparr>)"

definition audit_entry_for :: "key_context \<Rightarrow> string \<Rightarrow> string \<Rightarrow> string \<Rightarrow> string option \<Rightarrow> org_audit" where
  "audit_entry_for ctx action target_type tid org = \<lparr>oa_actor_key_id = kc_key_id ctx,
     oa_actor_label = actor_label ctx, oa_action = action, oa_target_type = target_type,
     oa_target_id = tid, oa_org_id = org\<rparr>"

definition log_audit_user :: "key_context \<Rightarrow> string \<Rightarrow> string \<Rightarrow> string \<Rightarrow> (store, 'r, unit) handler" where
  "log_audit_user ctx action target_type tid = tell (audit_entry_for ctx action target_type tid (kc_org_id ctx))"

definition log_audit_account :: "key_context \<Rightarrow> string \<Rightarrow> string \<Rightarrow> (store, 'r, unit) handler" where
  "log_audit_account ctx action tid = tell (audit_entry_for ctx action ''user'' tid (kc_org_id ctx))"

definition user_not_found :: id_response where
  "user_not_found = id_error 404 ''user_not_found'' ''User not found''"

text \<open>The user of the session, if the caller has the permission.\<close>

definition own_user :: "key_context \<Rightarrow> permission \<Rightarrow> (store, id_response, string) handler" where
  "own_user ctx perm =
     unless (perm \<notin> set (kc_permissions ctx)) (forbidden_perm (perm_string perm)) (
     case kc_user ctx of
       None \<Rightarrow> respond (id_error 401 ''not_authenticated'' ''Not authenticated'')
     | Some u \<Rightarrow> ret (uc_user_id u))"

definition get_account :: "store world \<Rightarrow> key_context \<Rightarrow> (store, id_response, id_response) handler" where
  "get_account w ctx =
     andthen (own_user ctx UserReadSelf) (\<lambda>user.
     andthen (need db_error (stmt w (get_user_by_id user))) (\<lambda>u.
     andthen (must user_not_found u) (\<lambda>u. ret (UserView (to_public_user u)))))"

definition patch_account ::
  "id_env \<Rightarrow> store world \<Rightarrow> key_context \<Rightarrow> string option \<Rightarrow> string option \<Rightarrow> (store, id_response, id_response) handler" where
  "patch_account env w ctx current new_password =
     andthen (own_user ctx UserReadSelf) (\<lambda>user.
     andthen (must (id_error 400 ''no_changes'' ''No changes requested'') new_password) (\<lambda>new_pw.
     andthen (must (id_error 400 ''current_password_required''
         ''current_password is required to change your password'') current) (\<lambda>cur.
     andthen (need db_error (stmt w (get_user_by_id user))) (\<lambda>u.
     andthen (must user_not_found u) (\<lambda>u.
     andthen (must (id_error 400 ''no_password_set''
         ''No password set on this account; use OAuth to sign in'') (ac_password_hash u)) (\<lambda>phc.
     case verify_password env cur phc of
       Inl e \<Rightarrow> respond (id_error 500 ''verify_error'' (password_message e))
     | Inr False \<Rightarrow> respond (id_error 401 ''wrong_password'' ''Current password is incorrect'')
     | Inr True \<Rightarrow>
         andthen (hash_or_fail (id_error 500) env w new_pw) (\<lambda>hash.
         andthen (need db_error (update_user w user None None (Some hash))) (\<lambda>u.
         andthen (must user_not_found u) (\<lambda>u.
         andthen (stmt w (delete_user_sessions user (kc_session_id ctx))) (\<lambda>_.
         andthen (log_audit_account ctx ''account.change_password'' user) (\<lambda>_.
         ret (UserView (to_public_user u)))))))))))))"

definition list_sessions :: "id_env \<Rightarrow> store world \<Rightarrow> key_context \<Rightarrow> (store, id_response, id_response) handler" where
  "list_sessions env w ctx =
     andthen (own_user ctx SessionRevokeOwn) (\<lambda>user.
     andthen (need db_error (stmt w (list_user_sessions user))) (\<lambda>xs.
     ret (SessionViews (map (to_session_info env) xs))))"

text \<open>The id is the fingerprint of a session of the user.\<close>

definition revoke_session :: "id_env \<Rightarrow> store world \<Rightarrow> key_context \<Rightarrow> string \<Rightarrow> (store, id_response, id_response) handler" where
  "revoke_session env w ctx i =
     andthen (own_user ctx SessionRevokeOwn) (\<lambda>user.
     andthen (need db_error (stmt w (list_user_sessions user))) (\<lambda>xs.
     andthen (must (id_error 404 ''session_not_found'' ''Session not found'')
         (find (\<lambda>x. sha256_hex (ie_sha256 env) (sn_id x) = i) xs)) (\<lambda>x.
     andthen (need db_error (stmt w (delete_session (sn_id x)))) (\<lambda>_.
     ret (if (case kc_session_id ctx of Some cur \<Rightarrow> sha256_hex (ie_sha256 env) cur = i | None \<Rightarrow> False)
          then NoContentClearingCookies else NoContent)))))"

section \<open>Users of the platform\<close>

definition authorize_global_user_admin ::
  "id_env \<Rightarrow> key_context \<Rightarrow> permission \<Rightarrow> (store, id_response, unit) handler" where
  "authorize_global_user_admin env ctx perm =
     (case ie_mode env of
        Hosted \<Rightarrow> unless (\<not> is_platform_admin ctx) (forbidden_perm ''platform_admin'') (ret ())
      | SingleTenant \<Rightarrow> unless (perm \<notin> set (kc_permissions ctx)) (forbidden_perm (perm_string perm)) (ret ()))"

definition list_users :: "id_env \<Rightarrow> store world \<Rightarrow> key_context \<Rightarrow> (store, id_response, id_response) handler" where
  "list_users env w ctx =
     andthen (authorize_global_user_admin env ctx UserReadAny) (\<lambda>_.
     andthen (need db_error (stmt w list_user_rows)) (\<lambda>us. ret (UserViews (map to_public_user us))))"

text \<open>An invitation into an organization, by whichever endpoint.\<close>

definition draw_invitation ::
  "store world \<Rightarrow> key_context \<Rightarrow> string \<Rightarrow> string \<Rightarrow> role \<Rightarrow> (store, 'r, invitation) handler" where
  "draw_invitation w ctx org email role =
     andthen (draw (wd_bytes w)) (\<lambda>token.
     andthen (draw (wd_uuid w)) (\<lambda>u.
     andthen (draw (wd_now w)) (\<lambda>now.
     andthen (draw (wd_now w)) (\<lambda>created.
     ret \<lparr>iv_id = uuid_text u, iv_email = email, iv_role = role, iv_token = hex_encode token,
          iv_invited_by = map_option uc_user_id (kc_user ctx), iv_org_id = org,
          iv_expires_at = now + days 7, iv_used_at = None, iv_created_at = created\<rparr>))))"

definition cannot_invite_owner :: id_response where
  "cannot_invite_owner = id_error 400 ''cannot_invite_owner'' ''Cannot invite an Owner directly. Use transfer-owner.''"

definition invited :: "id_env \<Rightarrow> invitation \<Rightarrow> id_response" where
  "invited env iv = Invited (iv_id iv) (iv_email iv) (role_string (iv_role iv)) (iv_expires_at iv)
     (if ie_expose_invites env then Some (iv_token iv) else None)"

definition invite_user ::
  "id_env \<Rightarrow> store world \<Rightarrow> key_context \<Rightarrow> string \<Rightarrow> role \<Rightarrow> (store, id_response, id_response) handler" where
  "invite_user env w ctx email0 role =
     unless (InvitationSend \<notin> set (kc_permissions ctx)) (forbidden_perm ''invitation:send'') (
     unless (role = Owner) cannot_invite_owner (
     andthen (draw_invitation w ctx (unwrap_or DEFAULT_ORG_ID (kc_org_id ctx)) (ie_lower env (trim email0)) role) (\<lambda>iv.
     andthen (need db_error (stmt w (create_invitation iv))) (\<lambda>_.
     andthen (log_audit_user ctx ''invitation.create'' ''invitation'' (iv_id iv)) (\<lambda>_.
     ret (invited env iv))))))"

definition get_invitation :: "store world \<Rightarrow> string \<Rightarrow> (store, id_response, id_response) handler" where
  "get_invitation w token =
     andthen (need db_error (stmt w (get_invitation_row token))) (\<lambda>r.
     andthen (must (id_error 404 ''invitation_not_found'' ''Invitation not found'') r) (\<lambda>iv.
     andthen (draw (wd_now w)) (\<lambda>now.
     unless (iv_used_at iv \<noteq> None \<or> iv_expires_at iv < now)
       (id_error 400 ''invitation_expired'' ''Invitation has expired or was already used'')
       (ret (InvitationView (iv_email iv) (role_string (iv_role iv)) (iv_expires_at iv))))))"

definition already_used :: id_response where
  "already_used = id_error 400 ''invitation_already_used'' ''This invitation has already been used''"

text \<open>The user an invitation is for: an existing account needs its password, a new one is created.\<close>

definition invited_account ::
  "id_env \<Rightarrow> store world \<Rightarrow> invitation \<Rightarrow> string \<Rightarrow> (store, id_response, account) handler" where
  "invited_account env w iv password =
     andthen (need db_error (stmt w (get_user_by_email (iv_email iv)))) (\<lambda>found. case found of
       Some existing \<Rightarrow>
         (case ac_password_hash existing of
            Some hash \<Rightarrow> unless (\<not> verified env password hash)
              (id_error 401 ''invalid_credentials''
                ''Incorrect password for the existing account associated with this invitation'') (ret existing)
          | None \<Rightarrow> respond (id_error 401 ''password_login_unavailable''
              ''This account has no password; sign in with your OAuth provider to accept this invitation''))
     | None \<Rightarrow>
         andthen (hash_or_fail (id_error 500) env w password) (\<lambda>hash.
         andthen (draw (wd_uuid w)) (\<lambda>u.
         andthen (draw (wd_now w)) (\<lambda>now.
         andthen (draw (wd_now w)) (\<lambda>updated.
         let user = (new_account (uuid_text u) (iv_email iv) hash (iv_role iv) now)\<lparr>ac_updated_at := updated\<rparr>
         in andthen (need db_error (stmt w (create_user user))) (\<lambda>_. ret user))))))"

text \<open>A membership that is there stays as it is.\<close>

definition join_org :: "store world \<Rightarrow> string \<Rightarrow> string \<Rightarrow> role \<Rightarrow> (store, id_response, unit) handler" where
  "join_org w org user role =
     andthen (stmt w (get_membership org user)) (\<lambda>m.
     if or_default None m = None then need db_error (stmt_at w (add_org_member org user role)) else ret ())"

definition accept_found ::
  "id_env \<Rightarrow> store world \<Rightarrow> string \<Rightarrow> string \<Rightarrow> invitation \<Rightarrow> (store, id_response, id_response) handler" where
  "accept_found env w token password iv =
     unless (iv_used_at iv \<noteq> None) already_used (
     andthen (draw (wd_now w)) (\<lambda>now.
     unless (iv_expires_at iv < now) (id_error 400 ''invitation_expired'' ''This invitation has expired'') (
     andthen (invited_account env w iv password) (\<lambda>user.
     andthen (join_org w (iv_org_id iv) (ac_id user) (iv_role iv)) (\<lambda>_.
     andthen (need db_error (stmt_at w (mark_invitation_used token))) (\<lambda>won.
     unless (\<not> won) already_used (
     andthen (need (id_error 500 ''session_error'') (create_session_cookies w (ac_id user))) (\<lambda>sess.
     ret (LoggedIn (to_public_user user) sess)))))))))"

definition accept_invitation ::
  "id_env \<Rightarrow> store world \<Rightarrow> string \<Rightarrow> string option \<Rightarrow> (store, id_response, id_response) handler" where
  "accept_invitation env w token password0 =
     andthen (must (id_error 400 ''password_or_oauth_required''
         ''A password is required to accept this invitation'') password0) (\<lambda>password.
     andthen (need db_error (stmt w (get_invitation_row token))) (\<lambda>r.
     andthen (must (id_error 404 ''invitation_not_found'' ''Invitation not found'') r)
       (accept_found env w token password)))"

definition patch_user ::
  "id_env \<Rightarrow> store world \<Rightarrow> key_context \<Rightarrow> string \<Rightarrow> role option \<Rightarrow> bool option
   \<Rightarrow> (store, id_response, id_response) handler" where
  "patch_user env w ctx i role active =
     andthen (authorize_global_user_admin env ctx UserWriteAny) (\<lambda>_.
     andthen (need db_error (stmt w (get_user_by_id i))) (\<lambda>u.
     andthen (must user_not_found u) (\<lambda>tgt.
     unless (ac_role tgt = Owner \<and> role \<noteq> None \<and> role \<noteq> Some Owner)
       (id_error 400 ''cannot_change_owner_role'' (''Cannot change the Owner'' @ [CHR 0x27] @ ''s role via PATCH. Use transfer-owner.'')) (
     unless (ac_role tgt = Owner \<and> active = Some False)
       (id_error 400 ''cannot_deactivate_owner'' ''Cannot deactivate the Owner account. Transfer ownership first.'') (
     andthen (need db_error (update_user w i role active None)) (\<lambda>u.
     andthen (must user_not_found u) (\<lambda>updated.
     andthen (log_audit_user ctx ''user.update'' ''user'' i) (\<lambda>_.
     ret (UserView (to_public_user updated))))))))))"

definition delete_user :: "id_env \<Rightarrow> store world \<Rightarrow> key_context \<Rightarrow> string \<Rightarrow> (store, id_response, id_response) handler" where
  "delete_user env w ctx i =
     andthen (authorize_global_user_admin env ctx UserDeleteAny) (\<lambda>_.
     andthen (need db_error (stmt w (get_user_by_id i))) (\<lambda>u.
     andthen (must user_not_found u) (\<lambda>tgt.
     unless (ac_role tgt = Owner)
       (id_error 400 ''cannot_delete_owner'' ''Cannot delete the Owner account. Transfer ownership first.'') (
     andthen (need db_error (update_user w i None (Some False) None)) (\<lambda>_.
     andthen (log_audit_user ctx ''user.delete'' ''user'' i) (\<lambda>_. ret NoContent))))))"

definition transfer_owner :: "id_env \<Rightarrow> store world \<Rightarrow> key_context \<Rightarrow> string \<Rightarrow> (store, id_response, id_response) handler" where
  "transfer_owner env w ctx i =
     andthen (authorize_global_user_admin env ctx SystemTransferOwner) (\<lambda>_.
     andthen (need db_error (stmt w (get_user_by_id i))) (\<lambda>u.
     andthen (must (id_error 404 ''user_not_found'' ''Target user not found'') u) (\<lambda>tgt.
     unless (\<not> ac_is_active tgt)
       (id_error 400 ''user_inactive'' ''Cannot transfer ownership to an inactive user'') (
     andthen (need db_error (stmt_at w (transfer_user_owner i))) (\<lambda>_.
     andthen (log_audit_user ctx ''system.transfer_owner'' ''user'' i) (\<lambda>_. ret NoContent))))))"

end
