(* ===== verification/Orgs.thy ===== *)
theory Orgs
  imports Accounts
begin

text \<open>
  Organizations, their members, applications, stored provider credentials, the storage of an
  application and the lists of allowed models (\<open>api/handlers/orgs.rs\<close>), with the encryption of
  stored secrets (\<open>auth/secrets.rs\<close>). Every handler is authorized by the caller's membership in the
  organization of the path, or of the application of the path.

  A handler whose slice of a text cuts a character in two panics; the connection is dropped
  (\<open>Aborted\<close>).
\<close>

section \<open>Stored secrets\<close>

definition NONCE_LEN :: nat where "NONCE_LEN = 12"

definition encrypt :: "id_env \<Rightarrow> u8 list \<Rightarrow> u8 list \<Rightarrow> u8 list \<Rightarrow> string + string \<times> string" where
  "encrypt env key nonce plain =
     (case ie_seal env key nonce plain of
        Inl e \<Rightarrow> Inl e | Inr ct \<Rightarrow> Inr (ie_base64 env ct, ie_base64 env nonce))"

definition decrypt :: "id_env \<Rightarrow> u8 list \<Rightarrow> string \<Rightarrow> string \<Rightarrow> string + u8 list" where
  "decrypt env key ct_b64 nonce_b64 =
     and_then (ie_unbase64 env ct_b64) (\<lambda>ct.
     and_then (ie_unbase64 env nonce_b64) (\<lambda>nonce.
     if length nonce \<noteq> NONCE_LEN then Inl (''invalid nonce length: '' @ nat_to_string (length nonce))
     else ie_open env key nonce ct))"

section \<open>Answers\<close>

record org_public =
  ov_id :: string
  ov_name :: string
  ov_slug :: string
  ov_plan :: string
  ov_status :: string

definition to_org_public :: "organization \<Rightarrow> org_public" where
  "to_org_public o' = \<lparr>ov_id = og_id o', ov_name = og_name o', ov_slug = og_slug o', ov_plan = og_plan o',
     ov_status = og_status o'\<rparr>"

record org_summary =
  os_id :: string
  os_name :: string
  os_slug :: string
  os_role :: string

definition to_org_summary :: "organization \<times> role \<Rightarrow> org_summary" where
  "to_org_summary p = \<lparr>os_id = og_id (fst p), os_name = og_name (fst p), os_slug = og_slug (fst p),
     os_role = role_string (snd p)\<rparr>"

record member_view =
  mv_org_id :: string
  mv_user_id :: string
  mv_email :: string
  mv_role :: string
  mv_created_at :: datetime

definition to_member_view :: "membership \<times> string \<Rightarrow> member_view" where
  "to_member_view p = \<lparr>mv_org_id = mb_org_id (fst p), mv_user_id = mb_user_id (fst p), mv_email = snd p,
     mv_role = role_string (mb_role (fst p)), mv_created_at = mb_created_at (fst p)\<rparr>"

record storage_info =
  so_backend :: string
  so_bucket_name :: string
  so_region :: string
  so_endpoint_url :: "string option"
  so_custom_public_url :: "string option"
  so_path_prefix :: "string option"
  so_access_key_id_hint :: "string option"
  so_updated_at :: datetime

definition app_storage_info_from_row :: "app_storage \<Rightarrow> storage_info" where
  "app_storage_info_from_row r = \<lparr>so_backend = as_backend r, so_bucket_name = as_bucket_name r,
     so_region = as_region r, so_endpoint_url = as_endpoint_url r,
     so_custom_public_url = as_custom_public_url r, so_path_prefix = as_path_prefix r,
     so_access_key_id_hint = as_access_key_id_hint r, so_updated_at = as_updated_at r\<rparr>"

text \<open>A storage configuration that is absent answers with every field empty.\<close>

datatype org_response =
  OrgError nat string string
| OrgIs org_public
| OrgSummaries "org_summary list"
| Members "member_view list"
| MemberInvited string string string string datetime "string option"
| Confirmed
| Done
| Apps "application list"
| AppIs application
| CredentialInfos "(string \<times> string option \<times> datetime) list"
| CredentialInfo string "string option" datetime
| StorageInfo "storage_info option"
| OrgModels "string list"
| ModelAccess string "string list"
| Aborted

definition org_forbidden :: "string \<Rightarrow> org_response" where
  "org_forbidden message = OrgError 403 ''forbidden'' message"

definition internal_error :: "string \<Rightarrow> org_response" where
  "internal_error detail = OrgError 500 ''internal_error'' ''internal server error''"

definition log_org_audit ::
  "key_context \<Rightarrow> string \<Rightarrow> string \<Rightarrow> string \<Rightarrow> string \<Rightarrow> (store, 'r, unit) handler" where
  "log_org_audit ctx org action target_type tid = tell (audit_entry_for ctx action target_type tid (Some org))"

section \<open>Authorization\<close>

text \<open>The id of the caller, who is a member with the permission, or empty for the platform administrator.\<close>

definition require_member_perm ::
  "store world \<Rightarrow> key_context \<Rightarrow> string \<Rightarrow> permission \<Rightarrow> (store, org_response, string) handler" where
  "require_member_perm w ctx org perm =
     (if is_platform_admin ctx then ret []
      else case kc_user ctx of
        None \<Rightarrow> respond (org_forbidden ''session required'')
      | Some u \<Rightarrow> andthen (stmt w (get_membership org (uc_user_id u))) (\<lambda>r. case r of
            Inr (Some role) \<Rightarrow>
              if role_has role perm then ret (uc_user_id u)
              else respond (org_forbidden ''insufficient role for this organization'')
          | Inr None \<Rightarrow> respond (org_forbidden ''not a member of this organization'')
          | Inl _ \<Rightarrow> respond (internal_error ''membership lookup failed'')))"

definition app_not_found :: org_response where
  "app_not_found = OrgError 404 ''app_not_found'' ''Application not found''"

definition org_not_found :: org_response where
  "org_not_found = OrgError 404 ''org_not_found'' ''Organization not found''"

definition member_not_found :: org_response where
  "member_not_found = OrgError 404 ''member_not_found'' ''Member not found''"

definition org_for_app :: "store world \<Rightarrow> string \<Rightarrow> (store, org_response, application) handler" where
  "org_for_app w app =
     andthen (need (\<lambda>_. internal_error ''application lookup failed'') (stmt w (get_application app))) (must app_not_found)"

section \<open>Organizations\<close>

definition session_user :: "key_context \<Rightarrow> (store, org_response, user_context) handler" where
  "session_user ctx = must (OrgError 401 ''session_required'' ''Session required'') (kc_user ctx)"

definition create_org ::
  "id_env \<Rightarrow> store world \<Rightarrow> key_context \<Rightarrow> string \<Rightarrow> (store, org_response, org_response) handler" where
  "create_org env w ctx name0 =
     andthen (session_user ctx) (\<lambda>user.
     let name = trim name0 in
     unless (name = []) (OrgError 400 ''invalid_name'' ''Organization name is required'') (
     andthen (need internal_error (unique_org_slug w (slugify env name))) (\<lambda>slug.
     andthen (draw (wd_now w)) (\<lambda>now.
     andthen (draw (wd_uuid w)) (\<lambda>u.
     let org = new_org (uuid_text u) name slug now in
     andthen (need internal_error (stmt w (create_organization org))) (\<lambda>_.
     andthen (need internal_error (stmt_at w (add_org_member (og_id org) (uc_user_id user) Owner))) (\<lambda>_.
     andthen (draw (wd_uuid w)) (\<lambda>a.
     andthen (need internal_error (stmt w (create_application
        (new_app (uuid_text a) (og_id org) ''Default'' DEFAULT_APP_SLUG now)))) (\<lambda>_.
     ret (OrgIs (to_org_public org)))))))))))"

definition list_orgs :: "store world \<Rightarrow> key_context \<Rightarrow> (store, org_response, org_response) handler" where
  "list_orgs w ctx =
     andthen (session_user ctx) (\<lambda>user.
     andthen (need internal_error (stmt w (list_orgs_for_user (uc_user_id user)))) (\<lambda>xs.
     ret (OrgSummaries (map to_org_summary xs))))"

definition get_org :: "store world \<Rightarrow> key_context \<Rightarrow> string \<Rightarrow> (store, org_response, org_response) handler" where
  "get_org w ctx i =
     andthen (require_member_perm w ctx i OrgRead) (\<lambda>_.
     andthen (need internal_error (stmt w (get_organization i))) (\<lambda>x.
     andthen (must org_not_found x) (\<lambda>o'. ret (OrgIs (to_org_public o')))))"

definition patch_org ::
  "store world \<Rightarrow> key_context \<Rightarrow> string \<Rightarrow> string \<Rightarrow> (store, org_response, org_response) handler" where
  "patch_org w ctx i name0 =
     andthen (require_member_perm w ctx i OrgWrite) (\<lambda>_.
     let name = trim name0 in
     unless (name = []) (OrgError 400 ''invalid_name'' ''Organization name is required'') (
     andthen (need internal_error (update_organization w i (Some name))) (\<lambda>x.
     andthen (must org_not_found x) (\<lambda>o'. ret (OrgIs (to_org_public o'))))))"

definition delete_org :: "store world \<Rightarrow> key_context \<Rightarrow> string \<Rightarrow> (store, org_response, org_response) handler" where
  "delete_org w ctx i =
     andthen (require_member_perm w ctx i OrgDelete) (\<lambda>_.
     andthen (need internal_error (stmt w (delete_organization i))) (\<lambda>found.
     unless (\<not> found) org_not_found (
     andthen (log_org_audit ctx i ''org.delete'' ''organization'' i) (\<lambda>_. ret Done))))"

section \<open>Members\<close>

definition list_members :: "store world \<Rightarrow> key_context \<Rightarrow> string \<Rightarrow> (store, org_response, org_response) handler" where
  "list_members w ctx i =
     andthen (require_member_perm w ctx i MemberRead) (\<lambda>_.
     andthen (need internal_error (stmt w (list_org_members i))) (\<lambda>xs. ret (Members (map to_member_view xs))))"

definition invite_member ::
  "id_env \<Rightarrow> store world \<Rightarrow> key_context \<Rightarrow> string \<Rightarrow> string \<Rightarrow> role \<Rightarrow> (store, org_response, org_response) handler" where
  "invite_member env w ctx i email role =
     andthen (require_member_perm w ctx i MemberInvite) (\<lambda>_.
     unless (role = Owner)
       (OrgError 400 ''cannot_invite_owner'' ''Cannot invite an Owner directly. Use transfer-owner.'') (
     andthen (draw_invitation w ctx i (ie_lower env (trim email)) role) (\<lambda>iv.
     andthen (need internal_error (stmt w (create_invitation iv))) (\<lambda>_.
     ret (MemberInvited (iv_id iv) (iv_email iv) (role_string (iv_role iv)) i (iv_expires_at iv)
       (if ie_expose_invites env then Some (iv_token iv) else None))))))"

text \<open>The role is read before it is written, each by a statement of its own.\<close>

definition patch_member ::
  "store world \<Rightarrow> key_context \<Rightarrow> string \<Rightarrow> string \<Rightarrow> role \<Rightarrow> (store, org_response, org_response) handler" where
  "patch_member w ctx i user role =
     andthen (require_member_perm w ctx i MemberWrite) (\<lambda>_.
     unless (role = Owner)
       (OrgError 400 ''cannot_set_owner'' ''Cannot assign the Owner role here. Use transfer-owner.'') (
     andthen (need internal_error (stmt w (get_membership i user))) (\<lambda>m.
     andthen (must member_not_found m) (\<lambda>current.
     unless (current = Owner)
       (OrgError 400 ''cannot_demote_owner'' (''Cannot change the Owner'' @ [CHR 0x27] @ ''s role. Use transfer-owner.'')) (
     andthen (need internal_error (stmt w (update_member_role i user role))) (\<lambda>_. ret Confirmed))))))"

definition remove_member ::
  "store world \<Rightarrow> key_context \<Rightarrow> string \<Rightarrow> string \<Rightarrow> (store, org_response, org_response) handler" where
  "remove_member w ctx i user =
     andthen (require_member_perm w ctx i MemberRemove) (\<lambda>_.
     andthen (need internal_error (stmt w (get_membership i user))) (\<lambda>m.
     unless (m = Some Owner)
       (OrgError 400 ''cannot_remove_owner'' ''Cannot remove the Owner. Transfer ownership first.'') (
     andthen (must member_not_found m) (\<lambda>_.
     andthen (need internal_error (stmt w (remove_org_member i user))) (\<lambda>_.
     andthen (log_org_audit ctx i ''org.member.remove'' ''membership'' user) (\<lambda>_. ret Done))))))"

definition transfer_ownership ::
  "store world \<Rightarrow> key_context \<Rightarrow> string \<Rightarrow> string \<Rightarrow> (store, org_response, org_response) handler" where
  "transfer_ownership w ctx i user =
     andthen (require_member_perm w ctx i OrgTransferOwner) (\<lambda>_.
     andthen (need (\<lambda>_. internal_error ''transfer ownership failed'') (stmt w (transfer_org_owner i user))) (\<lambda>found.
     unless (\<not> found) (OrgError 404 ''not_a_member'' ''Target user is not a member of this organization'') (
     andthen (log_org_audit ctx i ''org.transfer_owner'' ''organization'' user) (\<lambda>_. ret Done))))"

section \<open>Applications\<close>

definition unique_app_slug :: "store world \<Rightarrow> string \<Rightarrow> string \<Rightarrow> (store, 'r, string + string) handler" where
  "unique_app_slug w org base =
     andthen (stmt w (list_apps_for_org org)) (\<lambda>r. case r of
        Inl e \<Rightarrow> ret (Inl e)
      | Inr apps \<Rightarrow>
          let existing = map ap_slug apps; cand = (\<lambda>n. base @ ''-'' @ nat_to_string n) in
          if base \<notin> set existing then ret (Inr base)
          else case find (\<lambda>n. cand n \<notin> set existing) [2..<10000] of
            Some n \<Rightarrow> ret (Inr (cand n))
          | None \<Rightarrow> andthen (draw (wd_uuid w)) (\<lambda>u. ret (Inr (base @ ''-'' @ uuid_text u))))"

definition list_apps :: "store world \<Rightarrow> key_context \<Rightarrow> string \<Rightarrow> (store, org_response, org_response) handler" where
  "list_apps w ctx i =
     andthen (require_member_perm w ctx i AppRead) (\<lambda>_.
     andthen (need internal_error (stmt w (list_apps_for_org i))) (\<lambda>xs. ret (Apps xs)))"

definition create_app ::
  "id_env \<Rightarrow> store world \<Rightarrow> key_context \<Rightarrow> string \<Rightarrow> string \<Rightarrow> (store, org_response, org_response) handler" where
  "create_app env w ctx i name0 =
     andthen (require_member_perm w ctx i AppWrite) (\<lambda>_.
     let name = trim name0 in
     unless (name = []) (OrgError 400 ''invalid_name'' ''Application name is required'') (
     andthen (need internal_error (unique_app_slug w i (slugify env name))) (\<lambda>slug.
     andthen (draw (wd_now w)) (\<lambda>now.
     andthen (draw (wd_uuid w)) (\<lambda>u.
     let app = new_app (uuid_text u) i name slug now in
     andthen (need internal_error (stmt w (create_application app))) (\<lambda>_. ret (AppIs app)))))))"

definition get_app :: "store world \<Rightarrow> key_context \<Rightarrow> string \<Rightarrow> (store, org_response, org_response) handler" where
  "get_app w ctx i =
     andthen (org_for_app w i) (\<lambda>app.
     andthen (require_member_perm w ctx (ap_org_id app) AppRead) (\<lambda>_. ret (AppIs app)))"

definition patch_app ::
  "store world \<Rightarrow> key_context \<Rightarrow> string \<Rightarrow> string \<Rightarrow> (store, org_response, org_response) handler" where
  "patch_app w ctx i name0 =
     andthen (org_for_app w i) (\<lambda>app.
     andthen (require_member_perm w ctx (ap_org_id app) AppWrite) (\<lambda>_.
     let name = trim name0 in
     unless (name = []) (OrgError 400 ''invalid_name'' ''Application name is required'') (
     andthen (need internal_error (update_application w i (Some name))) (\<lambda>x.
     andthen (must app_not_found x) (\<lambda>a. ret (AppIs a))))))"

definition delete_app :: "store world \<Rightarrow> key_context \<Rightarrow> string \<Rightarrow> (store, org_response, org_response) handler" where
  "delete_app w ctx i =
     andthen (org_for_app w i) (\<lambda>app.
     andthen (require_member_perm w ctx (ap_org_id app) AppDelete) (\<lambda>_.
     andthen (need internal_error (stmt w (delete_application i))) (\<lambda>found.
     unless (\<not> found) app_not_found (
     andthen (log_org_audit ctx (ap_org_id app) ''org.app.delete'' ''application'' i) (\<lambda>_. ret Done)))))"

section \<open>Provider credentials\<close>

definition ellipsis :: string where "ellipsis = [CHR 0xE2, CHR 0x80, CHR 0xA6]"

text \<open>The last four bytes of a text that has them; a slice must begin where a character does.\<close>

definition last4 :: "string \<Rightarrow> unit + string option" where
  "last4 s =
     (if length s < 4 then Inr None
      else let t = drop (length s - 4) s in
        if continuation (hd t) then Inl () else Inr (Some (ellipsis @ t)))"

definition with_count :: "string \<Rightarrow> nat \<Rightarrow> string" where
  "with_count hint n = (if 1 < n then hint @ '' (+'' @ nat_to_string (n - 1) @ '' more)'' else hint)"

fun json_array :: "json \<Rightarrow> json list option" where
  "json_array (JArr xs) = Some xs"
| "json_array _ = None"

definition string_field :: "string \<Rightarrow> json \<Rightarrow> string option" where
  "string_field k v = Option.bind (json_get k v) json_string"

definition first_str :: "json list \<Rightarrow> string \<Rightarrow> string option" where
  "first_str xs k = find (\<lambda>s. s \<noteq> []) (List.map_filter (string_field k) xs)"

text \<open>The hint of a pool, if the credentials have one with a text that is not empty.\<close>

definition pool_hint :: "json \<Rightarrow> string \<Rightarrow> string \<Rightarrow> (unit + string option) option" where
  "pool_hint creds pool k =
     Option.bind (Option.bind (json_get pool creds) json_array) (\<lambda>xs.
       map_option (\<lambda>s. map_sum id (map_option (\<lambda>h. with_count h (length xs))) (last4 s)) (first_str xs k))"

definition derive_display_hint :: "json \<Rightarrow> unit + string option" where
  "derive_display_hint creds =
     (case pool_hint creds ''api_keys'' ''key'' of
        Some h \<Rightarrow> h
      | None \<Rightarrow> case pool_hint creds ''credential_sets'' ''key_id'' of
          Some h \<Rightarrow> h
        | None \<Rightarrow> case Option.bind (opt_or (json_get ''api_key'' creds) (json_get ''key_id'' creds)) json_string of
            Some s \<Rightarrow> last4 s
          | None \<Rightarrow> Inr None)"

definition list_org_provider_credentials ::
  "store world \<Rightarrow> key_context \<Rightarrow> string \<Rightarrow> (store, org_response, org_response) handler" where
  "list_org_provider_credentials w ctx org =
     andthen (require_member_perm w ctx org ProviderCredRead) (\<lambda>_.
     andthen (need internal_error (stmt w (list_credentials org))) (\<lambda>xs. ret (CredentialInfos xs)))"

text \<open>A slice that panics, and an encryption that fails.\<close>

definition hinted :: "unit + string option \<Rightarrow> (store, org_response, string option) handler" where
  "hinted h = (case h of Inl _ \<Rightarrow> respond Aborted | Inr x \<Rightarrow> ret x)"

definition sealed ::
  "id_env \<Rightarrow> store world \<Rightarrow> u8 list \<Rightarrow> u8 list \<Rightarrow> (store, org_response, string \<times> string) handler" where
  "sealed env w key plain =
     andthen (draw (wd_bytes w)) (\<lambda>nonce. case encrypt env key nonce plain of
        Inl e \<Rightarrow> respond (internal_error e) | Inr p \<Rightarrow> ret p)"

definition create_org_provider_credential ::
  "id_env \<Rightarrow> store world \<Rightarrow> key_context \<Rightarrow> string \<Rightarrow> string \<Rightarrow> json \<Rightarrow> (store, org_response, org_response) handler" where
  "create_org_provider_credential env w ctx org provider0 creds =
     andthen (require_member_perm w ctx org ProviderCredWrite) (\<lambda>_.
     andthen (must (OrgError 400 ''secrets_not_configured'' ''Provider credentials require a configured secrets key'')
        (ie_secrets_key env)) (\<lambda>key.
     let provider = trim provider0 in
     unless (provider = []) (OrgError 400 ''invalid_provider'' ''provider is required'') (
     andthen (hinted (derive_display_hint creds)) (\<lambda>hint.
     andthen (sealed env w key (ie_json_text env creds)) (\<lambda>(ct, nonce).
     andthen (need internal_error (stmt_at w (upsert_org_provider_credential org provider ct nonce hint))) (\<lambda>_.
     andthen (log_org_audit ctx org ''org.provider_credential.upsert'' ''provider_credential'' provider) (\<lambda>_.
     andthen (draw (wd_now w)) (\<lambda>now. ret (CredentialInfo provider hint now)))))))))"

definition delete_org_provider_credential ::
  "store world \<Rightarrow> key_context \<Rightarrow> string \<Rightarrow> string \<Rightarrow> (store, org_response, org_response) handler" where
  "delete_org_provider_credential w ctx org provider =
     andthen (require_member_perm w ctx org ProviderCredDelete) (\<lambda>_.
     andthen (need internal_error (stmt w (delete_credential org provider))) (\<lambda>found.
     unless (\<not> found) (OrgError 404 ''credential_not_found'' ''Credential not found'') (
     andthen (log_org_audit ctx org ''org.provider_credential.delete'' ''provider_credential'' provider) (\<lambda>_.
     ret Done))))"

section \<open>The storage of an application\<close>

record put_storage =
  ps_backend :: "string option"
  ps_bucket_name :: string
  ps_region :: "string option"
  ps_endpoint_url :: "string option"
  ps_custom_public_url :: "string option"
  ps_path_prefix :: "string option"
  ps_access_key_id :: "string option"
  ps_secret_access_key :: "string option"

definition trimmed :: "string option \<Rightarrow> string option" where
  "trimmed x = opt_filter (\<lambda>s. s \<noteq> []) (map_option trim x)"

definition get_app_storage :: "store world \<Rightarrow> key_context \<Rightarrow> string \<Rightarrow> (store, org_response, org_response) handler" where
  "get_app_storage w ctx i =
     andthen (org_for_app w i) (\<lambda>app.
     andthen (require_member_perm w ctx (ap_org_id app) StorageCredRead) (\<lambda>_.
     andthen (need internal_error (stmt w (get_storage i))) (\<lambda>x.
     ret (StorageInfo (map_option app_storage_info_from_row x)))))"

text \<open>The secret, its nonce and the hint: of both new keys, or of the row that is there.\<close>

definition storage_secret ::
  "id_env \<Rightarrow> store world \<Rightarrow> u8 list \<Rightarrow> string \<Rightarrow> string option \<Rightarrow> string option
   \<Rightarrow> (store, org_response, string \<times> string \<times> string option) handler" where
  "storage_secret env w key i ak sk =
     (case (ak, sk) of
        (Some a, Some s) \<Rightarrow>
          andthen (sealed env w key (ie_json_text env
            (JObj [(''access_key_id'', JStr a), (''secret_access_key'', JStr s)]))) (\<lambda>(ct, nonce).
          andthen (hinted (last4 a)) (\<lambda>hint. ret (ct, nonce, hint)))
      | (None, None) \<Rightarrow>
          andthen (need internal_error (stmt w (get_storage i))) (\<lambda>x.
          andthen (must (OrgError 400 ''credentials_required''
             ''access_key_id and secret_access_key are required for a new storage config'') x) (\<lambda>row.
          ret (as_secret_ciphertext row, as_secret_nonce row, as_access_key_id_hint row)))
      | _ \<Rightarrow> respond (OrgError 400 ''credentials_incomplete''
               ''provide both access_key_id and secret_access_key, or neither''))"

definition storage_row ::
  "string \<Rightarrow> string \<Rightarrow> put_storage \<Rightarrow> string \<times> string \<times> string option \<Rightarrow> app_storage" where
  "storage_row i bucket body secret = \<lparr>as_app_id = i, as_backend = unwrap_or ''s3'' (trimmed (ps_backend body)),
     as_bucket_name = bucket, as_region = unwrap_or ''us-east-1'' (trimmed (ps_region body)),
     as_endpoint_url = trimmed (ps_endpoint_url body),
     as_custom_public_url = trimmed (ps_custom_public_url body), as_path_prefix = trimmed (ps_path_prefix body),
     as_access_key_id_hint = snd (snd secret), as_secret_ciphertext = fst secret,
     as_secret_nonce = fst (snd secret), as_updated_at = 0\<rparr>"

definition put_app_storage ::
  "id_env \<Rightarrow> store world \<Rightarrow> key_context \<Rightarrow> string \<Rightarrow> put_storage \<Rightarrow> (store, org_response, org_response) handler" where
  "put_app_storage env w ctx i body =
     andthen (org_for_app w i) (\<lambda>app.
     andthen (require_member_perm w ctx (ap_org_id app) StorageCredWrite) (\<lambda>_.
     andthen (must (OrgError 400 ''secrets_not_configured'' ''Storage credentials require a configured secrets key'')
        (ie_secrets_key env)) (\<lambda>key.
     let bucket = trim (ps_bucket_name body) in
     unless (bucket = []) (OrgError 400 ''invalid_bucket'' ''bucket_name is required'') (
     andthen (storage_secret env w key i (trimmed (ps_access_key_id body)) (trimmed (ps_secret_access_key body))) (\<lambda>secret.
     andthen (need internal_error (stmt_at w (upsert_app_storage (storage_row i bucket body secret)))) (\<lambda>_.
     andthen (need internal_error (stmt w (get_storage i))) (\<lambda>x.
     andthen (must (internal_error ''storage config vanished after write'') x) (\<lambda>row.
     ret (StorageInfo (Some (app_storage_info_from_row row)))))))))))"

definition delete_app_storage :: "store world \<Rightarrow> key_context \<Rightarrow> string \<Rightarrow> (store, org_response, org_response) handler" where
  "delete_app_storage w ctx i =
     andthen (org_for_app w i) (\<lambda>app.
     andthen (require_member_perm w ctx (ap_org_id app) StorageCredDelete) (\<lambda>_.
     andthen (need internal_error (stmt w (delete_storage i))) (\<lambda>found.
     unless (\<not> found) (OrgError 404 ''storage_not_found'' ''Storage config not found'') (ret Done))))"

section \<open>Allowed models\<close>

definition get_org_allowed_models :: "store world \<Rightarrow> key_context \<Rightarrow> string \<Rightarrow> (store, org_response, org_response) handler" where
  "get_org_allowed_models w ctx i =
     andthen (require_member_perm w ctx i OrgRead) (\<lambda>_.
     andthen (need internal_error (stmt w (get_org_models i))) (\<lambda>ms. ret (OrgModels ms)))"

definition put_org_allowed_models ::
  "store world \<Rightarrow> key_context \<Rightarrow> string \<Rightarrow> string list \<Rightarrow> (store, org_response, org_response) handler" where
  "put_org_allowed_models w ctx i models =
     andthen (require_member_perm w ctx i OrgWrite) (\<lambda>_.
     andthen (need internal_error (stmt w (set_org_models i models))) (\<lambda>_. ret (OrgModels models)))"

definition get_app_allowed_models :: "store world \<Rightarrow> key_context \<Rightarrow> string \<Rightarrow> (store, org_response, org_response) handler" where
  "get_app_allowed_models w ctx i =
     andthen (org_for_app w i) (\<lambda>app.
     andthen (require_member_perm w ctx (ap_org_id app) AppRead) (\<lambda>_.
     andthen (need internal_error (get_app_model_access w i)) (\<lambda>(mode, models). ret (ModelAccess mode models))))"

text \<open>The first requested model that the organization does not allow.\<close>

definition check_pool ::
  "store world \<Rightarrow> string \<Rightarrow> string list \<Rightarrow> (store, org_response, unit) handler" where
  "check_pool w org models =
     andthen (need internal_error (stmt w (get_org_models org))) (\<lambda>pool.
     case find (\<lambda>m. m \<notin> set pool) models of
       None \<Rightarrow> ret ()
     | Some m \<Rightarrow> respond (OrgError 400 ''model_not_in_org_pool''
         (''model '' @ quoted m @ '' is not in the org'' @ [CHR 0x27] @ ''s allowed pool'')))"

definition put_app_allowed_models ::
  "store world \<Rightarrow> key_context \<Rightarrow> string \<Rightarrow> string \<Rightarrow> string list \<Rightarrow> (store, org_response, org_response) handler" where
  "put_app_allowed_models w ctx i mode models =
     andthen (org_for_app w i) (\<lambda>app.
     andthen (require_member_perm w ctx (ap_org_id app) AppWrite) (\<lambda>_.
     unless (mode \<noteq> ''all'' \<and> mode \<noteq> ''select'')
       (OrgError 400 ''invalid_mode'' (''mode must be '' @ quoted ''all'' @ '' or '' @ quoted ''select'')) (
     andthen (if mode = ''select'' \<and> models \<noteq> [] then check_pool w (ap_org_id app) models else ret ()) (\<lambda>_.
     let stored = (if mode = ''all'' then [] else models) in
     andthen (need internal_error (stmt w (set_app_model_access i mode stored))) (\<lambda>_.
     ret (ModelAccess mode stored))))))"

end
