(* ===== verification/OAuth.thy ===== *)
theory OAuth
  imports Accounts
begin

text \<open>
  Signing in with GitHub or Google (\<open>api/handlers/oauth.rs\<close>): the start of the authorization-code
  flow, with its cookies, and the callback, which checks the state cookie, asks the provider who the
  user is, and signs in, links, creates or invites an account.

  The providers' answers, decoded by reqwest and serde into the fields the code declares, are
  parameters, numbered with the calls of the handler; so are percent encoding, the texts a header
  may hold, and the text of a JSON number. A response is given with the texts of its cookies; those
  of the session and its CSRF token are the row of the session.
\<close>

section \<open>Configuration and surroundings\<close>

record provider_config =
  pc_client_id :: string
  pc_client_secret :: string

record oauth_config =
  oc_github :: "provider_config option"
  oc_google :: "provider_config option"
  oc_callback_base :: "string option"
  oc_github_authorize_base :: "string option"
  oc_github_api_base :: "string option"
  oc_github_token_base :: "string option"
  oc_google_authorize_base :: "string option"
  oc_google_token_base :: "string option"
  oc_google_userinfo_base :: "string option"

text \<open>A variable of the environment that is not set is \<open>None\<close>.\<close>

definition env_pair :: "(string \<Rightarrow> string option) \<Rightarrow> string \<Rightarrow> string \<Rightarrow> provider_config option" where
  "env_pair var i secret = (case (var i, var secret) of
     (Some c, Some s) \<Rightarrow> if c \<noteq> [] \<and> s \<noteq> [] then Some \<lparr>pc_client_id = c, pc_client_secret = s\<rparr> else None
   | _ \<Rightarrow> None)"

definition oauth_from_env :: "(string \<Rightarrow> string option) \<Rightarrow> oauth_config" where
  "oauth_from_env var = \<lparr>oc_github = env_pair var ''LITEGEN__OAUTH__GITHUB__CLIENT_ID'' ''LITEGEN__OAUTH__GITHUB__CLIENT_SECRET'',
     oc_google = env_pair var ''LITEGEN__OAUTH__GOOGLE__CLIENT_ID'' ''LITEGEN__OAUTH__GOOGLE__CLIENT_SECRET'',
     oc_callback_base = var ''LITEGEN__OAUTH__CALLBACK_BASE'', oc_github_authorize_base = None,
     oc_github_api_base = None, oc_github_token_base = None, oc_google_authorize_base = None,
     oc_google_token_base = None, oc_google_userinfo_base = None\<rparr>"

definition enabled_providers :: "oauth_config \<Rightarrow> string list" where
  "enabled_providers c = (if oc_github c \<noteq> None then [''github''] else [])
     @ (if oc_google c \<noteq> None then [''google''] else [])"

text \<open>A request that is not answered, an answer that is not decoded, and a decoded one.\<close>

datatype 'a reply = Unreachable | Undecodable | Answer 'a

record token_reply =
  tk_access_token :: "string option"
  tk_error :: "string option"

record github_email =
  ge_email :: string
  ge_primary :: bool
  ge_verified :: bool

record google_userinfo =
  gu_sub :: string
  gu_email :: string
  gu_email_verified :: "json option"

record oauth_env =
  oe_config :: oauth_config
  oe_cookie_insecure_dev :: bool
  oe_encode :: "string \<Rightarrow> string"
  oe_decode :: "string \<Rightarrow> string option"
  oe_header_ok :: "string \<Rightarrow> bool"
  oe_number_text :: "rat \<Rightarrow> string"
  oe_github_token :: "nat \<Rightarrow> string \<Rightarrow> (string \<times> string) list \<Rightarrow> token_reply reply"
  oe_github_user :: "nat \<Rightarrow> string \<Rightarrow> string \<Rightarrow> json reply"
  oe_github_emails :: "nat \<Rightarrow> string \<Rightarrow> string \<Rightarrow> github_email list reply"
  oe_google_token :: "nat \<Rightarrow> string \<Rightarrow> string \<Rightarrow> token_reply reply"
  oe_google_userinfo :: "nat \<Rightarrow> string \<Rightarrow> string \<Rightarrow> google_userinfo reply"

section \<open>Responses and cookies\<close>

datatype oauth_response =
  OauthError nat string string "string list"
| OauthNotConfigured string
| NoProviderContext
| Authorize string "string list"
| SignedIn string session_row "string list"
| InviteRefused string "string list"

definition oauth_header :: "oauth_env \<Rightarrow> string \<Rightarrow> string \<Rightarrow> string" where
  "oauth_header oe substitute v = (if oe_header_ok oe v then v else substitute)"

definition oauth_cookie :: "oauth_env \<Rightarrow> string \<Rightarrow> string \<Rightarrow> string" where
  "oauth_cookie oe name v = oauth_header oe [] (name @ ''='' @ v @ ''; Path=/; HttpOnly; SameSite=Lax; Max-Age=600''
     @ (if oe_cookie_insecure_dev oe then [] else ''; Secure''))"

definition expired_cookie :: "string \<Rightarrow> string" where
  "expired_cookie name = name @ ''=; Path=/; HttpOnly; SameSite=Lax; Max-Age=0''"

definition clear_oauth_state_cookie :: string where
  "clear_oauth_state_cookie = expired_cookie ''litegen_oauth_state''"

definition make_oauth_state_cookie :: "oauth_env \<Rightarrow> string \<Rightarrow> string" where
  "make_oauth_state_cookie oe token = oauth_cookie oe ''litegen_oauth_state'' token"

definition make_oauth_next_cookie :: "oauth_env \<Rightarrow> string \<Rightarrow> string" where
  "make_oauth_next_cookie oe n = oauth_cookie oe ''litegen_oauth_next'' (oe_encode oe n)"

definition clear_oauth_next_cookie :: string where
  "clear_oauth_next_cookie = expired_cookie ''litegen_oauth_next''"

definition make_oauth_invite_cookie :: "oauth_env \<Rightarrow> string \<Rightarrow> string" where
  "make_oauth_invite_cookie oe token = oauth_cookie oe ''litegen_oauth_invite'' token"

definition clear_oauth_invite_cookie :: string where
  "clear_oauth_invite_cookie = expired_cookie ''litegen_oauth_invite''"

definition make_oauth_provider_cookie :: "oauth_env \<Rightarrow> string \<Rightarrow> string" where
  "make_oauth_provider_cookie oe provider = oauth_cookie oe ''litegen_oauth_provider'' provider"

definition clear_oauth_provider_cookie :: string where
  "clear_oauth_provider_cookie = expired_cookie ''litegen_oauth_provider''"

definition error_resp_clear_state :: "nat \<Rightarrow> string \<Rightarrow> string \<Rightarrow> oauth_response" where
  "error_resp_clear_state status code message = OauthError status code message [clear_oauth_state_cookie]"

definition oauth_db_error :: "string \<Rightarrow> oauth_response" where
  "oauth_db_error e = error_resp_clear_state 500 ''db_error'' e"

definition session_error :: "string \<Rightarrow> oauth_response" where
  "session_error e = error_resp_clear_state 500 ''session_error'' e"

definition upstream_error :: "string \<Rightarrow> oauth_response" where
  "upstream_error message = error_resp_clear_state 502 ''oauth_upstream_error'' message"

section \<open>Where to go after signing in\<close>

definition local_path :: "string \<Rightarrow> bool" where
  "local_path n = (starts_with ''/'' n \<and> \<not> starts_with ''//'' n \<and> CHR 0x5C \<notin> set n)"

definition resolve_next_target :: "oauth_env \<Rightarrow> string option \<Rightarrow> string" where
  "resolve_next_target oe cookie =
     (case Option.bind (cookie_value cookie ''litegen_oauth_next'') (oe_decode oe) of
        Some n \<Rightarrow> if local_path n then n else ''/'' | None \<Rightarrow> ''/'')"

section \<open>From an identity to an account\<close>

definition oauth_account :: "string \<Rightarrow> string \<Rightarrow> role \<Rightarrow> string \<Rightarrow> string \<Rightarrow> datetime \<Rightarrow> account" where
  "oauth_account i email role provider oauth_id now = \<lparr>ac_id = i, ac_email = email, ac_password_hash = None, ac_role = role,
     ac_github_id = (if provider = ''github'' then Some oauth_id else None),
     ac_google_id = (if provider = ''google'' then Some oauth_id else None),
     ac_created_at = now, ac_updated_at = now, ac_last_login_at = None, ac_is_active = True\<rparr>"

definition already_oauth :: "account \<Rightarrow> bool" where
  "already_oauth u = (ac_github_id u \<noteq> None \<or> ac_google_id u \<noteq> None)"

datatype resolve_outcome = ResolvedUser account | NotInvited | EmailOwnedByPassword

definition resolve_or_create_user ::
  "id_env \<Rightarrow> store world \<Rightarrow> string \<Rightarrow> string \<Rightarrow> string \<Rightarrow> (store, string, resolve_outcome) handler" where
  "resolve_or_create_user env w provider oauth_id email =
     andthen (need id (stmt w (get_user_by_oauth provider oauth_id))) (\<lambda>found. case found of
       Some u \<Rightarrow> ret (ResolvedUser u)
     | None \<Rightarrow>
     andthen (need id (stmt w (get_user_by_email email))) (\<lambda>found. case found of
       Some u \<Rightarrow>
         if already_oauth u
         then andthen (need id (stmt_at w (link_oauth (ac_id u) provider oauth_id))) (\<lambda>_. ret (ResolvedUser u))
         else ret EmailOwnedByPassword
     | None \<Rightarrow>
         if ie_mode env \<noteq> Hosted then ret NotInvited
         else
           andthen (draw (wd_now w)) (\<lambda>now.
           andthen (draw (wd_uuid w)) (\<lambda>u.
           let user = oauth_account (''user-'' @ uuid_text u) email Owner provider oauth_id now in
           andthen (need id (stmt w (create_user user))) (\<lambda>_.
           andthen (create_org_for_user env w (ac_id user) email None) (\<lambda>_.
           ret (ResolvedUser user)))))))"

definition finish_oauth_login ::
  "oauth_env \<Rightarrow> store world \<Rightarrow> string option \<Rightarrow> string \<Rightarrow> (store, oauth_response, oauth_response) handler" where
  "finish_oauth_login oe w cookie user =
     andthen (need session_error (create_session_cookies w user)) (\<lambda>sess.
     ret (SignedIn (oauth_header oe ''/'' (resolve_next_target oe cookie)) sess
       [clear_oauth_state_cookie, clear_oauth_next_cookie, clear_oauth_provider_cookie, clear_oauth_invite_cookie]))"

definition invite_error_redirect :: "oauth_env \<Rightarrow> string \<Rightarrow> string \<Rightarrow> oauth_response" where
  "invite_error_redirect oe token code =
     InviteRefused (oauth_header oe ''/'' (''/invite/'' @ oe_encode oe token @ ''?invite_error='' @ code))
       [clear_oauth_state_cookie, clear_oauth_provider_cookie, clear_oauth_next_cookie, clear_oauth_invite_cookie]"

text \<open>The account an invitation is for: one of the identity, one linked to it, or a new one.\<close>

definition invited_oauth_account ::
  "oauth_env \<Rightarrow> store world \<Rightarrow> invitation \<Rightarrow> string \<Rightarrow> string \<Rightarrow> string \<Rightarrow> string
   \<Rightarrow> (store, oauth_response, account) handler" where
  "invited_oauth_account oe w iv provider oauth_id email token =
     andthen (need oauth_db_error (stmt w (get_user_by_oauth provider oauth_id))) (\<lambda>found. case found of
       Some u \<Rightarrow> ret u
     | None \<Rightarrow>
     andthen (need oauth_db_error (stmt w (get_user_by_email email))) (\<lambda>found. case found of
       Some u \<Rightarrow>
         if already_oauth u then andthen (stmt_at w (link_oauth (ac_id u) provider oauth_id)) (\<lambda>_. ret u)
         else respond (invite_error_redirect oe token ''email_password_account'')
     | None \<Rightarrow>
         andthen (draw (wd_now w)) (\<lambda>now.
         andthen (draw (wd_uuid w)) (\<lambda>u.
         let user = oauth_account (''user-'' @ uuid_text u) email (iv_role iv) provider oauth_id now in
         andthen (need oauth_db_error (stmt w (create_user user))) (\<lambda>_. ret user)))))"

text \<open>The invitation is used up before the membership is written.\<close>

definition join_invited ::
  "oauth_env \<Rightarrow> store world \<Rightarrow> invitation \<Rightarrow> string \<Rightarrow> account \<Rightarrow> (store, oauth_response, string) handler" where
  "join_invited oe w iv token user =
     unless (\<not> ac_is_active user) (invite_error_redirect oe token ''account_inactive'') (
     andthen (need oauth_db_error (stmt_at w (mark_invitation_used token))) (\<lambda>won.
     unless (\<not> won) (invite_error_redirect oe token ''invitation_invalid'') (
     andthen (stmt w (get_membership (iv_org_id iv) (ac_id user))) (\<lambda>m.
     andthen (if or_default None m = None
        then need oauth_db_error (stmt_at w (add_org_member (iv_org_id iv) (ac_id user) (iv_role iv))) else ret ()) (\<lambda>_.
     ret (ac_id user))))))"

definition apply_found_invitation ::
  "id_env \<Rightarrow> oauth_env \<Rightarrow> store world \<Rightarrow> string \<Rightarrow> string \<Rightarrow> string \<Rightarrow> string \<Rightarrow> invitation
   \<Rightarrow> (store, oauth_response, string) handler" where
  "apply_found_invitation env oe w provider oauth_id email token iv =
     andthen (draw (wd_now w)) (\<lambda>now.
     unless (iv_used_at iv \<noteq> None \<or> iv_expires_at iv < now) (invite_error_redirect oe token ''invitation_invalid'') (
     unless (ie_lower env (iv_email iv) \<noteq> email) (invite_error_redirect oe token ''email_mismatch'') (
     andthen (invited_oauth_account oe w iv provider oauth_id email token) (join_invited oe w iv token))))"

definition apply_invitation_oauth ::
  "id_env \<Rightarrow> oauth_env \<Rightarrow> store world \<Rightarrow> string \<Rightarrow> string \<Rightarrow> string \<Rightarrow> string
   \<Rightarrow> (store, oauth_response, string) handler" where
  "apply_invitation_oauth env oe w provider oauth_id email token =
     andthen (need oauth_db_error (stmt w (get_invitation_row token))) (\<lambda>found.
     andthen (must (invite_error_redirect oe token ''invitation_invalid'') found)
       (apply_found_invitation env oe w provider oauth_id email token))"

section \<open>The start of the flow\<close>

definition redirect_uri :: "oauth_env \<Rightarrow> string" where
  "redirect_uri oe = unwrap_or [] (oc_callback_base (oe_config oe)) @ ''/auth/redirect''"

text \<open>The cookies of the start: the state, the provider, and the target and the invitation if given.\<close>

definition start_response ::
  "oauth_env \<Rightarrow> string \<Rightarrow> string \<Rightarrow> string \<Rightarrow> string option \<Rightarrow> string option \<Rightarrow> oauth_response" where
  "start_response oe url st provider next_page invite =
     Authorize (oauth_header oe ''/'' url)
       ([make_oauth_state_cookie oe st, make_oauth_provider_cookie oe provider]
        @ (case opt_filter local_path next_page of Some n \<Rightarrow> [make_oauth_next_cookie oe n] | None \<Rightarrow> [])
        @ (case opt_filter (\<lambda>t. t \<noteq> []) invite of Some t \<Rightarrow> [make_oauth_invite_cookie oe t] | None \<Rightarrow> []))"

definition github_start ::
  "oauth_env \<Rightarrow> store world \<Rightarrow> string option \<Rightarrow> string option \<Rightarrow> (store, oauth_response, oauth_response) handler" where
  "github_start oe w next_page invite =
     andthen (must (OauthNotConfigured ''GitHub OAuth is not configured'') (oc_github (oe_config oe))) (\<lambda>cfg.
     andthen (draw (wd_bytes w)) (\<lambda>token.
     let st = hex_encode token;
         url = unwrap_or ''https://github.com'' (oc_github_authorize_base (oe_config oe))
           @ ''/login/oauth/authorize?client_id='' @ oe_encode oe (pc_client_id cfg)
           @ ''&redirect_uri='' @ oe_encode oe (redirect_uri oe)
           @ ''&scope=user:email&state='' @ oe_encode oe st
     in ret (start_response oe url st ''github'' next_page invite)))"

definition google_start ::
  "oauth_env \<Rightarrow> store world \<Rightarrow> string option \<Rightarrow> string option \<Rightarrow> (store, oauth_response, oauth_response) handler" where
  "google_start oe w next_page invite =
     andthen (must (OauthNotConfigured ''Google OAuth is not configured'') (oc_google (oe_config oe))) (\<lambda>cfg.
     andthen (draw (wd_bytes w)) (\<lambda>token.
     let st = hex_encode token;
         url = unwrap_or ''https://accounts.google.com'' (oc_google_authorize_base (oe_config oe))
           @ ''/o/oauth2/v2/auth?client_id='' @ oe_encode oe (pc_client_id cfg)
           @ ''&redirect_uri='' @ oe_encode oe (redirect_uri oe)
           @ ''&response_type=code&scope='' @ oe_encode oe ''openid email profile''
           @ ''&state='' @ oe_encode oe st
     in ret (start_response oe url st ''google'' next_page invite)))"

section \<open>Who the provider says the user is\<close>

definition answered :: "string \<Rightarrow> string \<Rightarrow> 'a reply \<Rightarrow> (store, oauth_response, 'a) handler" where
  "answered unreachable undecodable r = (case r of
     Unreachable \<Rightarrow> respond (upstream_error unreachable)
   | Undecodable \<Rightarrow> respond (upstream_error undecodable)
   | Answer a \<Rightarrow> ret a)"

definition access_token :: "string \<Rightarrow> token_reply \<Rightarrow> (store, oauth_response, string) handler" where
  "access_token provider t = (case tk_error t of
     Some e \<Rightarrow> respond (upstream_error (provider @ '' token error: '' @ e))
   | None \<Rightarrow> must (upstream_error (''No access_token in '' @ provider @ '' response''))
       (opt_filter (\<lambda>x. x \<noteq> []) (tk_access_token t)))"

definition github_id :: "oauth_env \<Rightarrow> json \<Rightarrow> string option" where
  "github_id oe v = (case v of JNum n \<Rightarrow> Some (oe_number_text oe n) | JStr s \<Rightarrow> Some s | _ \<Rightarrow> None)"

definition github_identity ::
  "id_env \<Rightarrow> oauth_env \<Rightarrow> provider_config \<Rightarrow> string \<Rightarrow> (store, oauth_response, string \<times> string) handler" where
  "github_identity env oe cfg code =
     (let api = unwrap_or ''https://api.github.com'' (oc_github_api_base (oe_config oe)) in
      andthen (draw (\<lambda>n. oe_github_token oe n
         (unwrap_or ''https://github.com'' (oc_github_token_base (oe_config oe)) @ ''/login/oauth/access_token'')
         [(''client_id'', pc_client_id cfg), (''client_secret'', pc_client_secret cfg), (''code'', code)])) (\<lambda>r.
      andthen (answered ''Failed to reach GitHub token endpoint'' ''Failed to parse GitHub token response'' r) (\<lambda>t.
      andthen (access_token ''GitHub'' t) (\<lambda>token.
      andthen (draw (\<lambda>n. oe_github_user oe n (api @ ''/user'') token)) (\<lambda>r.
      andthen (answered ''Failed to fetch GitHub user'' ''Failed to parse GitHub user'' r) (\<lambda>user.
      andthen (must (upstream_error ''Unexpected GitHub user id format'') (github_id oe user)) (\<lambda>gh_id.
      andthen (draw (\<lambda>n. oe_github_emails oe n (api @ ''/user/emails'') token)) (\<lambda>r.
      andthen (answered ''Failed to fetch GitHub emails'' ''Failed to parse GitHub emails'' r) (\<lambda>emails.
      andthen (must (error_resp_clear_state 400 ''no_verified_email'' ''No verified primary email on GitHub'')
         (find (\<lambda>e. ge_primary e \<and> ge_verified e) emails)) (\<lambda>e.
      ret (gh_id, ie_lower env (ge_email e))))))))))))"

text \<open>The flag is a boolean or the text of one.\<close>

definition email_verified :: "json option \<Rightarrow> bool" where
  "email_verified v = (case v of Some (JBool b) \<Rightarrow> b | Some (JStr s) \<Rightarrow> s = ''true'' | _ \<Rightarrow> False)"

definition google_identity ::
  "id_env \<Rightarrow> oauth_env \<Rightarrow> provider_config \<Rightarrow> string \<Rightarrow> (store, oauth_response, string \<times> string) handler" where
  "google_identity env oe cfg code =
     andthen (draw (\<lambda>n. oe_google_token oe n
        (unwrap_or ''https://oauth2.googleapis.com'' (oc_google_token_base (oe_config oe)) @ ''/token'')
        (''grant_type=authorization_code&code='' @ oe_encode oe code
          @ ''&client_id='' @ oe_encode oe (pc_client_id cfg) @ ''&client_secret='' @ oe_encode oe (pc_client_secret cfg)
          @ ''&redirect_uri='' @ oe_encode oe (redirect_uri oe)))) (\<lambda>r.
     andthen (answered ''Failed to reach Google token endpoint'' ''Failed to parse Google token response'' r) (\<lambda>t.
     andthen (access_token ''Google'' t) (\<lambda>token.
     andthen (draw (\<lambda>n. oe_google_userinfo oe n
        (unwrap_or ''https://openidconnect.googleapis.com'' (oc_google_userinfo_base (oe_config oe)) @ ''/v1/userinfo'') token)) (\<lambda>r.
     andthen (answered ''Failed to fetch Google userinfo'' ''Failed to parse Google userinfo'' r) (\<lambda>info.
     unless (\<not> email_verified (gu_email_verified info))
       (error_resp_clear_state 400 ''no_verified_email'' ''Google email is not verified'')
       (ret (gu_sub info, ie_lower env (gu_email info))))))))"

section \<open>The callback\<close>

definition check_oauth_state :: "string option \<Rightarrow> string \<Rightarrow> (store, oauth_response, unit) handler" where
  "check_oauth_state cookie st =
     andthen (must (error_resp_clear_state 400 ''state_missing'' ''OAuth state cookie missing'')
        (cookie_value cookie ''litegen_oauth_state'')) (\<lambda>c.
     unless (\<not> constant_time_eq c st) (error_resp_clear_state 400 ''state_mismatch'' ''OAuth state mismatch'') (ret ()))"

definition sign_in_resolved ::
  "oauth_env \<Rightarrow> store world \<Rightarrow> string option \<Rightarrow> resolve_outcome \<Rightarrow> (store, oauth_response, oauth_response) handler" where
  "sign_in_resolved oe w cookie outcome = (case outcome of
     NotInvited \<Rightarrow> respond (error_resp_clear_state 403 ''account_not_invited''
       ''No account exists for this email. Ask an admin to invite you.'')
   | EmailOwnedByPassword \<Rightarrow> respond (error_resp_clear_state 409 ''email_password_account''
       (''An account with this email already exists. Sign in with your password, then link this ''
        @ ''provider from account settings.''))
   | ResolvedUser user \<Rightarrow>
       unless (\<not> ac_is_active user) (error_resp_clear_state 403 ''account_inactive'' ''Account is inactive'') (
       andthen (stmt_at w (touch_last_login (ac_id user))) (\<lambda>_. finish_oauth_login oe w cookie (ac_id user))))"

definition sign_in ::
  "id_env \<Rightarrow> oauth_env \<Rightarrow> store world \<Rightarrow> string option \<Rightarrow> string \<Rightarrow> string \<times> string
   \<Rightarrow> (store, oauth_response, oauth_response) handler" where
  "sign_in env oe w cookie provider identity =
     (let (oauth_id, email) = identity in
      case cookie_value cookie ''litegen_oauth_invite'' of
        Some token \<Rightarrow> andthen (apply_invitation_oauth env oe w provider oauth_id email token) (finish_oauth_login oe w cookie)
      | None \<Rightarrow> andthen (map_error session_error (resolve_or_create_user env w provider oauth_id email))
          (sign_in_resolved oe w cookie))"

definition handle_github_callback ::
  "id_env \<Rightarrow> oauth_env \<Rightarrow> store world \<Rightarrow> string option \<Rightarrow> string \<Rightarrow> string
   \<Rightarrow> (store, oauth_response, oauth_response) handler" where
  "handle_github_callback env oe w cookie code st =
     andthen (check_oauth_state cookie st) (\<lambda>_.
     andthen (must (error_resp_clear_state 404 ''oauth_not_configured'' ''GitHub OAuth not configured'')
        (oc_github (oe_config oe))) (\<lambda>cfg.
     andthen (github_identity env oe cfg code) (sign_in env oe w cookie ''github'')))"

definition handle_google_callback ::
  "id_env \<Rightarrow> oauth_env \<Rightarrow> store world \<Rightarrow> string option \<Rightarrow> string \<Rightarrow> string
   \<Rightarrow> (store, oauth_response, oauth_response) handler" where
  "handle_google_callback env oe w cookie code st =
     andthen (check_oauth_state cookie st) (\<lambda>_.
     andthen (must (error_resp_clear_state 404 ''oauth_not_configured'' ''Google OAuth not configured'')
        (oc_google (oe_config oe))) (\<lambda>cfg.
     andthen (google_identity env oe cfg code) (sign_in env oe w cookie ''google'')))"

definition oauth_redirect ::
  "id_env \<Rightarrow> oauth_env \<Rightarrow> store world \<Rightarrow> string option \<Rightarrow> string \<Rightarrow> string
   \<Rightarrow> (store, oauth_response, oauth_response) handler" where
  "oauth_redirect env oe w cookie code st =
     (case cookie_value cookie ''litegen_oauth_provider'' of
        Some provider \<Rightarrow>
          if provider = ''github'' then handle_github_callback env oe w cookie code st
          else if provider = ''google'' then handle_google_callback env oe w cookie code st
          else respond NoProviderContext
      | None \<Rightarrow> respond NoProviderContext)"

end
