(* ===== verification/AccountProps.thy ===== *)
theory AccountProps
  imports Accounts
begin

text \<open>
  What the account handlers guarantee: who gets a session, how many guesses a lockout leaves, what
  an invitation and a reset token are good for.
\<close>

section \<open>Concrete surroundings\<close>

definition demo_env :: id_env where
  "demo_env = \<lparr>ie_mode = Hosted, ie_allow_password = True, ie_owner_email = None, ie_expose_resets = False,
     ie_expose_invites = False, ie_oauth_providers = [], ie_lower = (\<lambda>s. s), ie_alphanumeric = (\<lambda>c. c \<noteq> '' ''),
     ie_argon2 = (\<lambda>salt p. Inr (''h:'' @ p)), ie_argon2_verify = (\<lambda>p h. Inr (h = ''h:'' @ p)),
     ie_sha256 = (\<lambda>s. []), ie_secrets_key = Some [1], ie_seal = (\<lambda>k n x. Inr x), ie_open = (\<lambda>k n x. Inr x),
     ie_base64 = map (\<lambda>b. char_of (unat b)), ie_unbase64 = (\<lambda>s. Inr (map (\<lambda>c. of_nat (of_char c)) s)),
     ie_json_text = (\<lambda>_. [123, 125])\<rparr>"

definition quiet :: "store world" where
  "quiet = \<lparr>wd_fault = (\<lambda>_. None), wd_other = (\<lambda>_ db. db), wd_now = (\<lambda>_. 0), wd_uuid = of_nat, wd_bytes = (\<lambda>n. [of_nat n])\<rparr>"

definition demo_account :: "string \<Rightarrow> string \<Rightarrow> account" where
  "demo_account i email = \<lparr>ac_id = i, ac_email = email, ac_password_hash = Some ''h:correct horse'', ac_role = Member,
     ac_github_id = None, ac_google_id = None, ac_created_at = 0, ac_updated_at = 0, ac_last_login_at = None,
     ac_is_active = True\<rparr>"

definition demo_store :: store where
  "demo_store = \<lparr>st_users = [demo_account ''u1'' ''a@b'', demo_account ''u2'' ''c@d''], st_sessions = [],
     st_invitations = [\<lparr>iv_id = ''i1'', iv_email = ''c@d'', iv_role = Member, iv_token = ''t1'', iv_invited_by = Some ''u1'',
       iv_org_id = ''o1'', iv_expires_at = 10, iv_used_at = None, iv_created_at = 0\<rparr>],
     st_resets = [\<lparr>pw_token = ''r1'', pw_user_id = ''u1'', pw_expires_at = 10, pw_used_at = None, pw_created_at = 0\<rparr>],
     st_attempts = [],
     st_orgs = [\<lparr>og_id = ''o1'', og_name = ''One'', og_slug = ''one'', og_plan = ''free'', og_status = ''active'',
       og_created_at = 0, og_updated_at = 0\<rparr>],
     st_members = [\<lparr>mb_org_id = ''o1'', mb_user_id = ''u1'', mb_role = Owner, mb_created_at = 0\<rparr>],
     st_apps = [\<lparr>ap_id = ''p1'', ap_org_id = ''o1'', ap_name = ''App'', ap_slug = ''app'', ap_status = ''active'',
       ap_created_at = 0, ap_updated_at = 0\<rparr>],
     st_credentials = [], st_storage = [], st_org_models = [], st_app_access = [], st_app_models = [], st_keys = [],
     st_gens = [], st_logs = [], st_artifacts = [], st_deliveries = [], st_audit = []\<rparr>"

lemma quiet_simps [simp]: "solitary quiet" "alone quiet" "wd_fault quiet n = None" "wd_now quiet n = 0"
  by (simp_all add: quiet_def solitary_def alone_def)

definition logged_in :: "id_response \<Rightarrow> bool" where
  "logged_in r = (case r of LoggedIn u s \<Rightarrow> True | _ \<Rightarrow> False)"

lemma has_login: "logged_in (fst (serve m db)) \<Longrightarrow> \<exists>u sess db'. serve m db = (LoggedIn u sess, db')"
  by (cases "serve m db") (auto simp: logged_in_def split: id_response.splits)

section \<open>Guessing a password\<close>








lemma login_reads [simp]:
  "snd (recent_failed_login_attempts email t db) = db" "snd (get_user_by_email email db) = db"
    "snd (record_login_attempt email ok t db) = db\<lparr>st_attempts := st_attempts db @ [\<lparr>la_email = email, la_at = t, la_success = ok\<rparr>]\<rparr>"
    "or_default d (Inl e) = d" "or_default d (Inr a) = a" "fst (get_user_by_email email db) = Inr (find (\<lambda>u. ac_email u = email) (st_users db))"
    "st_sessions (snd (touch_last_login i t db)) = st_sessions db"
  by (simp_all add: recent_failed_login_attempts_def get_user_by_email_def record_login_attempt_def or_default_def
      touch_last_login_def)

lemma cookies_never_respond [simp]: "create_session_cookies w u s \<noteq> (Inl r, s')"
  by (auto simp: create_session_cookies_def Let_def outcomes split: sum.splits)

lemma refusals [simp]: "invalid_credentials \<noteq> PasswordAuthDisabled" "invalid_credentials \<noteq> LockedOut k"
    "invalid_credentials \<noteq> sanitized_500 c e"
  by (simp_all add: invalid_credentials_def id_error_def sanitized_500_def)









section \<open>Who gets a session\<close>

lemma cookies_outcome:
  assumes "solitary w" "create_session_cookies w u s = (Inr (Inr sess), s')"
  shows "sn_user_id sess = u \<and> rn_db s' = (rn_db s)\<lparr>st_sessions := st_sessions (rn_db s) @ [sess]\<rparr>"
  using assms unfolding create_session_cookies_def Let_def
  by (auto simp: outcomes create_session_def split: sum.splits if_splits)

definition no_login :: "id_response \<Rightarrow> bool" where
  "no_login r = (\<forall>u sess. r \<noteq> LoggedIn u sess)"

lemma no_login_simps [simp]:
  "no_login (id_error n c m)" "no_login (sanitized_500 c e)" "no_login (db_error e)" "no_login PasswordAuthDisabled"
  "no_login (LockedOut k)" "no_login invalid_credentials" "no_login already_used" "\<not> no_login (LoggedIn u sess)"
  by (simp_all add: no_login_def id_error_def sanitized_500_def db_error_def invalid_credentials_def already_used_def)




section \<open>Invitations\<close>

lemma identity_reads [simp]:
  "snd (get_invitation_row token db) = db" "fst (get_invitation_row token db) = Inr (find_invitation token db)"
  "snd (get_membership org user db) = db" "fst (get_membership org user db) = Inr (member_role org user db)"
  "snd (get_user_by_id i db) = db" "fst (get_user_by_id i db) = Inr (find_user i db)"
  "snd (get_password_reset token db) = db" "fst (get_password_reset token db) = Inr (find_reset token db)"
  by (simp_all add: get_invitation_row_def get_membership_def get_user_by_id_def get_password_reset_def)

lemma hash_or_fail_outcome:
  "hash_or_fail f env w pw s = (Inr h, s') \<longleftrightarrow>
     hash_password env (wd_bytes w (rn_calls s)) pw = Inr h \<and> s' = s\<lparr>rn_calls := Suc (rn_calls s)\<rparr>"
  by (auto simp: hash_or_fail_def outcomes split: sum.splits password_error.splits)

lemma create_user_outcome:
  "fst (create_user u db) = Inr () \<Longrightarrow> find_user (ac_id u) db = None \<and> snd (create_user u db) = db\<lparr>st_users := st_users db @ [u]\<rparr>"
  by (auto simp: create_user_def user_conflict_def find_user_def find_None_iff list_ex_iff split: option.splits if_splits)

text \<open>The account an invitation is accepted for, and what is written on the way.\<close>

lemma invited_account_outcome:
  assumes "solitary w" "invited_account env w iv pw s = (Inr user, s')"
  shows "case find (\<lambda>u. ac_email u = iv_email iv) (st_users (rn_db s)) of
       Some a \<Rightarrow> user = a \<and> password_matches env pw a \<and> rn_db s' = rn_db s
     | None \<Rightarrow> ac_email user = iv_email iv \<and> ac_role user = iv_role iv \<and> find_user (ac_id user) (rn_db s) = None
         \<and> rn_db s' = (rn_db s)\<lparr>st_users := st_users (rn_db s) @ [user]\<rparr>"
proof (cases "find (\<lambda>u. ac_email u = iv_email iv) (st_users (rn_db s))")
  case None
  with assms(2) show ?thesis unfolding invited_account_def
    by (auto simp: outcomes assms(1) hash_or_fail_outcome Let_def new_account_def dest!: create_user_outcome [OF sym])
next
  case (Some a)
  with assms(2) show ?thesis unfolding invited_account_def
    by (auto simp: outcomes assms(1) password_matches_def split: option.splits)
qed

lemma add_org_member_outcome:
  "fst (add_org_member org user role now db) = Inr () \<longleftrightarrow>
     member_role org user db = None \<and> find_org org db \<noteq> None \<and> find_user user db \<noteq> None"
  by (auto simp: add_org_member_def)

lemma find_snoc: "find p (xs @ [x]) = (case find p xs of Some y \<Rightarrow> Some y | None \<Rightarrow> if p x then Some x else None)"
  by (induction xs) auto

lemma member_role_snoc:
  "member_role o' u (db\<lparr>st_members := st_members db @ [m]\<rparr>) =
     (case member_role o' u db of Some r \<Rightarrow> Some r
      | None \<Rightarrow> if mb_org_id m = o' \<and> mb_user_id m = u then Some (mb_role m) else None)"
  by (auto simp: member_role_def find_snoc split: option.split)

lemma added_member_role:
  "fst (add_org_member org user role now db) = Inr () \<Longrightarrow>
   member_role o' u (snd (add_org_member org user role now db)) =
     (if o' = org \<and> u = user then Some role else member_role o' u db)"
  by (auto simp: add_org_member_def member_role_snoc split: if_splits option.splits)

lemma join_org_outcome:
  assumes "solitary w" "join_org w org uid role s = (Inr x, s')"
  shows "find_invitation token (rn_db s') = find_invitation token (rn_db s)"
    and "member_role o' u (rn_db s') =
      (if o' = org \<and> u = uid \<and> member_role org uid (rn_db s) = None then Some role else member_role o' u (rn_db s))"
  using assms(2) unfolding join_org_def
  by (auto simp: outcomes assms(1) find_invitation_def add_org_member_def member_role_snoc split: if_splits option.splits)

lemma used_invitation:
  "find_invitation token (snd (mark_invitation_used token now db)) =
     map_option (\<lambda>iv. if iv_used_at iv = None then iv\<lparr>iv_used_at := Some now\<rparr> else iv) (find_invitation token db)"
proof -
  have "find (\<lambda>x. iv_token x = token) (map (\<lambda>r. if iv_token r = token \<and> iv_used_at r = None then r\<lparr>iv_used_at := Some now\<rparr> else r) xs)
     = map_option (\<lambda>iv. if iv_used_at iv = None then iv\<lparr>iv_used_at := Some now\<rparr> else iv) (find (\<lambda>x. iv_token x = token) xs)" for xs
    by (induction xs) auto
  then show ?thesis by (simp add: mark_invitation_used_def find_invitation_def change_rows_def)
qed

lemma mark_invitation_used_parts:
  "st_members (snd (mark_invitation_used token now db)) = st_members db"
  "st_users (snd (mark_invitation_used token now db)) = st_users db"
  "member_role o' u (snd (mark_invitation_used token now db)) = member_role o' u db"
  by (simp_all add: mark_invitation_used_def Let_def member_role_def)

text \<open>C11: Whoever accepts an invitation and gets a session gave the password of the account that had the
  invited address, or a new account was made; the invitation was unused and not yet expired, is used
  afterwards, and makes the account a member of its organization with its role, if it was none
  before; no other membership changes.
\<close>

theorem invitation_accepted_by_invitee:
  assumes "solitary w" "serve (accept_invitation env w token password) db = (LoggedIn u sess, db')"
  shows "\<exists>iv pw. password = Some pw \<and> find_invitation token db = Some iv \<and> iv_used_at iv = None
    \<and> wd_now w 1 \<le> iv_expires_at iv \<and> (\<exists>iv'. find_invitation token db' = Some iv' \<and> iv_used_at iv' \<noteq> None)
    \<and> (case find (\<lambda>a. ac_email a = iv_email iv) (st_users db) of
         Some a \<Rightarrow> sn_user_id sess = ac_id a \<and> password_matches env pw a
       | None \<Rightarrow> find_user (sn_user_id sess) db = None)
    \<and> (\<forall>org user. member_role org user db' =
         (if org = iv_org_id iv \<and> user = sn_user_id sess \<and> member_role org user db = None
          then Some (iv_role iv) else member_role org user db))"
proof -
  have "early no_login (accept_invitation env w token password)"
    unfolding accept_invitation_def accept_found_def invited_account_def hash_or_fail_def create_session_cookies_def join_org_def
    by (intro early_intros no_login_simps) (auto intro!: early_intros simp: no_login_simps split: password_error.split)
  then obtain s' where s': "accept_invitation env w token password \<lparr>rn_db = db, rn_calls = 0\<rparr> = (Inr (LoggedIn u sess), s')"
      "db' = rn_db s'"
    using early_serve [of no_login, OF _ assms(2)] by auto
  obtain iv pw user s1 s2 where pw: "password = Some pw" and iv: "find_invitation token db = Some iv"
      "iv_used_at iv = None" "wd_now w (Suc 0) \<le> iv_expires_at iv"
    and user: "invited_account env w iv pw \<lparr>rn_db = db, rn_calls = Suc (Suc 0)\<rparr> = (Inr user, s1)"
    and join: "join_org w (iv_org_id iv) (ac_id user) (iv_role iv) s1 = (Inr (), s2)"
    and sess: "create_session_cookies w (ac_id user) \<lparr>rn_db = snd (mark_invitation_used token (wd_now w (rn_calls s2)) (rn_db s2)),
        rn_calls = Suc (rn_calls s2)\<rparr> = (Inr (Inr sess) :: id_response + _, s')"
    using s'(1) unfolding accept_invitation_def accept_found_def by (auto simp: outcomes assms(1) not_less)
  define s3 where "s3 = snd (mark_invitation_used token (wd_now w (rn_calls s2)) (rn_db s2))"
  have after: "sn_user_id sess = ac_id user" "db' = s3\<lparr>st_sessions := st_sessions s3 @ [sess]\<rparr>"
    using cookies_outcome [OF assms(1) sess] s'(2) by (simp_all add: s3_def)
  note acc = invited_account_outcome [OF assms(1) user] and joined = join_org_outcome [OF assms(1) join]
  have kept: "find_invitation token (rn_db s1) = find_invitation token db"
      "\<And>o' u. member_role o' u (rn_db s1) = member_role o' u db"
    using acc by (auto simp: find_invitation_def member_role_def split: option.splits)
  have "\<exists>iv'. find_invitation token db' = Some iv' \<and> iv_used_at iv' \<noteq> None"
    using used_invitation [of token "wd_now w (rn_calls s2)" "rn_db s2"] joined(1) kept(1) iv by (simp add: after s3_def find_invitation_def)
  moreover have "member_role org uid db' = member_role org uid (rn_db s2)" for org uid
    using mark_invitation_used_parts(3) by (simp add: after s3_def member_role_def)
  then have "\<forall>org uid. member_role org uid db' =
      (if org = iv_org_id iv \<and> uid = sn_user_id sess \<and> member_role org uid db = None
       then Some (iv_role iv) else member_role org uid db)"
    by (simp add: joined(2) kept(2) after(1))
  moreover have "case find (\<lambda>a. ac_email a = iv_email iv) (st_users db) of
         Some a \<Rightarrow> sn_user_id sess = ac_id a \<and> password_matches env pw a
       | None \<Rightarrow> find_user (sn_user_id sess) db = None"
    using acc after(1) by (simp split: option.splits)
  ultimately show ?thesis using pw iv by auto
qed

theorem invitation_accepted_by_invitee_witness:
  "\<exists>u sess db'. serve (accept_invitation demo_env quiet ''t1'' (Some ''correct horse'')) demo_store = (LoggedIn u sess, db')
     \<and> (\<exists>iv. find_invitation ''t1'' db' = Some iv \<and> iv_used_at iv \<noteq> None)"
proof -
  obtain u sess db' where run:
    "serve (accept_invitation demo_env quiet ''t1'' (Some ''correct horse'')) demo_store = (LoggedIn u sess, db')"
  proof -
    have "logged_in (fst (serve (accept_invitation demo_env quiet ''t1'' (Some ''correct horse'')) demo_store))" by code_simp
    from has_login [OF this] show ?thesis using that by blast
  qed
  then show ?thesis using invitation_accepted_by_invitee [OF _ run] by auto
qed

section \<open>Password resets\<close>

lemma find_changed:
  "(\<And>x. P (f x) = P x) \<Longrightarrow> find P (change_rows Q f xs) = map_option (\<lambda>x. if Q x then f x else x) (find P xs)"
  by (induction xs) (auto simp: change_rows_def)

lemma find_SomeD: "find P xs = Some x \<Longrightarrow> P x \<and> x \<in> set xs"
  by (induction xs) (auto split: if_splits)

lemma find_user_updated:
  "find_user i (snd (update_user_row i role active hash now db)) =
     map_option (\<lambda>u. u\<lparr>ac_role := unwrap_or (ac_role u) role, ac_is_active := unwrap_or (ac_is_active u) active,
       ac_password_hash := opt_or hash (ac_password_hash u), ac_updated_at := now\<rparr>) (find_user i db)"
  "fst (update_user_row i role active hash now db) = Inr (find_user i db \<noteq> None)"
  by (auto simp: update_user_row_def Let_def find_user_def find_changed option.map_comp comp_def intro!: map_option_cong
      dest: find_SomeD)

lemma updated_parts [simp]:
  "st_resets (snd (update_user_row i role active hash now db)) = st_resets db"
  "st_sessions (snd (update_user_row i role active hash now db)) = st_sessions db"
  "find_reset token (snd (update_user_row i role active hash now db)) = find_reset token db"
  by (simp_all add: update_user_row_def Let_def find_reset_def)

lemma none_left: "(\<And>x. P x \<Longrightarrow> \<not> P (f x)) \<Longrightarrow> \<not> list_ex P (change_rows P f xs)"
  by (induction xs) (simp_all add: change_rows_def)

lemma all_resets_used [simp]:
  "\<not> list_ex (\<lambda>x. pw_token x = token \<and> pw_used_at x = None) (st_resets (snd (mark_password_reset_used token now db)))"
  unfolding mark_password_reset_used_def Let_def by (simp add: none_left)

lemma used_reset:
  "find_reset token (snd (mark_password_reset_used token now db)) =
     map_option (\<lambda>r. if pw_used_at r = None then r\<lparr>pw_used_at := Some now\<rparr> else r) (find_reset token db)"
  "find_user i (snd (mark_password_reset_used token now db)) = find_user i db"
  "st_sessions (snd (mark_password_reset_used token now db)) = st_sessions db"
  by (auto simp: mark_password_reset_used_def Let_def find_reset_def find_user_def find_changed intro!: map_option_cong
      dest: find_SomeD)

lemma update_user_outcome:
  assumes "solitary w" "update_user w i role active hash s = (Inr (Inr x), s')"
  shows "rn_db s' = snd (update_user_row i role active hash (wd_now w (rn_calls s)) (rn_db s))"
  using assms(2) unfolding update_user_def
  by (cases "find_user i (rn_db s)") (auto simp: outcomes assms(1) find_user_updated)

lemma ended_sessions [simp]:
  "st_sessions (snd (delete_user_sessions u None db)) = filter (\<lambda>x. sn_user_id x \<noteq> u) (st_sessions db)"
  "find_user i (snd (delete_user_sessions u x db)) = find_user i db"
  "find_reset token (snd (delete_user_sessions u x db)) = find_reset token db"
  "st_resets (snd (delete_user_sessions u x db)) = st_resets db"
  by (simp_all add: delete_user_sessions_def find_user_def find_reset_def)

lemma early_reset: "early (\<lambda>r. r \<noteq> NoContent) (password_reset_confirm env w token pw)"
  unfolding password_reset_confirm_def hash_or_fail_def update_user_def
  by (intro early_intros)
    (auto intro!: early_intros simp: id_error_def sanitized_500_def token_refused_def split: password_error.split)

lemma reset_facts:
  assumes "alone w" "serve (password_reset_confirm env w token pw) db = (NoContent, db')"
  shows "\<exists>r h. find_reset token db = Some r \<and> pw_used_at r = None \<and> wd_now w 1 \<le> pw_expires_at r
    \<and> hash_password env (wd_bytes w 2) pw = Inr h
    \<and> map_option ac_password_hash (find_user (pw_user_id r) db') = map_option (\<lambda>_. Some h) (find_user (pw_user_id r) db)
    \<and> (\<exists>r'. find_reset token db' = Some r' \<and> pw_used_at r' \<noteq> None)
    \<and> st_sessions db' = filter (\<lambda>x. sn_user_id x \<noteq> pw_user_id r) (st_sessions db)
    \<and> ie_allow_password env \<and> \<not> list_ex (\<lambda>x. pw_token x = token \<and> pw_used_at x = None) (st_resets db')"
proof -
  let ?refused = "\<lambda>r. r \<noteq> NoContent"
  have w: "solitary w" "\<And>n. wd_fault w n = None" using assms(1) by (auto simp: alone_def solitary_def)
  obtain s' where s': "password_reset_confirm env w token pw \<lparr>rn_db = db, rn_calls = 0\<rparr> = (Inr NoContent, s')"
      "db' = rn_db s'"
    using early_serve [of ?refused, OF early_reset assms(2)] by auto
  obtain r h and s1 :: "store run" where r: "find_reset token db = Some r" "pw_used_at r = None" "wd_now w (Suc 0) \<le> pw_expires_at r"
      "ie_allow_password env" and h: "hash_password env (wd_bytes w (Suc (Suc 0))) pw = Inr h"
    and db': "db' = snd (delete_user_sessions (pw_user_id r) None
        (snd (mark_password_reset_used token (wd_now w (rn_calls s1)) (rn_db s1))))"
    and s1: "rn_db s1 = snd (update_user_row (pw_user_id r) None None (Some h) (wd_now w (Suc (Suc (Suc 0)))) db)"
    using s' unfolding password_reset_confirm_def
    by (auto simp: outcomes w hash_or_fail_outcome not_less dest!: update_user_outcome [OF w(1)]
        split: sum.splits option.splits)
  show ?thesis
    using r h unfolding db' s1 numeral_2_eq_2 One_nat_def
    by (simp add: used_reset find_user_updated option.map_comp comp_def)
qed



text \<open>
  Two confirmations of one token race: one that read the unused token, but writes after the other
  is done, is told that the token is used, yet its password is the one that stays.
\<close>

theorem refused_reset_sets_password:
  assumes "alone w2" "serve (password_reset_confirm env w2 token pw2) db = (NoContent, db2)"
    and w: "\<And>n. wd_fault w n = None"
      "\<And>n x. wd_other w n x = (if n = 3 then snd (serve (password_reset_confirm env w2 token pw2) x) else x)"
    and r: "find_reset token db = Some r" "wd_now w 1 \<le> pw_expires_at r" "find_user (pw_user_id r) db \<noteq> None"
    and h: "hash_password env (wd_bytes w 2) pw = Inr h"
  shows "\<exists>db'. serve (password_reset_confirm env w token pw) db = (token_refused, db')
    \<and> map_option ac_password_hash (find_user (pw_user_id r) db') = Some (Some h)"
proof -
  obtain r' where other: "find_reset token db = Some r'" "pw_used_at r' = None" "ie_allow_password env"
      "\<not> list_ex (\<lambda>x. pw_token x = token \<and> pw_used_at x = None) (st_resets db2)" "find_user (pw_user_id r) db2 \<noteq> None"
    using reset_facts [OF assms(1,2)] r(1,3) by force
  define other where "other = (\<lambda>x. snd (serve (password_reset_confirm env w2 token pw2) x))"
  have run2: "other db = db2" using assms(2) by (simp add: other_def)
  have seen: "seen w \<lparr>rn_db = x, rn_calls = n\<rparr> = (if n = Suc (Suc (Suc 0)) then other x else x)" for n x
    by (simp add: seen_def w(2) other_def numeral_3_eq_3)
  note facts = r(1) r(2) [unfolded One_nat_def] h [unfolded numeral_2_eq_2] other
  define db3 where "db3 = snd (update_user_row (pw_user_id r) None None (Some h) (wd_now w (Suc (Suc (Suc 0)))) db2)"
  have lost: "fst (mark_password_reset_used token t db3) = Inr False" for t
    using other(4) by (simp add: mark_password_reset_used_def db3_def)
  have hash: "find_user (pw_user_id r) db3 \<noteq> None \<and> map_option ac_password_hash (find_user (pw_user_id r) db3) = Some (Some h)"
    using other(5) by (auto simp: db3_def find_user_updated)
  have "\<exists>n. password_reset_confirm env w token pw \<lparr>rn_db = db, rn_calls = 0\<rparr>
      = (Inl token_refused, \<lparr>rn_db = snd (mark_password_reset_used token (wd_now w (Suc (Suc (Suc (Suc (Suc 0)))))) db3), rn_calls = n\<rparr>)"
    using facts
    by (auto simp: password_reset_confirm_def runs stmt_runs w(1) seen run2 hash_or_fail_def update_user_def
        find_user_updated lost simp flip: db3_def)
  then show ?thesis using hash by (auto simp: serve_def used_reset)
qed

theorem refused_reset_sets_password_witness:
  "\<exists>db'. serve (password_reset_confirm demo_env (quiet\<lparr>wd_other := (\<lambda>n x. if n = 3
        then snd (serve (password_reset_confirm demo_env quiet ''r1'' ''battery staple'') x) else x)\<rparr>) ''r1'' ''late password'') demo_store
      = (token_refused, db') \<and> map_option ac_password_hash (find_user ''u1'' db') = Some (Some ''h:late password'')"
proof -
  have "fst (serve (password_reset_confirm demo_env quiet ''r1'' ''battery staple'') demo_store) = NoContent" by code_simp
  then have run: "serve (password_reset_confirm demo_env quiet ''r1'' ''battery staple'') demo_store
      = (NoContent, snd (serve (password_reset_confirm demo_env quiet ''r1'' ''battery staple'') demo_store))"
    by (simp add: prod_eq_iff)
  have "find_reset ''r1'' demo_store = Some \<lparr>pw_token = ''r1'', pw_user_id = ''u1'', pw_expires_at = 10, pw_used_at = None, pw_created_at = 0\<rparr>"
    "find_user ''u1'' demo_store \<noteq> None" "hash_password demo_env (wd_bytes quiet 2) ''late password'' = Inr ''h:late password''"
    by code_simp+
  then show ?thesis
    using refused_reset_sets_password [OF _ run, of "quiet\<lparr>wd_other := (\<lambda>n x. if n = 3
        then snd (serve (password_reset_confirm demo_env quiet ''r1'' ''battery staple'') x) else x)\<rparr>" _ "''late password''" "''h:late password''"]
    by simp
qed

end
