(* ===== verification/OrgProps.thy ===== *)
theory OrgProps
  imports Orgs OAuth AccountProps
begin

text \<open>
  What the handlers of organizations guarantee: one owner for each organization whatever requests
  are served one after the other, and what goes wrong when they overlap; who may change an
  organization; what a deletion leaves; that a stored credential can be read back.
\<close>

section \<open>The owner of an organization\<close>

definition owners :: "string \<Rightarrow> store \<Rightarrow> membership list" where
  "owners org db = filter (\<lambda>m. mb_org_id m = org \<and> mb_role m = Owner) (st_members db)"

text \<open>The keys of the tables, at most one owner each, and nobody is invited to be one.\<close>

definition tenancy_ok :: "store \<Rightarrow> bool" where
  "tenancy_ok db =
     ((\<forall>org. length (owners org db) \<le> 1)
      \<and> distinct (map (\<lambda>m. (mb_org_id m, mb_user_id m)) (st_members db))
      \<and> mb_org_id ` set (st_members db) \<subseteq> og_id ` set (st_orgs db)
      \<and> mb_user_id ` set (st_members db) \<subseteq> ac_id ` set (st_users db)
      \<and> Owner \<notin> iv_role ` set (st_invitations db))"

text \<open>The invariant, and an owner of one organization if it had one.\<close>

definition held :: "bool \<Rightarrow> string \<Rightarrow> store \<Rightarrow> bool" where
  "held b org db = (tenancy_ok db \<and> (b \<longrightarrow> owners org db \<noteq> []))"

named_theorems held_keeps \<open>statements that keep the owners\<close>

lemma images_change_rows [simp]:
  "(\<And>x. g (f x) = g x) \<Longrightarrow> g ` set (change_rows P f xs) = g ` set xs"
  by (induction xs) (auto simp: change_rows_def)

lemma held_cong:
  assumes "st_members db' = st_members db" "og_id ` set (st_orgs db) \<subseteq> og_id ` set (st_orgs db')"
    "ac_id ` set (st_users db) \<subseteq> ac_id ` set (st_users db')" "Owner \<notin> iv_role ` set (st_invitations db) \<Longrightarrow> Owner \<notin> iv_role ` set (st_invitations db')"
  shows "held b org db \<Longrightarrow> held b org db'"
proof -
  have "owners o' db' = owners o' db" for o' using assms(1) by (simp add: owners_def)
  moreover note assms(4)
  moreover note subset_trans [OF _ assms(2), of "mb_org_id ` set (st_members db)"]
    subset_trans [OF _ assms(3), of "mb_user_id ` set (st_members db)"]
  ultimately show "held b org db \<Longrightarrow> held b org db'"
    unfolding held_def tenancy_ok_def assms(1) by simp
qed

lemma find_none: "find P xs = None \<longleftrightarrow> (\<forall>x \<in> set xs. \<not> P x)"
  by (auto simp: find_None_iff)

lemma held_reads [held_keeps]: "held b org db \<Longrightarrow> held b org (snd (reading f db))"
  by simp

lemma held_users [held_keeps]:
  "held b org db \<Longrightarrow> held b org (snd (create_user u db))"
  "held b org db \<Longrightarrow> held b org (snd (update_user_row i role active hash now db))"
  "held b org db \<Longrightarrow> held b org (snd (touch_last_login i now db))"
  "held b org db \<Longrightarrow> held b org (snd (transfer_user_owner i now db))"
  by (erule held_cong [rotated -1];
      auto simp: create_user_def update_user_row_def touch_last_login_def transfer_user_owner_def Let_def split: option.splits)+

lemma held_others [held_keeps]:
  "held b org db \<Longrightarrow> held b org (snd (create_session x db))"
  "held b org db \<Longrightarrow> held b org (snd (delete_session i db))"
  "held b org db \<Longrightarrow> held b org (snd (delete_user_sessions i e db))"
  "held b org db \<Longrightarrow> held b org (snd (create_password_reset r db))"
  "held b org db \<Longrightarrow> held b org (snd (mark_password_reset_used token now db))"
  "held b org db \<Longrightarrow> held b org (snd (record_login_attempt email ok now db))"
  "held b org db \<Longrightarrow> held b org (snd (rename_org_row i name now db))"
  "held b org db \<Longrightarrow> held b org (snd (create_application a db))"
  "held b org db \<Longrightarrow> held b org (snd (rename_app_row i name now db))"
  "held b org db \<Longrightarrow> held b org (snd (delete_application i db))"
  "held b org db \<Longrightarrow> held b org (snd (upsert_org_provider_credential i p c n h now db))"
  "held b org db \<Longrightarrow> held b org (snd (delete_credential i p db))"
  "held b org db \<Longrightarrow> held b org (snd (upsert_app_storage row now db))"
  "held b org db \<Longrightarrow> held b org (snd (delete_storage i db))"
  "held b org db \<Longrightarrow> held b org (snd (set_org_models i ms db))"
  "held b org db \<Longrightarrow> held b org (snd (set_app_model_access i mode ms db))"
  "held b org db \<Longrightarrow> held b org (snd (insert_audit entry db))"
  by (erule held_cong [rotated -1];
      auto simp: create_session_def delete_session_def delete_user_sessions_def create_password_reset_def
        mark_password_reset_used_def record_login_attempt_def rename_org_row_def create_application_def rename_app_row_def
        delete_application_def upsert_org_provider_credential_def delete_credential_def upsert_app_storage_def
        delete_storage_def set_org_models_def set_app_model_access_def insert_audit_def Let_def)+

lemma held_tables [held_keeps]:
  "held b org db \<Longrightarrow> held b org (snd (create_organization x db))"
  "held b org db \<Longrightarrow> held b org (snd (mark_invitation_used token now db))"
  "held b org db \<Longrightarrow> iv_role iv \<noteq> Owner \<Longrightarrow> held b org (snd (create_invitation iv db))"
  by (erule held_cong [rotated -1];
      auto simp: create_organization_def mark_invitation_used_def create_invitation_def Let_def)+

lemma member_role_of:
  "distinct (map (\<lambda>m. (mb_org_id m, mb_user_id m)) (st_members db)) \<Longrightarrow> m \<in> set (st_members db)
     \<Longrightarrow> member_role (mb_org_id m) (mb_user_id m) db = Some (mb_role m)"
proof -
  have "distinct (map (\<lambda>m. (mb_org_id m, mb_user_id m)) ms) \<Longrightarrow> m \<in> set ms
      \<Longrightarrow> find (\<lambda>x. mb_org_id x = mb_org_id m \<and> mb_user_id x = mb_user_id m) ms = Some m" for ms
    by (induction ms) (auto simp: image_iff)
  then show "distinct (map (\<lambda>m. (mb_org_id m, mb_user_id m)) (st_members db)) \<Longrightarrow> m \<in> set (st_members db) \<Longrightarrow> ?thesis"
    by (simp add: member_role_def)
qed

lemma filter_map_same:
  "(\<And>x. x \<in> set xs \<Longrightarrow> P (f x) = P x \<and> (P x \<longrightarrow> f x = x)) \<Longrightarrow> filter P (map f xs) = filter P xs"
  by (induction xs) auto

lemma held_same_owners:
  assumes "held b org db" "\<And>o'. owners o' db' = owners o' db"
    "distinct (map (\<lambda>m. (mb_org_id m, mb_user_id m)) (st_members db'))"
    "(\<lambda>m. (mb_org_id m, mb_user_id m)) ` set (st_members db') \<subseteq> (\<lambda>m. (mb_org_id m, mb_user_id m)) ` set (st_members db)"
    "st_orgs db' = st_orgs db" "st_users db' = st_users db" "st_invitations db' = st_invitations db"
  shows "held b org db'"
proof -
  have "mb_org_id ` set (st_members db') \<subseteq> mb_org_id ` set (st_members db)"
    "mb_user_id ` set (st_members db') \<subseteq> mb_user_id ` set (st_members db)"
    using assms(4) by (auto simp: subset_iff image_iff)
  note keys = this [THEN subset_trans]
  show ?thesis using assms(1) keys assms(2,3) unfolding held_def tenancy_ok_def assms(5-7) by simp
qed

lemma held_update_role:
  assumes "held b org db" "role \<noteq> Owner" "member_role i u db \<noteq> Some Owner"
  shows "held b org (snd (update_member_role i u role db))"
proof -
  have d: "distinct (map (\<lambda>m. (mb_org_id m, mb_user_id m)) (st_members db))" using assms(1) by (simp add: held_def tenancy_ok_def)
  have "owners o' (snd (update_member_role i u role db)) = owners o' db" for o'
    unfolding owners_def update_member_role_def change_rows_def
    using member_role_of [OF d] assms(2,3) by (simp, intro filter_map_same) (auto split: if_splits)
  moreover have keys: "map (\<lambda>m. (mb_org_id m, mb_user_id m)) (st_members (snd (update_member_role i u role db)))
      = map (\<lambda>m. (mb_org_id m, mb_user_id m)) (st_members db)"
    by (auto simp: update_member_role_def change_rows_def)
  moreover note d arg_cong [OF keys, of set]
  ultimately show ?thesis
    by (intro held_same_owners [OF assms(1)]) (simp_all, simp_all add: update_member_role_def)
qed

lemma held_remove_row:
  assumes "held b org db" "member_role i u db \<noteq> Some Owner"
  shows "held b org (snd (remove_org_member i u db))"
proof -
  have d: "distinct (map (\<lambda>m. (mb_org_id m, mb_user_id m)) (st_members db))" using assms(1) by (simp add: held_def tenancy_ok_def)
  have "owners o' (snd (remove_org_member i u db)) = owners o' db" for o'
    unfolding owners_def remove_org_member_def
    using member_role_of [OF d] assms(2) by (auto intro!: filter_cong)
  then show ?thesis
    by (rule held_same_owners [OF assms(1)]) (use d in \<open>auto simp: remove_org_member_def distinct_map_filter\<close>)
qed

lemma held_add_member:
  assumes "held b org db" "role = Owner \<Longrightarrow> \<forall>m \<in> set (st_members db). mb_org_id m \<noteq> o'"
  shows "held b org (snd (add_org_member o' u role now db))"
proof -
  let ?m = "\<lparr>mb_org_id = o', mb_user_id = u, mb_role = role, mb_created_at = now\<rparr>"
  show ?thesis
  proof (cases "member_role o' u db = None \<and> find_org o' db \<noteq> None \<and> find_user u db \<noteq> None")
    case True
    then have 2: "snd (add_org_member o' u role now db) = db\<lparr>st_members := st_members db @ [?m]\<rparr>" "member_role o' u db = None"
        "find_org o' db \<noteq> None" "find_user u db \<noteq> None"
      by (auto simp: add_org_member_def)
    have "owners x (db\<lparr>st_members := st_members db @ [?m]\<rparr>) = owners x db @ (if x = o' \<and> role = Owner then [?m] else [])" for x
      by (simp add: owners_def)
    moreover have "role = Owner \<Longrightarrow> owners o' db = []" using assms(2) by (auto simp: owners_def filter_empty_conv)
    moreover have "(o', u) \<notin> (\<lambda>m. (mb_org_id m, mb_user_id m)) ` set (st_members db)"
      using 2(2) by (auto simp: member_role_def find_none)
    moreover have "o' \<in> og_id ` set (st_orgs db)" "u \<in> ac_id ` set (st_users db)"
      using 2(3,4) by (auto simp: find_org_def find_user_def dest!: find_SomeD)
    ultimately show ?thesis using assms(1) by (simp add: 2(1) held_def tenancy_ok_def)
  next
    case False
    then have "snd (add_org_member o' u role now db) = db" by (auto simp: add_org_member_def)
    then show ?thesis using assms(1) by simp
  qed
qed

definition transferred :: "string \<Rightarrow> string \<Rightarrow> membership \<Rightarrow> membership" where
  "transferred o' u m = (if mb_org_id m = o' \<and> mb_user_id m = u then m\<lparr>mb_role := Owner\<rparr>
      else if mb_org_id m = o' \<and> mb_role m = Owner then m\<lparr>mb_role := Admin\<rparr> else m)"

lemma transferred_members:
  "member_role o' u db \<noteq> None \<Longrightarrow>
     st_members (snd (transfer_org_owner o' u db)) = map (transferred o' u) (st_members db)"
  by (auto simp: transfer_org_owner_def change_rows_def transferred_def)

text \<open>The owners after a transfer: the new owner's row alone.\<close>

lemma transferred_owners:
  assumes "member_role o' u db \<noteq> None" "distinct (map (\<lambda>m. (mb_org_id m, mb_user_id m)) (st_members db))"
  shows "length (owners o' (snd (transfer_org_owner o' u db))) = 1"
    and "x \<noteq> o' \<Longrightarrow> owners x (snd (transfer_org_owner o' u db)) = owners x db"
proof -
  note ms = transferred_members [OF assms(1)]
  show "x \<noteq> o' \<Longrightarrow> owners x (snd (transfer_org_owner o' u db)) = owners x db"
    unfolding owners_def ms by (intro filter_map_same) (auto simp: transferred_def split: if_splits)
  have promoted: "filter (\<lambda>m. mb_org_id m = o' \<and> mb_role m = Owner) (map (transferred o' u) xs)
      = map (\<lambda>m. m\<lparr>mb_role := Owner\<rparr>) (filter (\<lambda>m. mb_org_id m = o' \<and> mb_user_id m = u) xs)" for xs
    by (induction xs) (auto simp: transferred_def)
  have single: "distinct (map (\<lambda>m. (mb_org_id m, mb_user_id m)) xs) \<Longrightarrow> find (\<lambda>m. mb_org_id m = o' \<and> mb_user_id m = u) xs \<noteq> None
      \<Longrightarrow> length (filter (\<lambda>m. mb_org_id m = o' \<and> mb_user_id m = u) xs) = 1" for xs
    by (induction xs) (auto simp: filter_empty_conv image_iff split: if_splits)
  show "length (owners o' (snd (transfer_org_owner o' u db))) = 1"
    unfolding owners_def ms promoted length_map using assms by (intro single) (auto simp: member_role_def)
qed

lemma held_transfer:
  assumes "held b org db"
  shows "held b org (snd (transfer_org_owner o' u db))"
proof (cases "member_role o' u db = None")
  case False
  have d: "distinct (map (\<lambda>m. (mb_org_id m, mb_user_id m)) (st_members db))" using assms by (simp add: held_def tenancy_ok_def)
  have own: "length (owners x (snd (transfer_org_owner o' u db))) = (if x = o' then 1 else length (owners x db))" for x
    using transferred_owners [OF False d] by simp
  have keys: "map (\<lambda>m. (mb_org_id m, mb_user_id m)) (st_members (snd (transfer_org_owner o' u db)))
      = map (\<lambda>m. (mb_org_id m, mb_user_id m)) (st_members db)"
    using False by (auto simp: transfer_org_owner_def change_rows_def)
  have "mb_org_id ` set (st_members (snd (transfer_org_owner o' u db))) = mb_org_id ` set (st_members db)"
    "mb_user_id ` set (st_members (snd (transfer_org_owner o' u db))) = mb_user_id ` set (st_members db)"
    "st_orgs (snd (transfer_org_owner o' u db)) = st_orgs db" "st_users (snd (transfer_org_owner o' u db)) = st_users db"
    "st_invitations (snd (transfer_org_owner o' u db)) = st_invitations db"
    using False by (auto simp: transfer_org_owner_def)
  moreover have "\<forall>x. length (owners x (snd (transfer_org_owner o' u db))) \<le> 1"
    using assms own by (simp add: held_def tenancy_ok_def)
  moreover have "b \<Longrightarrow> owners org (snd (transfer_org_owner o' u db)) \<noteq> []"
    using assms own [of org] by (cases "org = o'") (auto simp: held_def)
  ultimately show ?thesis using assms keys by (simp add: held_def tenancy_ok_def)
qed (use assms in \<open>simp add: transfer_org_owner_def\<close>)

lemma held_delete_org:
  assumes "held b org db" "b \<longrightarrow> org \<noteq> i"
  shows "held b org (snd (delete_organization i db))"
proof -
  show ?thesis
  proof (cases "isl (fst (delete_organization i db))")
    case True
    then have "snd (delete_organization i db) = db" by (auto simp: delete_organization_def Let_def split: if_splits)
    then show ?thesis using assms(1) by simp
  next
    case False
    let ?db = "snd (delete_organization i db)"
    have ms: "st_members ?db = filter (\<lambda>m. mb_org_id m \<noteq> i) (st_members db)"
      and os: "st_orgs ?db = filter (\<lambda>o'. og_id o' \<noteq> i) (st_orgs db)" and us: "st_users ?db = st_users db"
      and iv: "st_invitations ?db = filter (\<lambda>v. iv_org_id v \<noteq> i) (st_invitations db)"
      using False unfolding delete_organization_def Let_def by (simp_all split: if_splits)
    have own: "owners x ?db = (if x = i then [] else owners x db)" for x
      by (auto simp: owners_def ms filter_empty_conv intro!: filter_cong)
    have "mb_org_id ` set (st_members ?db) \<subseteq> og_id ` set (st_orgs ?db)"
      using assms(1) by (auto simp: held_def tenancy_ok_def ms os subset_iff image_iff)
    moreover have "mb_user_id ` set (st_members ?db) \<subseteq> ac_id ` set (st_users ?db)"
      using assms(1) by (auto simp: held_def tenancy_ok_def ms us subset_iff image_iff)
    moreover have "Owner \<notin> iv_role ` set (st_invitations ?db)"
      using assms(1) by (auto simp: held_def tenancy_ok_def iv image_iff)
    moreover have "distinct (map (\<lambda>m. (mb_org_id m, mb_user_id m)) (st_members ?db))"
      using assms(1) by (simp add: held_def tenancy_ok_def ms distinct_map_filter)
    ultimately show ?thesis using assms own by (auto simp: held_def tenancy_ok_def)
  qed
qed

lemma org_reads [simp]:
  "snd (get_organization i db) = db" "snd (get_org_by_slug s db) = db" "snd (count_users db) = db"
  "snd (list_user_rows db) = db" "snd (get_session i db) = db" "snd (list_user_sessions i db) = db"
  "snd (list_orgs_for_user i db) = db" "snd (list_org_members i db) = db" "snd (get_application i db) = db"
  "snd (list_apps_for_org i db) = db" "snd (list_credentials i db) = db" "snd (get_storage i db) = db"
  "snd (get_org_models i db) = db" "snd (get_app_mode i db) = db" "snd (get_app_models i db) = db"
  by (simp_all add: get_organization_def get_org_by_slug_def count_users_def list_user_rows_def get_session_def
    list_user_sessions_def list_orgs_for_user_def list_org_members_def get_application_def list_apps_for_org_def
    list_credentials_def get_storage_def get_org_models_def get_app_mode_def get_app_models_def)

lemma keeping_first_free [keeping_intros]:
  "(\<And>c. keeping p (taken c)) \<Longrightarrow> keeping p (first_free taken base ns)"
proof (induction ns)
  case (Cons n ns)
  show ?case unfolding first_free.simps by (intro keeping_intros Cons)
qed (simp add: keeping_ret)

lemma keeping_map_error [keeping_intros]: "keeping p m \<Longrightarrow> keeping p (map_error g m)"
  unfolding keeping_def triple_def map_error_def by (fastforce split: prod.splits sum.splits)

lemma keeping_tell [keeping_intros]: "(\<And>db. p db \<Longrightarrow> p (snd (insert_audit e db))) \<Longrightarrow> keeping p (tell e)"
  by (simp add: keeping_def triple_def tell_def)

text \<open>The parts of the handlers that read, check and draw.\<close>

lemmas handler_parts = own_user_def update_user_def slug_taken_def unique_org_slug_def
  create_session_cookies_def
  require_member_perm_def org_for_app_def session_user_def update_organization_def unique_app_slug_def
  update_application_def hinted_def sealed_def storage_secret_def check_pool_def log_audit_user_def log_audit_account_def
  log_org_audit_def get_app_model_access_def

lemma held_attempts [simp]: "held b org (db\<lparr>st_attempts := x\<rparr>) = held b org db"
  by (simp add: held_def tenancy_ok_def owners_def)

lemma keeping_admin [keeping_intros]: "keeping p (authorize_global_user_admin env ctx perm)"
  unfolding authorize_global_user_admin_def by (auto intro!: keeping_intros split: mode.split)

text \<open>What the value of a step satisfies.\<close>

lemma keeping_given:
  assumes "keeping p m" "\<And>s a s'. m s = (Inr a, s') \<Longrightarrow> Q a" "\<And>a. Q a \<Longrightarrow> keeping p (f a)"
  shows "keeping p (andthen m f)"
  using assms unfolding keeping_def triple_def andthen_def by (fastforce split: prod.splits sum.splits)

lemma drawn_invitation:
  "keeping p (draw_invitation w ctx org email role)"
  "draw_invitation w ctx org email role s = (Inr iv, s') \<Longrightarrow> iv_role iv = role"
  unfolding draw_invitation_def by (auto intro!: keeping_intros simp: outcomes)

lemmas keeping_drawn = keeping_given [OF drawn_invitation(1), where Q = "\<lambda>iv. iv_role iv = role" for role, OF drawn_invitation(2)]

lemma keeping_hash_or_fail [keeping_intros]: "keeping p (hash_or_fail f env w pw)"
  unfolding hash_or_fail_def by (intro keeping_intros) (auto intro!: keeping_intros split: password_error.split)

lemma held_login [keeping_intros]: "solitary w \<Longrightarrow> keeping (held b org) (login env w email pw)"
  unfolding login_def handler_parts by (intro keeping_intros) (simp_all add: held_keeps)

lemma held_logout [keeping_intros]: "solitary w \<Longrightarrow> keeping (held b org) (logout w ctx)"
  unfolding logout_def handler_parts by (intro keeping_intros) (simp_all add: held_keeps)

lemma held_reset_request [keeping_intros]: "solitary w \<Longrightarrow> keeping (held b org) (password_reset_request env w email)"
  unfolding password_reset_request_def handler_parts by (intro keeping_intros) (simp_all add: held_keeps)

lemma held_reset_confirm [keeping_intros]: "solitary w \<Longrightarrow> keeping (held b org) (password_reset_confirm env w token pw)"
  unfolding password_reset_confirm_def handler_parts by (intro keeping_intros) (simp_all add: held_keeps)

lemma held_patch_account [keeping_intros]: "solitary w \<Longrightarrow> keeping (held b org) (patch_account env w ctx current new)"
  unfolding patch_account_def handler_parts by (intro keeping_intros) (simp_all add: held_keeps)

lemma held_revoke_session [keeping_intros]: "solitary w \<Longrightarrow> keeping (held b org) (revoke_session env w ctx i)"
  unfolding revoke_session_def handler_parts by (intro keeping_intros) (simp_all add: held_keeps)

lemma held_patch_user [keeping_intros]: "solitary w \<Longrightarrow> keeping (held b org) (patch_user env w ctx i role act)"
  unfolding patch_user_def handler_parts by (intro keeping_intros) (simp_all add: held_keeps)

lemma held_delete_user [keeping_intros]: "solitary w \<Longrightarrow> keeping (held b org) (delete_user env w ctx i)"
  unfolding delete_user_def handler_parts by (intro keeping_intros) (simp_all add: held_keeps)

lemma held_transfer_owner [keeping_intros]: "solitary w \<Longrightarrow> keeping (held b org) (transfer_owner env w ctx i)"
  unfolding transfer_owner_def handler_parts by (intro keeping_intros) (simp_all add: held_keeps)

lemma held_invite_user [keeping_intros]: "solitary w \<Longrightarrow> keeping (held b org) (invite_user env w ctx email role)"
  unfolding invite_user_def handler_parts by (intro keeping_drawn keeping_intros) (auto simp: held_keeps)

lemma held_patch_org [keeping_intros]: "solitary w \<Longrightarrow> keeping (held b org) (patch_org w ctx i name)"
  unfolding patch_org_def handler_parts by (intro keeping_intros) (simp_all add: held_keeps)

lemma held_invite_member [keeping_intros]: "solitary w \<Longrightarrow> keeping (held b org) (invite_member env w ctx i email role)"
  unfolding invite_member_def handler_parts by (intro keeping_drawn keeping_intros) (auto simp: held_keeps)

lemma held_create_app [keeping_intros]: "solitary w \<Longrightarrow> keeping (held b org) (create_app env w ctx i name)"
  unfolding create_app_def handler_parts by (intro keeping_intros) (simp_all add: held_keeps)

lemma held_patch_app [keeping_intros]: "solitary w \<Longrightarrow> keeping (held b org) (patch_app w ctx i name)"
  unfolding patch_app_def handler_parts by (intro keeping_intros) (simp_all add: held_keeps)

lemma held_delete_app [keeping_intros]: "solitary w \<Longrightarrow> keeping (held b org) (delete_app w ctx i)"
  unfolding delete_app_def handler_parts by (intro keeping_intros) (simp_all add: held_keeps)

lemma held_create_credential [keeping_intros]: "solitary w \<Longrightarrow> keeping (held b org) (create_org_provider_credential env w ctx i provider creds)"
  unfolding create_org_provider_credential_def handler_parts by (intro keeping_intros) (simp_all add: held_keeps)

lemma held_delete_credential [keeping_intros]: "solitary w \<Longrightarrow> keeping (held b org) (delete_org_provider_credential w ctx i provider)"
  unfolding delete_org_provider_credential_def handler_parts by (intro keeping_intros) (simp_all add: held_keeps)

lemma held_put_storage [keeping_intros]: "solitary w \<Longrightarrow> keeping (held b org) (put_app_storage env w ctx i body)"
  unfolding put_app_storage_def handler_parts by (intro keeping_intros) (simp_all add: held_keeps)

lemma held_delete_storage [keeping_intros]: "solitary w \<Longrightarrow> keeping (held b org) (delete_app_storage w ctx i)"
  unfolding delete_app_storage_def handler_parts by (intro keeping_intros) (simp_all add: held_keeps)

lemma held_put_org_models [keeping_intros]: "solitary w \<Longrightarrow> keeping (held b org) (put_org_allowed_models w ctx i models)"
  unfolding put_org_allowed_models_def handler_parts by (intro keeping_intros) (simp_all add: held_keeps)

lemma held_put_app_models [keeping_intros]: "solitary w \<Longrightarrow> keeping (held b org) (put_app_allowed_models w ctx i mode models)"
  unfolding put_app_allowed_models_def handler_parts by (intro keeping_intros) (simp_all add: held_keeps)

text \<open>Handlers that write a membership after they read one.\<close>

lemma keeping_runs:
  "(\<And>s x s'. p (rn_db s) \<Longrightarrow> m s = (x, s') \<Longrightarrow> p (rn_db s')) \<Longrightarrow> keeping p m"
  unfolding keeping_def triple_def by (auto split: prod.split sum.split)

lemma keeping_run: "keeping p m \<Longrightarrow> p (rn_db s) \<Longrightarrow> m s = (x, s') \<Longrightarrow> p (rn_db s')"
  unfolding keeping_def triple_def by (cases x) fastforce+

lemma keeping_authorized [keeping_intros]: "solitary w \<Longrightarrow> keeping p (require_member_perm w ctx i perm)"
  unfolding require_member_perm_def by (intro keeping_intros) simp_all

lemma held_patch_member [keeping_intros]:
  assumes "solitary w"
  shows "keeping (held b org) (patch_member w ctx i u role)"
  unfolding patch_member_def
proof (rule keeping_andthen [OF keeping_authorized [OF assms]], rule keeping_unless)
  assume "\<not> role = Owner"
  then show "keeping (held b org) (andthen (need internal_error (stmt w (get_membership i u))) (\<lambda>m.
     andthen (must member_not_found m) (\<lambda>current.
     unless (current = Owner)
       (OrgError 400 ''cannot_demote_owner'' (''Cannot change the Owner'' @ [CHR 0x27] @ ''s role. Use transfer-owner.'')) (
     andthen (need internal_error (stmt w (update_member_role i u role))) (\<lambda>_. ret Confirmed)))))"
    using assms held_update_role by (intro keeping_runs) (auto simp: outcomes)
qed

lemma held_remove_member [keeping_intros]:
  assumes "solitary w"
  shows "keeping (held b org) (remove_member w ctx i u)"
  unfolding remove_member_def log_org_audit_def
proof (rule keeping_andthen [OF keeping_authorized [OF assms]])
  fix a
  show "keeping (held b org) (andthen (need internal_error (stmt w (get_membership i u))) (\<lambda>m.
     unless (m = Some Owner)
       (OrgError 400 ''cannot_remove_owner'' ''Cannot remove the Owner. Transfer ownership first.'') (
     andthen (must member_not_found m) (\<lambda>_.
     andthen (need internal_error (stmt w (remove_org_member i u))) (\<lambda>_.
     andthen (tell (audit_entry_for ctx ''org.member.remove'' ''membership'' u (Some i))) (\<lambda>_. ret Done))))))"
    using assms held_remove_row held_others(17) by (intro keeping_runs) (auto simp: outcomes tell_def)
qed

lemma held_transfer_ownership [keeping_intros]:
  "solitary w \<Longrightarrow> keeping (held b org) (transfer_ownership w ctx i u)"
  unfolding transfer_ownership_def log_org_audit_def
  by (intro keeping_intros) (simp_all add: held_keeps held_transfer)

lemma held_delete_handler:
  "solitary w \<Longrightarrow> b \<longrightarrow> org \<noteq> i \<Longrightarrow> keeping (held b org) (delete_org w ctx i)"
  unfolding delete_org_def log_org_audit_def
  by (intro keeping_intros) (simp_all add: held_keeps held_delete_org)

lemma held_join [keeping_intros]:
  assumes "solitary w" "role \<noteq> Owner"
  shows "keeping (held b org) (join_org w o' u role)"
  unfolding join_org_def by (intro keeping_intros) (auto simp: assms intro!: held_add_member)

lemma held_invited_account [keeping_intros]:
  "solitary w \<Longrightarrow> keeping (held b org) (invited_account env w iv pw)"
  unfolding invited_account_def by (intro keeping_intros) (simp_all add: held_keeps)

text \<open>An invitation that is found makes nobody an owner.\<close>

lemma held_accept_invitation [keeping_intros]:
  assumes "solitary w"
  shows "keeping (held b org) (accept_invitation env w token password)"
proof -
  have sess: "keeping (held b org) (create_session_cookies w u)" for u
    unfolding create_session_cookies_def using assms by (intro keeping_intros) (simp_all add: held_keeps)
  have rest: "keeping (held b org) (accept_found env w token pw iv)" if "iv_role iv \<noteq> Owner" for iv pw
    unfolding accept_found_def using assms that by (intro keeping_intros sess) (simp_all add: held_keeps)
  show ?thesis
    unfolding accept_invitation_def
  proof (rule keeping_andthen [OF keeping_must], rule keeping_runs)
    fix pw and s :: "store run" and x s'
    assume s: "held b org (rn_db s)" and run: "andthen (need db_error (stmt w (get_invitation_row token))) (\<lambda>r.
       andthen (must (id_error 404 ''invitation_not_found'' ''Invitation not found'') r) (accept_found env w token pw)) s = (x, s')"
    consider "rn_db s' = rn_db s"
      | iv where "find_invitation token (rn_db s) = Some iv"
          "accept_found env w token pw iv \<lparr>rn_db = rn_db s, rn_calls = Suc (rn_calls s)\<rparr> = (x, s')"
      using run assms by (auto simp: outcomes)
    then show "held b org (rn_db s')"
    proof cases
      case (2 iv)
      then have "iv \<in> set (st_invitations (rn_db s))" by (auto simp: find_invitation_def dest: find_SomeD)
      then have "iv_role iv \<noteq> Owner" using s by (metis held_def image_eqI tenancy_ok_def)
      then show ?thesis using keeping_run [OF rest _ 2(2)] s by simp
    qed (use s in simp)
  qed
qed

text \<open>A new organization has no member before its owner.\<close>

definition bare :: "(store \<Rightarrow> bool) \<Rightarrow> string \<Rightarrow> store \<Rightarrow> bool" where
  "bare p o' db = (p db \<and> (\<forall>m \<in> set (st_members db). mb_org_id m \<noteq> o'))"

lemma bare_after_create:
  assumes "solitary w" and "\<And>db. p db \<Longrightarrow> tenancy_ok db" and "\<And>db. p db \<Longrightarrow> p (snd (create_organization x db))"
  shows "triple p (need f (stmt w (create_organization x))) (\<lambda>_. bare p (og_id x)) (\<lambda>_. p)"
  unfolding triple_def
proof (intro allI impI)
  fix s :: "store run"
  assume p: "p (rn_db s)"
  have "bare p (og_id x) (snd (create_organization x (rn_db s)))" if "fst (create_organization x (rn_db s)) = Inr ()"
    using that p assms(2) [OF p] assms(3) [OF p]
    by (auto simp: bare_def create_organization_def tenancy_ok_def find_org_def find_none split: if_splits)
  moreover have "p (snd (create_organization x (rn_db s)))" by (rule assms(3) [OF p])
  ultimately show "case need f (stmt w (create_organization x)) s of
      (Inr a, s') \<Rightarrow> bare p (og_id x) (rn_db s') | (Inl r, s') \<Rightarrow> p (rn_db s')"
    using p assms(1) by (cases "create_organization x (rn_db s)")
      (auto simp: need_def andthen_def stmt_def ret_def respond_def solitary_def Let_def
        split: option.split sum.split prod.splits)
qed

lemma held_found_org:
  assumes "solitary w" "keeping (held b org) rest"
  shows "keeping (held b org) (andthen (need f (stmt w (create_organization x))) (\<lambda>_.
    andthen (need g (stmt_at w (add_org_member (og_id x) u Owner))) (\<lambda>_. rest)))"
  unfolding keeping_def
proof (rule triple_andthen [OF bare_after_create [OF assms(1)]])
  show "held b org db \<Longrightarrow> tenancy_ok db" for db by (simp add: held_def)
  show "held b org db \<Longrightarrow> held b org (snd (create_organization x db))" for db by (rule held_tables)
  have "triple (bare (held b org) (og_id x)) (need g (stmt_at w (add_org_member (og_id x) u Owner)))
     (\<lambda>_. held b org) (\<lambda>_. held b org)"
    unfolding triple_def
    using assms(1) held_add_member [of b org _ Owner "og_id x"] by (auto simp: bare_def outcomes split: prod.split sum.split)
  then show "triple (bare (held b org) (og_id x)) (andthen (need g (stmt_at w (add_org_member (og_id x) u Owner))) (\<lambda>_. rest))
     (\<lambda>_. held b org) (\<lambda>_. held b org)" for a
    by (rule triple_andthen) (use assms(2) in \<open>simp add: keeping_def\<close>)
qed

lemma held_create_org [keeping_intros]:
  assumes "solitary w"
  shows "keeping (held b org) (create_org env w ctx name)"
proof -
  have slug: "keeping (held b org) (need f (unique_org_slug w base))" for f :: "string \<Rightarrow> org_response" and base
    unfolding unique_org_slug_def slug_taken_def using assms by (intro keeping_intros) simp_all
  have rest: "keeping (held b org) (andthen (draw (wd_uuid w)) (\<lambda>a.
     andthen (need internal_error (stmt w (create_application (new_app (uuid_text a) o' ''Default'' DEFAULT_APP_SLUG now))))
       (\<lambda>_. ret (OrgIs y))))" for o' now y
    using assms by (intro keeping_intros) (simp_all add: held_keeps)
  show ?thesis
    unfolding create_org_def session_user_def Let_def
    by (intro held_found_org [OF assms] rest slug keeping_intros)
qed

lemma held_create_org_for_user [keeping_intros]:
  assumes "solitary w"
  shows "keeping (held b org) (create_org_for_user env w u email name)"
proof -
  have slug: "keeping (held b org) (need f (unique_org_slug w base))" for f :: "string \<Rightarrow> string" and base
    unfolding unique_org_slug_def slug_taken_def using assms by (intro keeping_intros) simp_all
  have rest: "keeping (held b org) (andthen (draw (wd_uuid w)) (\<lambda>a.
     andthen (need id (stmt w (create_application (new_app (uuid_text a) o' ''Default'' DEFAULT_APP_SLUG now))))
       (\<lambda>_. ret y)))" for o' now and y :: org_view
    using assms by (intro keeping_intros) (simp_all add: held_keeps)
  have id: "og_id (new_org i n sl t) = i" for i n sl t by (simp add: new_org_def)
  note found = held_found_org [OF assms, where x = "new_org i n sl t" for i n sl t, unfolded id]
  show ?thesis
    unfolding create_org_for_user_def Let_def
    by (intro found rest slug keeping_intros)
qed

text \<open>The first user of a single tenant finds no members, as members are users.\<close>

definition unclaimed :: "id_env \<Rightarrow> bool \<Rightarrow> string \<Rightarrow> store \<Rightarrow> bool" where
  "unclaimed env b org db = (held b org db \<and> (ie_mode env = SingleTenant \<longrightarrow> st_members db = []))"

lemma unclaimed_gate:
  assumes "solitary w"
  shows "triple (held b org) (signup_gate env w email) (\<lambda>_. unclaimed env b org) (\<lambda>_. held b org)"
  unfolding triple_def
proof (intro allI impI)
  fix s :: "store run"
  assume h: "held b org (rn_db s)"
  have "st_users (rn_db s) = [] \<Longrightarrow> st_members (rn_db s) = []" using h by (simp add: held_def tenancy_ok_def)
  then show "case signup_gate env w email s of
      (Inr a, s') \<Rightarrow> unclaimed env b org (rn_db s') | (Inl r, s') \<Rightarrow> held b org (rn_db s')"
    using h assms unfolding signup_gate_def
    by (cases "ie_mode env")
      (auto simp: unclaimed_def outcomes count_users_def reading_def split: prod.split sum.split if_splits option.splits)
qed

lemma unclaimed_user: "unclaimed env b org db \<Longrightarrow> unclaimed env b org (snd (create_user u db))"
  unfolding unclaimed_def using held_users(1) by (auto simp: create_user_def split: option.splits)

lemma unclaimed_org:
  assumes "solitary w"
  shows "triple (unclaimed env b org) (signup_org env w u email name) (\<lambda>_. held b org) (\<lambda>_. held b org)"
proof (cases "ie_mode env")
  case SingleTenant
  have "triple (unclaimed env b org) (need (sanitized_500 ''db_error'') (stmt_at w (add_org_member DEFAULT_ORG_ID u Owner)))
      (\<lambda>_. held b org) (\<lambda>_. held b org)"
    unfolding triple_def using SingleTenant assms held_add_member [of b org _ Owner DEFAULT_ORG_ID u]
    by (auto simp: unclaimed_def outcomes split: prod.split sum.split)
  moreover have "keeping (held b org) (andthen (stmt w (get_organization DEFAULT_ORG_ID)) (\<lambda>r. case r of
            Inr (Some o') \<Rightarrow> ret (og_id o', og_name o', og_slug o')
          | _ \<Rightarrow> ret (DEFAULT_ORG_ID, ''Default'', ''default'')) :: (store, id_response, org_view) handler)"
    using assms by (intro keeping_intros) simp_all
  ultimately show ?thesis
    unfolding signup_org_def SingleTenant mode.case keeping_def by (rule triple_andthen)
next
  case Hosted
  have "keeping (held b org) (map_error (sanitized_500 ''db_error'') (create_org_for_user env w u email name))"
    using assms by (intro keeping_intros)
  then show ?thesis
    using Hosted by (simp add: keeping_def signup_org_def unclaimed_def triple_def)
qed

lemma held_signup [keeping_intros]:
  assumes "solitary w"
  shows "keeping (held b org) (signup env w email name org_name)"
proof -
  have weak: "keeping (unclaimed env b org) m \<Longrightarrow> triple (unclaimed env b org) m (\<lambda>_. unclaimed env b org) (\<lambda>_. held b org)"
    for m :: "(store, id_response, 'x) handler"
    unfolding keeping_def by (erule triple_post) (auto simp: unclaimed_def)
  have sess: "triple (held b org) (need f (create_session_cookies w u)) (\<lambda>_. held b org) (\<lambda>_. held b org)" for f u
    unfolding create_session_cookies_def keeping_def [symmetric]
    using assms by (intro keeping_intros) (simp_all add: held_keeps)
  have user: "keeping (unclaimed env b org) (need f (stmt w (create_user x)))" for f :: "string \<Rightarrow> id_response" and x
    using assms by (intro keeping_intros) (simp_all add: unclaimed_user)
  have "triple (held b org) (andthen (signup_gate env w e) (\<lambda>_.
      andthen (hash_or_fail sanitized_500 env w pw) (\<lambda>hash.
      andthen (draw (wd_now w)) (\<lambda>now.
      andthen (draw (wd_uuid w)) (\<lambda>u.
      andthen (need (f e) (stmt w (create_user (x hash now u)))) (\<lambda>_.
      andthen (signup_org env w (ac_id (x hash now u)) e org_name) (\<lambda>view.
      andthen (need (sanitized_500 ''session_error'') (create_session_cookies w (ac_id (x hash now u)))) (\<lambda>sess.
      ret (SignedUp (to_public_user (x hash now u)) view sess)))))))))
      (\<lambda>_. held b org) (\<lambda>_. held b org)" for e pw f x
    by (rule triple_andthen [OF unclaimed_gate [OF assms]], rule triple_andthen [OF weak [OF keeping_hash_or_fail]],
        rule triple_andthen [OF weak [OF keeping_draw]], rule triple_andthen [OF weak [OF keeping_draw]],
        rule triple_andthen [OF weak [OF user]], rule triple_andthen [OF unclaimed_org [OF assms]],
        rule triple_andthen [OF sess], rule triple_ret)
  then show ?thesis
    unfolding signup_def Let_def by (intro keeping_unless) (simp add: keeping_def)
qed

section \<open>Signing in with a provider\<close>

lemma held_link_oauth [held_keeps]: "held b org db \<Longrightarrow> held b org (snd (link_oauth i provider oid now db))"
  by (erule held_cong [rotated -1]; auto simp: link_oauth_def)

lemma keeping_answers [keeping_intros]: "keeping p (answered x y r)" "keeping p (access_token provider t)"
  unfolding answered_def access_token_def by (auto intro!: keeping_intros split: reply.split)

lemma keeping_identity [keeping_intros]:
  "keeping p (github_identity env oe cfg code)" "keeping p (google_identity env oe cfg code)" "keeping p (check_oauth_state cookie st)"
  unfolding github_identity_def google_identity_def check_oauth_state_def by (intro keeping_intros)+

lemma held_finish_oauth [keeping_intros]: "solitary w \<Longrightarrow> keeping (held b org) (finish_oauth_login oe w cookie u)"
  unfolding finish_oauth_login_def create_session_cookies_def by (intro keeping_intros) (simp_all add: held_keeps)

lemma held_resolve [keeping_intros]:
  "solitary w \<Longrightarrow> keeping (held b org) (resolve_or_create_user env w provider oid email)"
  unfolding resolve_or_create_user_def get_user_by_oauth_def get_user_by_email_def
  by (intro keeping_intros) (simp_all add: held_keeps)

lemma held_sign_in_resolved [keeping_intros]: "solitary w \<Longrightarrow> keeping (held b org) (sign_in_resolved oe w cookie out)"
  unfolding sign_in_resolved_def by (auto intro!: keeping_intros simp: held_keeps split: resolve_outcome.split)

lemma held_apply_invitation [keeping_intros]:
  assumes "solitary w"
  shows "keeping (held b org) (apply_invitation_oauth env oe w provider oid email token)"
proof (rule keeping_runs)
  have rest: "keeping (held b org) (apply_found_invitation env oe w provider oid email token iv)" if "iv_role iv \<noteq> Owner" for iv
    unfolding apply_found_invitation_def invited_oauth_account_def join_invited_def get_user_by_oauth_def get_user_by_email_def
    using assms that by (intro keeping_intros) (auto simp: held_keeps get_membership_def intro!: held_add_member)
  fix s :: "store run" and x s'
  assume s: "held b org (rn_db s)" and run: "apply_invitation_oauth env oe w provider oid email token s = (x, s')"
  consider "rn_db s' = rn_db s"
    | iv where "find_invitation token (rn_db s) = Some iv"
        "apply_found_invitation env oe w provider oid email token iv \<lparr>rn_db = rn_db s, rn_calls = Suc (rn_calls s)\<rparr> = (x, s')"
    using run assms unfolding apply_invitation_oauth_def by (auto simp: outcomes get_invitation_row_def)
  then show "held b org (rn_db s')"
  proof cases
    case (2 iv)
    then have "iv \<in> set (st_invitations (rn_db s))" by (auto simp: find_invitation_def dest: find_SomeD)
    then have "iv_role iv \<noteq> Owner" using s by (metis held_def image_eqI tenancy_ok_def)
    then show ?thesis using keeping_run [OF rest _ 2(2)] s by simp
  qed (use s in simp)
qed

lemma held_oauth [keeping_intros]:
  assumes "solitary w"
  shows "keeping (held b org) (oauth_redirect env oe w cookie code st)"
  unfolding oauth_redirect_def handle_github_callback_def handle_google_callback_def sign_in_def
  using assms by (intro keeping_intros)

section \<open>Requests one after the other\<close>

datatype tenant_request =
  Signup string string "string option" | Login string string | Logout key_context | RequestReset string
| ConfirmReset string string | PatchAccount key_context "string option" "string option"
| RevokeSession key_context string | InviteUser key_context string role | AcceptInvitation string "string option"
| PatchUser key_context string "role option" "bool option" | DeleteUser key_context string
| TransferOwner key_context string | CreateOrg key_context string | PatchOrg key_context string string
| DeleteOrg key_context string | InviteMember key_context string string role
| PatchMember key_context string string role | RemoveMember key_context string string
| TransferOwnership key_context string string | CreateApp key_context string string
| PatchApp key_context string string | DeleteApp key_context string | PutCredential key_context string string json
| DeleteCredential key_context string string | PutStorage key_context string put_storage
| DeleteStorage key_context string | PutOrgModels key_context string "string list"
| PutAppModels key_context string string "string list" | OauthCallback oauth_env "string option" string string

text \<open>The database after a request.\<close>

fun perform :: "id_env \<Rightarrow> store world \<Rightarrow> tenant_request \<Rightarrow> store \<Rightarrow> store" where
  "perform env w (Signup e p n) db = snd (serve (signup env w e p n) db)"
| "perform env w (Login e p) db = snd (serve (login env w e p) db)"
| "perform env w (Logout c) db = snd (serve (logout w c) db)"
| "perform env w (RequestReset e) db = snd (serve (password_reset_request env w e) db)"
| "perform env w (ConfirmReset t p) db = snd (serve (password_reset_confirm env w t p) db)"
| "perform env w (PatchAccount c x y) db = snd (serve (patch_account env w c x y) db)"
| "perform env w (RevokeSession c i) db = snd (serve (revoke_session env w c i) db)"
| "perform env w (InviteUser c e r) db = snd (serve (invite_user env w c e r) db)"
| "perform env w (AcceptInvitation t p) db = snd (serve (accept_invitation env w t p) db)"
| "perform env w (PatchUser c i r a) db = snd (serve (patch_user env w c i r a) db)"
| "perform env w (DeleteUser c i) db = snd (serve (delete_user env w c i) db)"
| "perform env w (TransferOwner c i) db = snd (serve (transfer_owner env w c i) db)"
| "perform env w (CreateOrg c n) db = snd (serve (create_org env w c n) db)"
| "perform env w (PatchOrg c i n) db = snd (serve (patch_org w c i n) db)"
| "perform env w (DeleteOrg c i) db = snd (serve (delete_org w c i) db)"
| "perform env w (InviteMember c i e r) db = snd (serve (invite_member env w c i e r) db)"
| "perform env w (PatchMember c i u r) db = snd (serve (patch_member w c i u r) db)"
| "perform env w (RemoveMember c i u) db = snd (serve (remove_member w c i u) db)"
| "perform env w (TransferOwnership c i u) db = snd (serve (transfer_ownership w c i u) db)"
| "perform env w (CreateApp c i n) db = snd (serve (create_app env w c i n) db)"
| "perform env w (PatchApp c i n) db = snd (serve (patch_app w c i n) db)"
| "perform env w (DeleteApp c i) db = snd (serve (delete_app w c i) db)"
| "perform env w (PutCredential c i p v) db = snd (serve (create_org_provider_credential env w c i p v) db)"
| "perform env w (DeleteCredential c i p) db = snd (serve (delete_org_provider_credential w c i p) db)"
| "perform env w (PutStorage c i b) db = snd (serve (put_app_storage env w c i b) db)"
| "perform env w (DeleteStorage c i) db = snd (serve (delete_app_storage w c i) db)"
| "perform env w (PutOrgModels c i ms) db = snd (serve (put_org_allowed_models w c i ms) db)"
| "perform env w (PutAppModels c i m ms) db = snd (serve (put_app_allowed_models w c i m ms) db)"
| "perform env w (OauthCallback oe c code st) db = snd (serve (oauth_redirect env oe w c code st) db)"

definition deletes :: "string \<Rightarrow> tenant_request \<Rightarrow> bool" where
  "deletes org r = (case r of DeleteOrg c i \<Rightarrow> i = org | _ \<Rightarrow> False)"

lemma held_perform:
  assumes "solitary w" "b \<longrightarrow> \<not> deletes org r" "held b org db"
  shows "held b org (perform env w r db)"
  using assms by (cases r) (auto intro!: keeping_serve [where p = "held b org"] keeping_intros held_delete_handler simp: deletes_def)

fun perform_all :: "id_env \<Rightarrow> (store world \<times> tenant_request) list \<Rightarrow> store \<Rightarrow> store" where
  "perform_all env [] db = db"
| "perform_all env ((w, r) # rs) db = perform_all env rs (perform env w r db)"

lemma held_perform_all:
  "\<forall>(w, r) \<in> set rs. solitary w \<and> (b \<longrightarrow> \<not> deletes org r) \<Longrightarrow> held b org db \<Longrightarrow> held b org (perform_all env rs db)"
  by (induction env rs db rule: perform_all.induct) (auto simp: held_perform)

text \<open>C6: Whatever requests, sign-ins with a provider among them, are served one after the other, with or without faults of the database, an
  organization that has exactly one owner keeps exactly one until a request deletes it, and nowhere
  does a second owner appear.
\<close>

theorem exactly_one_owner:
  assumes "\<forall>(w, r) \<in> set rs. solitary w \<and> \<not> deletes org r"
    and "tenancy_ok db" "length (owners org db) = 1"
  shows "length (owners org (perform_all env rs db)) = 1 \<and> tenancy_ok (perform_all env rs db)"
proof -
  have "held True org (perform_all env rs db)"
    using assms by (intro held_perform_all) (auto simp: held_def)
  then have "owners org (perform_all env rs db) \<noteq> []" "length (owners org (perform_all env rs db)) \<le> 1"
      "tenancy_ok (perform_all env rs db)"
    by (simp_all add: held_def tenancy_ok_def)
  then show ?thesis by (cases "owners org (perform_all env rs db)") auto
qed

definition session_of :: "string \<Rightarrow> key_context" where
  "session_of u = \<lparr>kc_key_id = None, kc_scopes = [], kc_rpm_limit = None, kc_quota_remaining = None, kc_webhook_url = None,
     kc_user = Some \<lparr>uc_user_id = u, uc_email = ''a@b'', uc_role = Member\<rparr>, kc_permissions = [],
     kc_session_id = Some ''s'', kc_org_id = Some ''o1'', kc_app_id = None\<rparr>"

lemma user_of_session: "kc_user (session_of u) = Some \<lparr>uc_user_id = u, uc_email = ''a@b'', uc_role = Member\<rparr>"
  by (simp add: session_of_def)

theorem exactly_one_owner_witness:
  "length (owners ''o1'' (perform_all demo_env
     [(quiet, AcceptInvitation ''t1'' (Some ''correct horse'')), (quiet, TransferOwnership (session_of ''u1'') ''o1'' ''u2''),
      (quiet, RemoveMember (session_of ''u2'') ''o1'' ''u1'')] demo_store)) = 1"
proof -
  have "distinct (map (\<lambda>m. (mb_org_id m, mb_user_id m)) (st_members demo_store))"
    "mb_org_id ` set (st_members demo_store) \<subseteq> og_id ` set (st_orgs demo_store)"
    "mb_user_id ` set (st_members demo_store) \<subseteq> ac_id ` set (st_users demo_store)"
    "Owner \<notin> iv_role ` set (st_invitations demo_store)"
    "length (owners org demo_store) \<le> 1" "length (owners ''o1'' demo_store) = 1" for org
    by (simp_all add: demo_store_def demo_account_def owners_def)
  then have "tenancy_ok demo_store" "length (owners ''o1'' demo_store) = 1" by (simp_all add: tenancy_ok_def)
  then show ?thesis
    using exactly_one_owner [of "[(quiet, AcceptInvitation ''t1'' (Some ''correct horse'')),
      (quiet, TransferOwnership (session_of ''u1'') ''o1'' ''u2''), (quiet, RemoveMember (session_of ''u2'') ''o1'' ''u1'')]"
      "''o1''" demo_store demo_env] by (simp add: deletes_def)
qed

lemma early_authorized [early_intros]:
  "(\<And>m. P (org_forbidden m)) \<Longrightarrow> (\<And>m. P (internal_error m)) \<Longrightarrow> early P (require_member_perm w ctx i perm)"
  unfolding require_member_perm_def by (intro early_intros) auto

lemma authorized_outcome:
  "solitary w \<Longrightarrow> require_member_perm w ctx i perm s = (x, s') \<Longrightarrow> rn_db s' = rn_db s"
  by (rule keeping_run [OF keeping_authorized [of w "\<lambda>db. db = rn_db s"]]) simp_all

lemma transfer_done:
  assumes "solitary w" "serve (transfer_ownership w ctx i u) db = (Done, db')"
  shows "member_role i u db \<noteq> None" "st_members db' = st_members (snd (transfer_org_owner i u db))"
proof -
  have "early (\<lambda>r. r \<noteq> Done) (transfer_ownership w ctx i u)"
    unfolding transfer_ownership_def log_org_audit_def tell_def
    by (intro early_intros) (auto simp: early_def org_forbidden_def internal_error_def)
  then obtain s' where "transfer_ownership w ctx i u \<lparr>rn_db = db, rn_calls = 0\<rparr> = (Inr Done, s')" "db' = rn_db s'"
    using early_serve [of "\<lambda>r. r \<noteq> Done", OF _ assms(2)] by auto
  then obtain a and s1 :: "store run" where
      auth: "require_member_perm w ctx i OrgTransferOwner \<lparr>rn_db = db, rn_calls = 0\<rparr> = (Inr a, s1)"
      and moved: "Inr True = fst (transfer_org_owner i u (rn_db s1))"
      and db': "st_members db' = st_members (snd (transfer_org_owner i u (rn_db s1)))"
    unfolding transfer_ownership_def log_org_audit_def
    by (auto simp: outcomes assms(1) tell_def insert_audit_def)
  have "rn_db s1 = db" using authorized_outcome [OF assms(1) auth] by simp
  then show "member_role i u db \<noteq> None" "st_members db' = st_members (snd (transfer_org_owner i u db))"
    using moved db' by (auto simp: transfer_org_owner_def split: if_splits)
qed

lemma transferred_then_removed:
  assumes "member_role i u db \<noteq> None" "st_members db' = st_members (snd (transfer_org_owner i u db))"
  shows "owners i (snd (remove_org_member i u db')) = []"
proof -
  have "mb_org_id (transferred i u m) = i \<longrightarrow> mb_role (transferred i u m) = Owner \<longrightarrow> mb_user_id (transferred i u m) = u" for m
    by (simp add: transferred_def)
  then have "\<forall>m \<in> set (st_members db'). mb_org_id m = i \<longrightarrow> mb_role m = Owner \<longrightarrow> mb_user_id m = u"
    unfolding assms(2) transferred_members [OF assms(1)] by simp
  then show ?thesis by (auto simp: owners_def remove_org_member_def filter_empty_conv)
qed

text \<open>C39: Two requests that overlap can leave an organization without an owner: the owner transfers the
  ownership to a member after a removal of that member has read the old role.
\<close>

theorem overlapping_removal_loses_owner:
  assumes "alone w'" "serve (transfer_ownership w' ctx' i u) db = (Done, db')"
    and w: "\<And>n. wd_fault w n = None"
      "\<And>n x. wd_other w n x = (if n = 2 then snd (serve (transfer_ownership w' ctx' i u) x) else x)"
    and caller: "kc_user ctx = Some caller" "member_role i (uc_user_id caller) db = Some role" "role_has role MemberRemove"
    and victim: "member_role i u db = Some r" "r \<noteq> Owner"
  shows "\<exists>db''. serve (remove_member w ctx i u) db = (Done, db'') \<and> owners i db'' = []"
proof -
  define other where "other = (\<lambda>x. snd (serve (transfer_ownership w' ctx' i u) x))"
  have run: "other db = db'" using assms(2) by (simp add: other_def)
  have seen: "seen w \<lparr>rn_db = x, rn_calls = n\<rparr> = (if n = Suc (Suc 0) then other x else x)" for n x
    by (simp add: seen_def w(2) other_def numeral_2_eq_2)
  have gone: "owners i (snd (remove_org_member i u db')) = []"
    using transferred_then_removed transfer_done [OF _ assms(2)] assms(1) by (metis alone_def solitary_def)
  have "\<exists>s. remove_member w ctx i u \<lparr>rn_db = db, rn_calls = 0\<rparr> = (Inr Done, s)
      \<and> st_members (rn_db s) = st_members (snd (remove_org_member i u db'))"
    using caller victim
    by (simp add: remove_member_def require_member_perm_def is_platform_admin_def log_org_audit_def runs stmt_runs w(1)
        seen run tell_def insert_audit_def remove_org_member_def)
  then show ?thesis using gone by (auto simp: serve_def owners_def)
qed

theorem overlapping_removal_loses_owner_witness:
  "\<exists>db. serve (remove_member (quiet\<lparr>wd_other := (\<lambda>n x. if n = 2
        then snd (serve (transfer_ownership quiet (session_of ''u1'') ''o1'' ''u2'') x) else x)\<rparr>) (session_of ''u1'') ''o1'' ''u2'')
      (demo_store\<lparr>st_members := st_members demo_store @
        [\<lparr>mb_org_id = ''o1'', mb_user_id = ''u2'', mb_role = Member, mb_created_at = 0\<rparr>]\<rparr>) = (Done, db) \<and> owners ''o1'' db = []"
proof -
  let ?db = "demo_store\<lparr>st_members := st_members demo_store @
        [\<lparr>mb_org_id = ''o1'', mb_user_id = ''u2'', mb_role = Member, mb_created_at = 0\<rparr>]\<rparr>"
  have "fst (serve (transfer_ownership quiet (session_of ''u1'') ''o1'' ''u2'') ?db) = Done"
    "member_role ''o1'' ''u1'' ?db = Some Owner" "member_role ''o1'' ''u2'' ?db = Some Member" "role_has Owner MemberRemove"
    by code_simp+
  moreover from this(1) have "serve (transfer_ownership quiet (session_of ''u1'') ''o1'' ''u2'') ?db
      = (Done, snd (serve (transfer_ownership quiet (session_of ''u1'') ''o1'' ''u2'') ?db))"
    by (simp add: prod_eq_iff)
  ultimately show ?thesis
    by (intro overlapping_removal_loses_owner [where w' = quiet and ctx' = "session_of ''u1''" and r = Member and role = Owner
          and caller = "\<lparr>uc_user_id = ''u1'', uc_email = ''a@b'', uc_role = Member\<rparr>"])
      (simp_all add: user_of_session)
qed

end
