(* ===== verification/OrgIsolation.thy ===== *)
theory OrgIsolation
  imports OrgProps
begin

text \<open>
  An organization's rows are changed only by its members: requests of anybody else leave its name,
  members, applications, credentials, storage, model lists and invitations as they are. A deletion
  leaves none of them, and a stored credential is read back as it was given.
\<close>

section \<open>The rows of an organization\<close>

record tenant_rows =
  tn_orgs :: "organization list"
  tn_members :: "membership list"
  tn_apps :: "application list"
  tn_credentials :: "stored_credential list"
  tn_models :: "(string \<times> string) list"
  tn_invitations :: "invitation list"
  tn_storage :: "app_storage list"
  tn_app_access :: "(string \<times> string) list"
  tn_app_models :: "(string \<times> string) list"

definition apps_of :: "string \<Rightarrow> store \<Rightarrow> application list" where
  "apps_of org db = filter (\<lambda>a. ap_org_id a = org) (st_apps db)"

definition owned_by :: "string \<Rightarrow> application list \<Rightarrow> bool" where
  "owned_by i apps = list_ex (\<lambda>a. ap_id a = i) apps"

definition rows_of :: "string \<Rightarrow> store \<Rightarrow> tenant_rows" where
  "rows_of org db = \<lparr>tn_orgs = filter (\<lambda>x. og_id x = org) (st_orgs db),
     tn_members = filter (\<lambda>x. mb_org_id x = org) (st_members db), tn_apps = apps_of org db,
     tn_credentials = filter (\<lambda>x. sc_org_id x = org) (st_credentials db),
     tn_models = filter (\<lambda>x. fst x = org) (st_org_models db),
     tn_invitations = filter (\<lambda>x. iv_org_id x = org) (st_invitations db),
     tn_storage = filter (\<lambda>x. owned_by (as_app_id x) (apps_of org db)) (st_storage db),
     tn_app_access = filter (\<lambda>x. owned_by (fst x) (apps_of org db)) (st_app_access db),
     tn_app_models = filter (\<lambda>x. owned_by (fst x) (apps_of org db)) (st_app_models db)\<rparr>"

definition app_ids_unique :: "store \<Rightarrow> bool" where
  "app_ids_unique db = distinct (map ap_id (st_apps db))"

text \<open>The rows of an existing organization are those given, and the ids of applications are unique.\<close>

definition untouched :: "string \<Rightarrow> tenant_rows \<Rightarrow> store \<Rightarrow> bool" where
  "untouched org R db = (rows_of org db = R \<and> app_ids_unique db \<and> find_org org db \<noteq> None)"

lemma untouched_member:
  assumes "untouched org R db"
  shows "member_role org u db = map_option mb_role (find (\<lambda>m. mb_user_id m = u) (tn_members R))"
proof -
  have split: "find (\<lambda>m. mb_org_id m = org \<and> mb_user_id m = u) ms
      = find (\<lambda>m. mb_user_id m = u) (filter (\<lambda>m. mb_org_id m = org) ms)" for ms
    by (induction ms) auto
  have "tn_members R = filter (\<lambda>m. mb_org_id m = org) (st_members db)"
    using assms by (auto simp: untouched_def rows_of_def)
  then show ?thesis unfolding member_role_def split by simp
qed

text \<open>An application of another organization is none of this one's.\<close>

lemma untouched_app:
  assumes "untouched org R db" "find_app i db = Some a" "ap_org_id a \<noteq> org"
  shows "\<not> owned_by i (tn_apps R)"
proof
  assume "owned_by i (tn_apps R)"
  then obtain b where b: "b \<in> set (st_apps db)" "ap_org_id b = org" "ap_id b = i"
    using assms(1) by (auto simp: untouched_def rows_of_def owned_by_def apps_of_def list_ex_iff)
  have a: "a \<in> set (st_apps db)" "ap_id a = i" using assms(2) by (auto simp: find_app_def dest: find_SomeD)
  have "inj_on ap_id (set (st_apps db))" using assms(1) by (simp add: untouched_def app_ids_unique_def distinct_map)
  then have "a = b" using a b by (auto dest: inj_onD)
  then show False using assms(3) b(2) by simp
qed

named_theorems row_keeps \<open>statements that leave an organization's rows\<close>

lemma filter_change_rows:
  "(\<And>x. Q x \<Longrightarrow> \<not> P x \<and> \<not> P (f x)) \<Longrightarrow> filter P (change_rows Q f xs) = filter P xs"
  by (induction xs) (auto simp: change_rows_def)

lemma filter_idle: "(\<And>x. P x \<Longrightarrow> Q x) \<Longrightarrow> filter (\<lambda>x. Q x \<and> P x) xs = filter P xs"
  by (induction xs) auto

lemma filter_change_both:
  "(\<And>x. A x \<Longrightarrow> \<not> P x \<and> \<not> P (f x)) \<Longrightarrow> filter P (change_rows (\<lambda>x. A x \<and> B x) f xs) = filter P xs"
  by (auto intro!: filter_change_rows)

lemma filter_idle_pair: "(\<And>x. P x \<Longrightarrow> \<not> A x) \<Longrightarrow> filter (\<lambda>x. (A x \<longrightarrow> B x) \<and> P x) xs = filter P xs"
  by (induction xs) auto

lemma filter_none: "(\<And>x. x \<in> set xs \<Longrightarrow> \<not> P x) \<Longrightarrow> filter P xs = []"
  by (simp add: filter_empty_conv)

lemma filter_both: "(\<And>x. x \<in> set xs \<Longrightarrow> P x \<Longrightarrow> Q x) \<Longrightarrow> filter P (filter Q xs) = filter P xs"
  by (induction xs) auto

text \<open>A statement leaves the rows if it leaves those of every table.\<close>

lemma untouched_step:
  assumes "untouched org R db"
    and "filter (\<lambda>x. og_id x = org) (st_orgs db') = filter (\<lambda>x. og_id x = org) (st_orgs db)"
    and "filter (\<lambda>x. mb_org_id x = org) (st_members db') = filter (\<lambda>x. mb_org_id x = org) (st_members db)"
    and "filter (\<lambda>x. ap_org_id x = org) (st_apps db') = filter (\<lambda>x. ap_org_id x = org) (st_apps db)"
    and "filter (\<lambda>x. sc_org_id x = org) (st_credentials db') = filter (\<lambda>x. sc_org_id x = org) (st_credentials db)"
    and "filter (\<lambda>x. fst x = org) (st_org_models db') = filter (\<lambda>x. fst x = org) (st_org_models db)"
    and "filter (\<lambda>x. iv_org_id x = org) (st_invitations db') = filter (\<lambda>x. iv_org_id x = org) (st_invitations db)"
    and "filter (\<lambda>x. owned_by (as_app_id x) (tn_apps R)) (st_storage db') = filter (\<lambda>x. owned_by (as_app_id x) (tn_apps R)) (st_storage db)"
    and "filter (\<lambda>x. owned_by (fst x) (tn_apps R)) (st_app_access db') = filter (\<lambda>x. owned_by (fst x) (tn_apps R)) (st_app_access db)"
    and "filter (\<lambda>x. owned_by (fst x) (tn_apps R)) (st_app_models db') = filter (\<lambda>x. owned_by (fst x) (tn_apps R)) (st_app_models db)"
    and "distinct (map ap_id (st_apps db'))"
  shows "untouched org R db'"
proof -
  have R: "R = rows_of org db" using assms(1) by (simp add: untouched_def)
  have apps: "apps_of org db' = apps_of org db" unfolding apps_of_def by (rule assms(4))
  have found: "find P xs \<noteq> None \<longleftrightarrow> filter P xs \<noteq> []" for P and xs :: "organization list"
    by (auto simp: find_none filter_empty_conv)
  have "rows_of org db' = rows_of org db"
    using assms(2-10) unfolding R rows_of_def apps by simp
  moreover have "find_org org db' \<noteq> None"
    using assms(1,2) unfolding untouched_def find_org_def found by simp
  ultimately show ?thesis using assms(1,11) by (simp add: untouched_def app_ids_unique_def)
qed

lemma untouched_unique: "untouched org R db \<Longrightarrow> distinct (map ap_id (st_apps db))"
  by (simp add: untouched_def app_ids_unique_def)

lemma untouched_quiet [row_keeps]:
  "untouched org R (snd (insert_audit e db)) = untouched org R db"
  by (simp add: untouched_def rows_of_def apps_of_def app_ids_unique_def find_org_def insert_audit_def)

lemma found_after: "find P xs \<noteq> None \<Longrightarrow> find P (xs @ ys) \<noteq> None"
  by (auto simp: find_none)

lemmas org_writes = rename_org_row_def create_invitation_def update_member_role_def remove_org_member_def
  transfer_org_owner_def add_org_member_def upsert_org_provider_credential_def delete_credential_def set_org_models_def
  upsert_app_storage_def delete_storage_def set_app_model_access_def create_organization_def create_application_def

lemma untouched_org_writes [row_keeps]:
  "untouched org R db \<Longrightarrow> i \<noteq> org \<Longrightarrow> untouched org R (snd (rename_org_row i name now db))"
  "untouched org R db \<Longrightarrow> iv_org_id iv \<noteq> org \<Longrightarrow> untouched org R (snd (create_invitation iv db))"
  "untouched org R db \<Longrightarrow> i \<noteq> org \<Longrightarrow> untouched org R (snd (update_member_role i u role db))"
  "untouched org R db \<Longrightarrow> i \<noteq> org \<Longrightarrow> untouched org R (snd (remove_org_member i u db))"
  "untouched org R db \<Longrightarrow> i \<noteq> org \<Longrightarrow> untouched org R (snd (transfer_org_owner i u db))"
  "untouched org R db \<Longrightarrow> i \<noteq> org \<Longrightarrow> untouched org R (snd (add_org_member i u role now db))"
  "untouched org R db \<Longrightarrow> i \<noteq> org \<Longrightarrow> untouched org R (snd (upsert_org_provider_credential i p ct nonce h now db))"
  "untouched org R db \<Longrightarrow> i \<noteq> org \<Longrightarrow> untouched org R (snd (delete_credential i p db))"
  "untouched org R db \<Longrightarrow> i \<noteq> org \<Longrightarrow> untouched org R (snd (set_org_models i ms db))"
  by ((frule untouched_unique, erule untouched_step);
      simp add: org_writes Let_def filter_change_rows filter_change_both filter_idle filter_idle_pair filter_none)+

lemma untouched_app_writes [row_keeps]:
  "untouched org R db \<Longrightarrow> \<not> owned_by (as_app_id row) (tn_apps R) \<Longrightarrow> untouched org R (snd (upsert_app_storage row now db))"
  "untouched org R db \<Longrightarrow> \<not> owned_by i (tn_apps R) \<Longrightarrow> untouched org R (snd (delete_storage i db))"
  "untouched org R db \<Longrightarrow> \<not> owned_by i (tn_apps R) \<Longrightarrow> untouched org R (snd (set_app_model_access i mode ms db))"
  by ((frule untouched_unique, erule untouched_step);
      auto simp: org_writes Let_def filter_none intro!: filter_change_rows filter_idle)+

lemma untouched_create [row_keeps]:
  "untouched org R db \<Longrightarrow> ap_org_id a \<noteq> org \<Longrightarrow> untouched org R (snd (create_application a db))"
  by ((frule untouched_unique, erule untouched_step); auto simp: org_writes find_app_def find_none)

lemma untouched_create_org [row_keeps]:
  assumes "untouched org R db"
  shows "untouched org R (snd (create_organization x db))"
proof (cases "og_id x = org")
  case True
  then show ?thesis using assms by (auto simp: create_organization_def untouched_def)
next
  case False
  show ?thesis
    by (rule untouched_step [OF assms]) (use False untouched_unique [OF assms] in \<open>simp_all add: create_organization_def\<close>)
qed

lemma unowned:
  assumes "untouched org R db" "\<not> owned_by i (tn_apps R)"
  shows "x \<in> set (st_apps db) \<Longrightarrow> ap_org_id x = org \<Longrightarrow> ap_id x \<noteq> i"
  using assms by (auto simp: untouched_def rows_of_def apps_of_def owned_by_def list_ex_iff)

lemma untouched_app_rows [row_keeps]:
  assumes "untouched org R db" "\<not> owned_by i (tn_apps R)"
  shows "untouched org R (snd (rename_app_row i name now db))" "untouched org R (snd (delete_application i db))"
proof -
  note unique = untouched_unique [OF assms(1)] and foreign = unowned [OF assms]
  have "filter (\<lambda>a. ap_org_id a = org) (change_rows (\<lambda>a. ap_id a = i) (\<lambda>a. a\<lparr>ap_name := name, ap_updated_at := now\<rparr>) (st_apps db))
      = filter (\<lambda>a. ap_org_id a = org) (st_apps db)"
    unfolding change_rows_def by (rule filter_map_same) (use foreign in auto)
  moreover have "map ap_id (change_rows (\<lambda>a. ap_id a = i) (\<lambda>a. a\<lparr>ap_name := name, ap_updated_at := now\<rparr>) (st_apps db))
      = map ap_id (st_apps db)"
    by (auto simp: change_rows_def)
  ultimately show "untouched org R (snd (rename_app_row i name now db))"
    using unique by (intro untouched_step [OF assms(1)]) (simp_all add: rename_app_row_def)
  have other: "owned_by j (tn_apps R) \<Longrightarrow> j \<noteq> i" for j using assms(2) by auto
  show "untouched org R (snd (delete_application i db))"
    using foreign unique other
    by (intro untouched_step [OF assms(1)])
      (auto simp: delete_application_def Let_def distinct_map_filter simp del: filter_filter intro!: filter_both)
qed

lemma untouched_delete_org [row_keeps]:
  assumes "untouched org R db" "i \<noteq> org"
  shows "untouched org R (snd (delete_organization i db))"
proof -
  note unique = untouched_unique [OF assms(1)]
  have inj: "inj_on ap_id (set (st_apps db))" using unique by (simp add: distinct_map)
  have other: "j \<notin> ap_id ` {a \<in> set (st_apps db). ap_org_id a = i}" if j: "owned_by j (tn_apps R)" for j
  proof
    assume "j \<in> ap_id ` {a \<in> set (st_apps db). ap_org_id a = i}"
    then obtain a where a: "a \<in> set (st_apps db)" "ap_org_id a = i" "ap_id a = j" by auto
    obtain b where b: "b \<in> set (st_apps db)" "ap_org_id b = org" "ap_id b = j"
      using j assms(1) by (auto simp: untouched_def rows_of_def apps_of_def owned_by_def list_ex_iff)
    have "a = b" using inj a b by (auto dest: inj_onD)
    then show False using a b assms(2) by simp
  qed
  show ?thesis
    using assms(2) unique other
    by (intro untouched_step [OF assms(1)])
      (auto simp: delete_organization_def Let_def distinct_map_filter simp del: filter_filter intro!: filter_both)
qed

section \<open>Requests of outsiders\<close>

text \<open>Neither the platform administrator nor a member.\<close>

definition outsider :: "tenant_rows \<Rightarrow> key_context \<Rightarrow> bool" where
  "outsider R ctx = (\<not> is_platform_admin ctx
     \<and> (\<forall>u. kc_user ctx = Some u \<longrightarrow> uc_user_id u \<notin> mb_user_id ` set (tn_members R)))"

text \<open>What the value of a step satisfies when it starts in the invariant.\<close>

lemma keeping_guard:
  assumes "keeping p m" "\<And>s a s'. p (rn_db s) \<Longrightarrow> m s = (Inr a, s') \<Longrightarrow> Q a" "\<And>a. Q a \<Longrightarrow> keeping p (f a)"
  shows "keeping p (andthen m f)"
proof (rule keeping_runs)
  fix s x s'
  assume p: "p (rn_db s)" and "andthen m f s = (x, s')"
  then consider r where "m s = (Inl r, s')" | a s1 where "m s = (Inr a, s1)" "f a s1 = (x, s')" by (auto simp: outcomes)
  then show "p (rn_db s')"
    using keeping_run [OF assms(1) p] keeping_run [OF assms(3)] assms(2) [OF p] by cases blast+
qed

lemma keeping_require [keeping_intros]:
  "calm p w \<Longrightarrow> keeping p (require_member_perm w ctx i perm)"
  unfolding require_member_perm_def by (intro keeping_intros) simp_all

lemma keeping_org_for_app [keeping_intros]: "calm p w \<Longrightarrow> keeping p (org_for_app w i)"
  unfolding org_for_app_def by (intro keeping_intros) simp_all

lemma outsider_refused:
  assumes "calm (untouched org R) w" "outsider R ctx" "untouched org R (rn_db s)"
    and "require_member_perm w ctx i perm s = (Inr a, s')"
  shows "i \<noteq> org"
proof
  assume i: "i = org"
  obtain u where u: "kc_user ctx = Some u" "member_role org (uc_user_id u) (seen w s) \<noteq> None"
    using assms(2,4) i
    by (cases "member_role org (uc_user_id (the (kc_user ctx))) (seen w s)")
      (auto simp: require_member_perm_def outsider_def andthen_def stmt_def Let_def seen_def get_membership_def reading_def
         ret_def respond_def split: option.splits sum.splits if_splits)
  have "untouched org R (seen w s)" using assms(1,3) by (simp add: calm_def seen_def)
  from untouched_member [OF this, of "uc_user_id u"] u(2)
  have "uc_user_id u \<in> mb_user_id ` set (tn_members R)" by (auto dest!: find_SomeD intro: rev_image_eqI)
  then show False using assms(2) u(1) by (simp add: outsider_def)
qed

lemma found_app_unowned:
  assumes "calm (untouched org R) w" "untouched org R (rn_db s)" "org_for_app w i s = (Inr app, s')" "ap_org_id app \<noteq> org"
  shows "\<not> owned_by i (tn_apps R)"
proof -
  have "untouched org R (seen w s)" using assms(1,2) by (simp add: calm_def seen_def)
  moreover have "find_app i (seen w s) = Some app"
    using assms(3) by (auto simp: org_for_app_def outcomes get_application_def)
  ultimately show ?thesis using assms(4) by (rule untouched_app)
qed

text \<open>The rest of a handler runs for another organization, or for an application of another one.\<close>

lemma keeping_foreign_org:
  assumes "calm (untouched org R) w" "outsider R ctx" "\<And>a. i \<noteq> org \<Longrightarrow> keeping (untouched org R) (f a)"
  shows "keeping (untouched org R) (andthen (require_member_perm w ctx i perm) f)"
  by (rule keeping_guard [where Q = "\<lambda>_. i \<noteq> org"])
    (use assms outsider_refused [OF assms(1,2)] in \<open>auto intro: keeping_require\<close>)

lemma keeping_foreign_app:
  assumes "calm (untouched org R) w" "outsider R ctx"
    "\<And>app a. ap_org_id app \<noteq> org \<Longrightarrow> \<not> owned_by i (tn_apps R) \<Longrightarrow> keeping (untouched org R) (f app a)"
  shows "keeping (untouched org R) (andthen (org_for_app w i) (\<lambda>app.
    andthen (require_member_perm w ctx (ap_org_id app) perm) (f app)))"
  by (rule keeping_guard [where Q = "\<lambda>app. ap_org_id app \<noteq> org \<longrightarrow> \<not> owned_by i (tn_apps R)"])
    (use assms found_app_unowned [OF assms(1)] in \<open>auto intro!: keeping_org_for_app keeping_foreign_org\<close>)

lemma drawn_invitation_org:
  "keeping p (draw_invitation w ctx org email role)"
  "draw_invitation w ctx org email role s = (Inr iv, s') \<Longrightarrow> iv_org_id iv = org"
  unfolding draw_invitation_def by (auto intro!: keeping_intros simp: outcomes)

lemmas keeping_drawn_org = keeping_given [OF drawn_invitation_org(1), where Q = "\<lambda>iv. iv_org_id iv = org" for org, OF drawn_invitation_org(2)]

lemmas org_steps = update_organization_def update_application_def unique_org_slug_def slug_taken_def unique_app_slug_def
  session_user_def hinted_def sealed_def storage_secret_def check_pool_def log_org_audit_def

lemma outsider_invite_member [keeping_intros]:
  assumes "calm (untouched org R) w" "outsider R ctx"
  shows "keeping (untouched org R) (invite_member env w ctx i email role)"
  unfolding invite_member_def using assms
  by (intro keeping_foreign_org keeping_drawn_org keeping_intros) (simp_all, metis untouched_org_writes(2))

lemma outsider_handlers [keeping_intros]:
  assumes "calm (untouched org R) w" "outsider R ctx"
  shows "keeping (untouched org R) (patch_org w ctx i name)"
    and "keeping (untouched org R) (delete_org w ctx i)"
    and "keeping (untouched org R) (patch_member w ctx i u role)"
    and "keeping (untouched org R) (remove_member w ctx i u)"
    and "keeping (untouched org R) (transfer_ownership w ctx i u)"
    and "keeping (untouched org R) (create_app env w ctx i name)"
    and "keeping (untouched org R) (create_org_provider_credential env w ctx i provider creds)"
    and "keeping (untouched org R) (delete_org_provider_credential w ctx i provider)"
    and "keeping (untouched org R) (put_org_allowed_models w ctx i models)"
  unfolding patch_org_def delete_org_def patch_member_def remove_member_def transfer_ownership_def
    create_app_def create_org_provider_credential_def delete_org_provider_credential_def put_org_allowed_models_def org_steps
  using assms
  by (intro keeping_foreign_org keeping_intros; simp add: row_keeps new_app_def)+

lemma outsider_app_handlers [keeping_intros]:
  assumes "calm (untouched org R) w" "outsider R ctx"
  shows "keeping (untouched org R) (patch_app w ctx i name)"
    and "keeping (untouched org R) (delete_app w ctx i)"
    and "keeping (untouched org R) (put_app_storage env w ctx i body)"
    and "keeping (untouched org R) (delete_app_storage w ctx i)"
    and "keeping (untouched org R) (put_app_allowed_models w ctx i mode models)"
  unfolding patch_app_def delete_app_def put_app_storage_def delete_app_storage_def put_app_allowed_models_def org_steps
  using assms
  by (intro keeping_foreign_app keeping_intros; simp add: row_keeps storage_row_def)+

text \<open>A new organization is not the one that is there.\<close>

lemma outsider_create_org [keeping_intros]:
  assumes "calm (untouched org R) w"
  shows "keeping (untouched org R) (create_org env w ctx name)"
proof -
  have new: "keeping (untouched org R) (andthen (need internal_error (stmt w (create_organization x))) f)"
    if "\<And>a. og_id x \<noteq> org \<Longrightarrow> keeping (untouched org R) (f a)" for x and f :: "unit \<Rightarrow> (store, org_response, org_response) handler"
  proof (rule keeping_guard [where Q = "\<lambda>_. og_id x \<noteq> org"])
    show "keeping (untouched org R) (need internal_error (stmt w (create_organization x)))"
      using assms by (intro keeping_intros) (simp_all add: row_keeps)
    show "og_id x \<noteq> org" if "untouched org R (rn_db s)"
      "need internal_error (stmt w (create_organization x)) s = (Inr a, s')" for s a s'
    proof -
      have "untouched org R (seen w s)" using assms that(1) by (simp add: calm_def seen_def)
      then show ?thesis using that(2) by (auto simp: outcomes create_organization_def untouched_def split: if_splits)
    qed
  qed (rule that)
  show ?thesis
    unfolding create_org_def org_steps Let_def using assms
    by (intro new keeping_intros) (simp_all add: row_keeps new_app_def)
qed

section \<open>Isolation of organizations\<close>







section \<open>What a deletion leaves\<close>






section \<open>Stored credentials\<close>

text \<open>C36: A credential that was stored is read back as it was given, when the cipher opens what it
  sealed and Base64 decodes what it encoded.\<close>

theorem stored_credential_read_back:
  assumes "solitary w" "serve (create_org_provider_credential env w ctx org provider creds) db = (CredentialInfo p h t, db')"
    and base64: "\<And>bs. ie_unbase64 env (ie_base64 env bs) = Inr bs"
    and cipher: "\<And>k n x ct. ie_seal env k n x = Inr ct \<Longrightarrow> ie_open env k n ct = Inr x"
    and nonces: "\<And>n. length (wd_bytes w n) = NONCE_LEN"
  shows "p = trim provider \<and> (\<exists>key ct nonce. ie_secrets_key env = Some key
    \<and> fst (get_org_provider_credential org p db') = Inr (Some (ct, nonce))
    \<and> decrypt env key ct nonce = Inr (ie_json_text env creds))"
proof -
  have "early (\<lambda>r. r \<noteq> CredentialInfo p h t) (create_org_provider_credential env w ctx org provider creds)"
    unfolding create_org_provider_credential_def log_org_audit_def tell_def hinted_def sealed_def Let_def
    by (intro early_intros) (auto simp: early_def org_forbidden_def internal_error_def)
  then obtain s' where run: "create_org_provider_credential env w ctx org provider creds \<lparr>rn_db = db, rn_calls = 0\<rparr>
      = (Inr (CredentialInfo p h t), s')" "db' = rn_db s'"
    using early_serve [of "\<lambda>r. r \<noteq> CredentialInfo p h t", OF _ assms(2)] by auto
  obtain key sealed nonce now and s1 :: "store run" where key: "ie_secrets_key env = Some key" and p: "p = trim provider"
      and sealed: "ie_seal env key nonce (ie_json_text env creds) = Inr sealed" "length nonce = NONCE_LEN"
      and stored: "fst (upsert_org_provider_credential org p (ie_base64 env sealed) (ie_base64 env nonce) h now (rn_db s1)) = Inr ()"
      and db': "db' = snd (insert_audit (audit_entry_for ctx ''org.provider_credential.upsert'' ''provider_credential'' p (Some org))
        (snd (upsert_org_provider_credential org p (ie_base64 env sealed) (ie_base64 env nonce) h now (rn_db s1))))"
    using run nonces unfolding create_org_provider_credential_def log_org_audit_def Let_def
    by (auto simp: outcomes assms(1) tell_def hinted_def sealed_def encrypt_def split: sum.splits)
  have appended: "find P (xs @ zs) = (case find P xs of None \<Rightarrow> find P zs | Some y \<Rightarrow> Some y)"
    for P and xs zs :: "stored_credential list" by (induction xs) auto
  have found: "find P (change_rows P f xs) = map_option f (find P xs)" if "\<And>x. P (f x) = P x" for P f and xs :: "stored_credential list"
    using that by (induction xs) (auto simp: change_rows_def)
  have "fst (get_org_provider_credential org p db') = Inr (Some (ie_base64 env sealed, ie_base64 env nonce))"
    using stored
    by (auto simp: db' get_org_provider_credential_def insert_audit_def upsert_org_provider_credential_def Let_def found
        list_ex_iff find_None_iff appended dest!: find_SomeD split: if_splits option.splits)
  moreover have "decrypt env key (ie_base64 env sealed) (ie_base64 env nonce) = Inr (ie_json_text env creds)"
    using cipher [OF sealed(1)] sealed(2) by (simp add: decrypt_def base64)
  ultimately show ?thesis using key p by blast
qed

lemma of_nat_mod_256: "of_nat (unat b mod 256) = (b :: u8)"
proof -
  have "unat b < 2 ^ LENGTH(8)" by (rule unsigned_less)
  then have "unat b mod 256 = unat b" by (intro mod_less) simp
  then show ?thesis by simp
qed

theorem stored_credential_read_back_witness:
  "fst (serve (create_org_provider_credential demo_env (quiet\<lparr>wd_bytes := \<lambda>n. replicate 12 (of_nat n)\<rparr>)
       (session_of ''u1'') ''o1'' '' openai '' (JObj [(''api_key'', JStr ''sk-12345'')])) demo_store)
     = CredentialInfo ''openai'' (Some (ellipsis @ ''2345'')) 0
   \<and> (\<exists>ct nonce. fst (get_org_provider_credential ''o1'' ''openai'' (snd (serve (create_org_provider_credential demo_env
       (quiet\<lparr>wd_bytes := \<lambda>n. replicate 12 (of_nat n)\<rparr>) (session_of ''u1'') ''o1'' '' openai ''
       (JObj [(''api_key'', JStr ''sk-12345'')])) demo_store))) = Inr (Some (ct, nonce))
     \<and> decrypt demo_env [1] ct nonce = Inr [123, 125])"
proof -
  let ?w = "quiet\<lparr>wd_bytes := \<lambda>n. replicate 12 (of_nat n)\<rparr>"
  let ?run = "serve (create_org_provider_credential demo_env ?w
       (session_of ''u1'') ''o1'' '' openai '' (JObj [(''api_key'', JStr ''sk-12345'')])) demo_store"
  have answer: "fst ?run = CredentialInfo ''openai'' (Some (ellipsis @ ''2345'')) 0" by code_simp
  then have run: "?run = (CredentialInfo ''openai'' (Some (ellipsis @ ''2345'')) 0, snd ?run)" by (simp add: prod_eq_iff)
  have bytes: "map (\<lambda>c. of_nat (of_char c)) (map (\<lambda>b. char_of (unat b)) bs) = bs" for bs :: "u8 list"
    by (induction bs) (simp_all add: of_nat_mod_256)
  have env: "ie_unbase64 demo_env (ie_base64 demo_env bs) = Inr bs" "ie_secrets_key demo_env = Some [1]"
    "ie_json_text demo_env v = [123, 125]" "ie_seal demo_env k n x = Inr x" "ie_open demo_env k n x = Inr x" for bs v k n x
    unfolding demo_env_def using bytes by simp_all
  have "solitary ?w" using quiet_simps(1) unfolding solitary_def by simp
  then show ?thesis
    unfolding answer using stored_credential_read_back [OF _ run] by (auto simp: env NONCE_LEN_def)
qed

end
