(* ===== verification/OAuthProps.thy ===== *)
theory OAuthProps
  imports OrgProps
begin

text \<open>
  What signing in with a provider guarantees: whose session it opens, that an account with a password
  only is never taken over, and where the browser is sent afterwards.
\<close>

section \<open>Where the browser goes\<close>

lemma local_default [simp]: "local_path ''/''"
  by (simp add: local_path_def starts_with_def)



section \<open>How a callback signs in\<close>


section \<open>What the provider vouches for\<close>




lemma answered_outcome [outcomes]: "answered x y r s = (Inr a, s') \<longleftrightarrow> r = Answer a \<and> s' = s"
  by (auto simp: answered_def outcomes split: reply.split)

lemma access_token_outcome [outcomes]:
  "access_token provider t s = (Inr a, s') \<longleftrightarrow> tk_error t = None \<and> tk_access_token t = Some a \<and> a \<noteq> [] \<and> s' = s"
  by (auto simp: access_token_def outcomes opt_filter_Some split: option.split)



definition no_session :: "oauth_response \<Rightarrow> bool" where
  "no_session r = (\<forall>l sess cs. r \<noteq> SignedIn l sess cs)"

lemma no_session_simps [simp]:
  "no_session (error_resp_clear_state n c m)" "no_session (oauth_db_error e)" "no_session (session_error e)"
  "no_session (upstream_error m)" "no_session (invite_error_redirect oe token c)" "no_session NoProviderContext"
  "\<not> no_session (SignedIn l sess cs)"
  by (simp_all add: no_session_def error_resp_clear_state_def oauth_db_error_def session_error_def upstream_error_def
      invite_error_redirect_def)

lemma early_no_session [early_intros]:
  "early no_session (answered x y r)" "early no_session (access_token provider t)"
  "early no_session (sign_in_resolved oe w cookie out)" "early no_session (map_error session_error m)"
  "early no_session (finish_oauth_login oe w cookie u)"
proof -
  show finish: "early no_session (finish_oauth_login oe w cookie u)" for u
    unfolding finish_oauth_login_def create_session_cookies_def by (intro early_intros no_session_simps)
  show "early no_session (answered x y r)" "early no_session (access_token provider t)"
    unfolding answered_def access_token_def by (auto intro!: early_intros split: reply.split)
  show "early no_session (sign_in_resolved oe w cookie out)"
    unfolding sign_in_resolved_def by (auto intro!: early_intros finish split: resolve_outcome.split)
  show "early no_session (map_error session_error m)"
    by (auto simp: early_def map_error_def split: prod.splits sum.splits)
qed


section \<open>The account that signs in\<close>


























text \<open>
  The check of the target lets a tab through, which browsers drop from an address: a path that begins
  with a slash, a tab and a slash is sent on as it is.
\<close>

lemma tab_passes_the_check:
  assumes "cookie_value cookie ''litegen_oauth_next'' = Some v"
    and "oe_decode oe v = Some (''/'' @ [CHR 0x09] @ ''/'' @ host)" "CHR 0x5C \<notin> set host"
  shows "resolve_next_target oe cookie = ''/'' @ [CHR 0x09] @ ''/'' @ host"
  using assms by (simp add: resolve_next_target_def local_path_def starts_with_def)

end
