(* ===== verification/Desk.thy ===== *)
theory Desk
  imports Orgs Router Enforce
begin

text \<open>
  What the handlers of the management API share (\<open>api/handlers/management/mod.rs\<close>): the state they
  work on, their answers, the checks of the caller, and the audit log; and the statements of
  \<open>management/sql.rs\<close> they run beyond those of admission (theory Enforce).

  The state joins the tables with the parts of the process that a management request changes: the
  registry of models, the registry of providers and the overrides of the router. An access to one of
  these is an action of its own, before which other requests may run as they do before a statement.
  The keys are those of \<open>dk_store\<close>; the tables of limits and end users are those of \<open>dk_gate\<close>.
\<close>

section \<open>State\<close>

record stored_model =
  sm_id :: string
  sm_schema_json :: string
  sm_updated_by :: "string option"
  sm_created_at :: datetime
  sm_updated_at :: datetime

record stored_provider_config =
  sp_provider :: string
  sp_ciphertext :: "string option"
  sp_nonce :: "string option"
  sp_display_hint :: "string option"
  sp_settings_json :: string
  sp_created_at :: datetime
  sp_updated_at :: datetime

record desk =
  dk_store :: store
  dk_gate :: gate
  dk_runtime_models :: "stored_model list"
  dk_model_states :: "(string \<times> bool) list"
  dk_provider_configs :: "stored_provider_config list"
  dk_settings :: "(string \<times> string) list"
  dk_models :: capability_registry
  dk_providers :: provider_registry
  dk_overrides :: runtime_overrides

text \<open>A statement on one part of the state.\<close>

definition on_store :: "'a query \<Rightarrow> desk \<Rightarrow> (string + 'a) \<times> desk" where
  "on_store q d = (case q (dk_store d) of (r, s) \<Rightarrow> (r, d\<lparr>dk_store := s\<rparr>))"

definition on_gate :: "(datetime \<Rightarrow> gate \<Rightarrow> 'a \<times> gate) \<Rightarrow> datetime \<Rightarrow> desk \<Rightarrow> (string + 'a) \<times> desk" where
  "on_gate q now d = (case q now (dk_gate d) of (a, g) \<Rightarrow> (Inr a, d\<lparr>dk_gate := g\<rparr>))"

text \<open>An access to shared memory does not fail.\<close>

definition access :: "desk world \<Rightarrow> (desk \<Rightarrow> 'a \<times> desk) \<Rightarrow> (desk, 'r, 'a) handler" where
  "access w f s =
     (case f (wd_other w (rn_calls s) (rn_db s)) of (a, d) \<Rightarrow> (Inr a, \<lparr>rn_db = d, rn_calls = Suc (rn_calls s)\<rparr>))"

definition peek :: "desk world \<Rightarrow> (desk \<Rightarrow> 'a) \<Rightarrow> (desk, 'r, 'a) handler" where
  "peek w f = access w (\<lambda>d. (f d, d))"

definition poke :: "desk world \<Rightarrow> (desk \<Rightarrow> desk) \<Rightarrow> (desk, 'r, unit) handler" where
  "poke w f = access w (\<lambda>d. ((), f d))"

section \<open>Bodies and answers\<close>

record route_deployment =
  rd_provider :: string
  rd_weight :: u32
  rd_max_retries :: u32
  rd_timeout_seconds :: u64
  rd_rpm_limit :: u32

record route_spec =
  rs_model :: string
  rs_deployments :: "route_deployment list"
  rs_strategy :: "string option"
  rs_cache_enabled :: "bool option"
  rs_cache_ttl_seconds :: "u64 option"

record provider_secrets =
  ps_api_key :: "string option"
  ps_api_keys :: "string option"
  ps_key_id :: "string option"
  ps_key_secret :: "string option"

record provider_settings =
  pt_api_base :: "string option"
  pt_model_mapping :: "(string \<times> string) list option"
  pt_extra_headers :: "(string \<times> string) list option"
  pt_options :: "json option"
  pt_region :: "string option"
  pt_enabled :: "bool option"

record provider_view =
  vw_name :: string
  vw_modalities :: "string list"
  vw_active :: bool
  vw_source :: string
  vw_key_hint :: "string option"
  vw_has_secret :: bool
  vw_api_base :: "string option"
  vw_region :: "string option"
  vw_model_mapping :: "(string \<times> string) list"
  vw_extra_header_names :: "string list"
  vw_options :: "json option"
  vw_enabled :: bool
  vw_updated_at :: "datetime option"

datatype model_source = FromCatalog | FromRuntime

record admin_model_view =
  am_id :: string
  am_source :: model_source
  am_disabled :: bool
  am_schema :: model_schema

record end_user_view =
  ew_org :: string
  ew_id :: string
  ew_user :: end_user
  ew_limits :: "entity_limits option"

text \<open>\<open>NoAnswer\<close> stands for a roll of a budget window that does not end.\<close>

datatype desk_response =
  DeskError nat string string
| LimitsIs entity_limits
| LimitsList "entity_limits list"
| DeletedOne
| KeyActive uuid bool
| EndUserIs nat end_user_view
| ModelViews "admin_model_view list"
| ModelIs nat admin_model_view
| ProviderViews "provider_view list"
| ProviderIs provider_view
| RoutesAre string "route_spec list"
| SettingsAre gateway_settings f64
| NoAnswer

type_synonym 'a desk_handler = "(desk, desk_response, 'a) handler"

text \<open>
  The environment: the configuration of the process, the calendar, and the texts that serde makes of
  values and reads back.
\<close>

record desk_env =
  dv_ids :: id_env
  dv_managed :: bool
  dv_mode :: mode
  dv_months :: add_months
  dv_parse_uuid :: "string \<Rightarrow> uuid option"
  dv_parse_url :: "string \<Rightarrow> string + url"
  dv_config_routes :: "model_route_config list"
  dv_config_markup :: f64
  dv_config_providers :: "(string \<times> provider_env_config) list"
  dv_model_of_body :: "json \<Rightarrow> string + model_schema"
  dv_model_text :: "model_schema \<Rightarrow> string + string"
  dv_model_of_text :: "string \<Rightarrow> string + model_schema"
  dv_routes_text :: "route_spec list \<Rightarrow> string + string"
  dv_routes_of_text :: "string \<Rightarrow> route_spec list option"
  dv_settings_text :: "gateway_settings \<Rightarrow> string + string"
  dv_settings_of_text :: "string \<Rightarrow> gateway_settings option"
  dv_secrets_text :: "provider_secrets \<Rightarrow> string + u8 list"
  dv_secrets_of_text :: "u8 list \<Rightarrow> string + provider_secrets"
  dv_provider_text :: "provider_settings \<Rightarrow> string option"
  dv_provider_of_text :: "string \<Rightarrow> provider_settings option"
  dv_lower :: "string \<Rightarrow> string"

definition desk_forbidden :: "string \<Rightarrow> desk_response" where
  "desk_forbidden m = DeskError 403 ''forbidden'' m"

definition bad_request :: "string \<Rightarrow> string \<Rightarrow> desk_response" where
  "bad_request kind m = DeskError 400 kind m"

definition not_found :: "string \<Rightarrow> string \<Rightarrow> desk_response" where
  "not_found kind m = DeskError 404 kind m"

definition internal :: "string \<Rightarrow> desk_response" where
  "internal detail = DeskError 500 ''internal_error'' ''internal server error''"

definition unauthenticated :: desk_response where
  "unauthenticated = DeskError 401 ''unauthorized'' ''authentication required''"

definition managed_store :: "desk_env \<Rightarrow> unit desk_handler" where
  "managed_store env = unless (\<not> dv_managed env) (DeskError 501 ''not_implemented''
     ''this database backend does not support the management API'') (ret ())"

definition ctx_of :: "key_context option \<Rightarrow> key_context desk_handler" where
  "ctx_of ctx = must unauthenticated ctx"

definition quoted :: "string \<Rightarrow> string" where
  "quoted s = [CHR 0x27] @ s @ [CHR 0x27]"

section \<open>Who is calling\<close>

definition require_gateway_admin :: "desk_env \<Rightarrow> key_context \<Rightarrow> unit desk_handler" where
  "require_gateway_admin env ctx =
     (if is_platform_admin ctx then ret ()
      else if dv_mode env = SingleTenant
           \<and> (if kc_user ctx \<noteq> None then SystemConfig \<in> set (kc_permissions ctx)
              else kc_key_id ctx \<noteq> None \<and> SAdmin \<in> set (kc_scopes ctx))
      then ret () else respond (desk_forbidden ''gateway admin required''))"

datatype access_level = ReadAccess | WriteAccess

definition require_org ::
  "desk world \<Rightarrow> key_context \<Rightarrow> string \<Rightarrow> access_level \<Rightarrow> permission \<Rightarrow> unit desk_handler" where
  "require_org w ctx org level perm =
     (if is_platform_admin ctx then ret ()
      else case kc_user ctx of
        Some u \<Rightarrow> andthen (stmt w (on_store (get_membership org (uc_user_id u)))) (\<lambda>r. case r of
            Inr (Some role) \<Rightarrow>
              if role_has role perm then ret () else respond (desk_forbidden ''insufficient role for this organization'')
          | Inr None \<Rightarrow> respond (desk_forbidden ''not a member of this organization'')
          | Inl e \<Rightarrow> respond (internal e))
      | None \<Rightarrow>
          if kc_key_id ctx \<noteq> None
          then unless (kc_org_id ctx \<noteq> Some org) (desk_forbidden ''this API key belongs to a different organization'') (
               unless ((if level = WriteAccess then SAdmin else SRead) \<notin> set (kc_scopes ctx) \<and> SAdmin \<notin> set (kc_scopes ctx))
                 (desk_forbidden (if level = WriteAccess then ''admin scope required'' else ''read scope required''))
                 (ret ()))
          else respond (desk_forbidden ''organization access denied''))"

definition desk_active_org :: "key_context \<Rightarrow> string option \<Rightarrow> string desk_handler" where
  "desk_active_org ctx explicit =
     (case opt_filter (\<lambda>s. s \<noteq> []) explicit of
        Some o' \<Rightarrow>
          if is_platform_admin ctx \<or> kc_org_id ctx = Some o' then ret o'
          else respond (desk_forbidden ''org_id may only name your own organization'')
      | None \<Rightarrow> must (desk_forbidden ''no active organization'') (kc_org_id ctx))"

text \<open>The entry of a change; without an organization of its own it names the caller's.\<close>

definition audit ::
  "key_context \<Rightarrow> string option \<Rightarrow> string \<Rightarrow> string \<Rightarrow> string \<Rightarrow> unit desk_handler" where
  "audit ctx org action target_type tid s =
     (Inr (), s\<lparr>rn_db := snd (on_store (insert_audit
        (audit_entry_for ctx action target_type tid (opt_or org (kc_org_id ctx)))) (rn_db s))\<rparr>)"

section \<open>Statements\<close>

definition delete_limits :: "entity \<Rightarrow> datetime \<Rightarrow> gate \<Rightarrow> bool \<times> gate" where
  "delete_limits e now s =
     (ga_limits s e \<noteq> None, s\<lparr>ga_limits := (ga_limits s)(e := None)\<rparr>)"

definition get_end_user :: "string \<Rightarrow> string \<Rightarrow> datetime \<Rightarrow> gate \<Rightarrow> end_user option \<times> gate" where
  "get_end_user org eu = reads (\<lambda>s. ga_end_users s (org, eu))"

definition delete_end_user :: "string \<Rightarrow> string \<Rightarrow> datetime \<Rightarrow> gate \<Rightarrow> bool \<times> gate" where
  "delete_end_user org eu now s =
     (ga_end_users s (org, eu) \<noteq> None, s\<lparr>ga_end_users := (ga_end_users s)((org, eu) := None)\<rparr>)"

text \<open>A row that is there keeps its time of creation; the organization of a row must exist.\<close>

definition upsert_end_user :: "string \<Rightarrow> string \<Rightarrow> end_user \<Rightarrow> datetime \<Rightarrow> gate \<Rightarrow> unit \<times> gate" where
  "upsert_end_user org eu u now s =
     (let created = (case ga_end_users s (org, eu) of Some old \<Rightarrow> eu_created_at old | None \<Rightarrow> eu_created_at u)
      in ((), s\<lparr>ga_end_users := (ga_end_users s)((org, eu) \<mapsto> u\<lparr>eu_created_at := created\<rparr>)\<rparr>))"

definition for_org ::
  "string \<Rightarrow> (datetime \<Rightarrow> gate \<Rightarrow> unit \<times> gate) \<Rightarrow> datetime \<Rightarrow> desk \<Rightarrow> (string + unit) \<times> desk" where
  "for_org org q now d =
     (if find_org org (dk_store d) = None then (Inl foreign_key_error, d) else on_gate q now d)"

definition key_row :: "uuid \<Rightarrow> api_key option query" where
  "key_row kid = reading (\<lambda>db. find_key kid (st_keys db))"

definition set_key_columns :: "uuid \<Rightarrow> update_request \<Rightarrow> bool query" where
  "set_key_columns kid r db =
     (Inr (find_key kid (st_keys db) \<noteq> None), db\<lparr>st_keys := update_key kid (set_columns r) (st_keys db)\<rparr>)"

definition update_api_key ::
  "desk world \<Rightarrow> uuid \<Rightarrow> update_request \<Rightarrow> (desk, 'r, string + api_key option) handler" where
  "update_api_key w kid r =
     (if no_columns r then stmt w (on_store (key_row kid))
      else andthen (stmt w (on_store (set_key_columns kid r))) (\<lambda>x. case x of
          Inl e \<Rightarrow> ret (Inl e)
        | Inr False \<Rightarrow> ret (Inr None)
        | Inr True \<Rightarrow> stmt w (on_store (key_row kid))))"

text \<open>Runtime models, states of models, configurations of providers, settings.\<close>

definition list_runtime_models :: "desk \<Rightarrow> (string + stored_model list) \<times> desk" where
  "list_runtime_models = reading (\<lambda>d. sort_key sm_id (dk_runtime_models d))"

definition upsert_runtime_model ::
  "string \<Rightarrow> string \<Rightarrow> string option \<Rightarrow> datetime \<Rightarrow> desk \<Rightarrow> (string + unit) \<times> desk" where
  "upsert_runtime_model i text by now = writing (\<lambda>d.
     if list_ex (\<lambda>m. sm_id m = i) (dk_runtime_models d)
     then d\<lparr>dk_runtime_models := change_rows (\<lambda>m. sm_id m = i)
            (\<lambda>m. m\<lparr>sm_schema_json := text, sm_updated_by := by, sm_updated_at := now\<rparr>) (dk_runtime_models d)\<rparr>
     else d\<lparr>dk_runtime_models := dk_runtime_models d @
            [\<lparr>sm_id = i, sm_schema_json = text, sm_updated_by = by, sm_created_at = now, sm_updated_at = now\<rparr>]\<rparr>)"

definition delete_runtime_model :: "string \<Rightarrow> desk \<Rightarrow> (string + bool) \<times> desk" where
  "delete_runtime_model i d = (Inr (list_ex (\<lambda>m. sm_id m = i) (dk_runtime_models d)),
     d\<lparr>dk_runtime_models := filter (\<lambda>m. sm_id m \<noteq> i) (dk_runtime_models d)\<rparr>)"

definition list_model_states :: "desk \<Rightarrow> (string + (string \<times> bool) list) \<times> desk" where
  "list_model_states = reading (\<lambda>d. sort_key fst (dk_model_states d))"

definition set_model_state :: "string \<Rightarrow> bool \<Rightarrow> desk \<Rightarrow> (string + unit) \<times> desk" where
  "set_model_state i disabled = writing (\<lambda>d. d\<lparr>dk_model_states := al_insert i disabled (dk_model_states d)\<rparr>)"

definition find_provider_config :: "string \<Rightarrow> desk \<Rightarrow> stored_provider_config option" where
  "find_provider_config name d = find (\<lambda>c. sp_provider c = name) (dk_provider_configs d)"

definition list_provider_configs :: "desk \<Rightarrow> (string + stored_provider_config list) \<times> desk" where
  "list_provider_configs = reading (\<lambda>d. sort_key sp_provider (dk_provider_configs d))"

definition get_provider_config :: "string \<Rightarrow> desk \<Rightarrow> (string + stored_provider_config option) \<times> desk" where
  "get_provider_config name = reading (find_provider_config name)"

definition upsert_provider_config :: "stored_provider_config \<Rightarrow> desk \<Rightarrow> (string + unit) \<times> desk" where
  "upsert_provider_config c = writing (\<lambda>d.
     if find_provider_config (sp_provider c) d \<noteq> None
     then d\<lparr>dk_provider_configs := change_rows (\<lambda>x. sp_provider x = sp_provider c)
            (\<lambda>x. c\<lparr>sp_created_at := sp_created_at x\<rparr>) (dk_provider_configs d)\<rparr>
     else d\<lparr>dk_provider_configs := dk_provider_configs d @ [c]\<rparr>)"

definition delete_provider_config :: "string \<Rightarrow> desk \<Rightarrow> (string + bool) \<times> desk" where
  "delete_provider_config name d = (Inr (find_provider_config name d \<noteq> None),
     d\<lparr>dk_provider_configs := filter (\<lambda>c. sp_provider c \<noteq> name) (dk_provider_configs d)\<rparr>)"

definition get_setting :: "string \<Rightarrow> desk \<Rightarrow> (string + string option) \<times> desk" where
  "get_setting k = reading (\<lambda>d. map_of (dk_settings d) k)"

definition set_setting :: "string \<Rightarrow> string \<Rightarrow> desk \<Rightarrow> (string + unit) \<times> desk" where
  "set_setting k v = writing (\<lambda>d. d\<lparr>dk_settings := al_insert k v (dk_settings d)\<rparr>)"

definition delete_setting :: "string \<Rightarrow> desk \<Rightarrow> (string + bool) \<times> desk" where
  "delete_setting k d = (Inr (has_key (dk_settings d) k), d\<lparr>dk_settings := al_remove k (dk_settings d)\<rparr>)"

section \<open>Accesses under interference\<close>

lemma keeping_access [keeping_intros]:
  assumes "calm p w" "\<And>d. p d \<Longrightarrow> p (snd (f d))"
  shows "keeping p (access w f)"
  unfolding keeping_def triple_def access_def
proof (intro allI impI)
  fix s :: "desk run"
  let ?d = "wd_other w (rn_calls s) (rn_db s)"
  assume "p (rn_db s)"
  then have "p (snd (f ?d))" using assms by (simp add: calm_def)
  then show "case case f ?d of (a, d) \<Rightarrow> (Inr a, \<lparr>rn_db = d, rn_calls = Suc (rn_calls s)\<rparr>) of
      (Inr a, s') \<Rightarrow> p (rn_db s') | (Inl r, s') \<Rightarrow> p (rn_db s')"
    by (cases "f ?d") simp
qed

lemma keeping_peek [keeping_intros]: "calm p w \<Longrightarrow> keeping p (peek w f)"
  unfolding peek_def by (intro keeping_intros) simp_all

lemma keeping_poke [keeping_intros]: "calm p w \<Longrightarrow> (\<And>d. p d \<Longrightarrow> p (f d)) \<Longrightarrow> keeping p (poke w f)"
  unfolding poke_def by (intro keeping_intros) simp_all

lemma access_outcome [outcomes]:
  "access w f s = (x, s') \<longleftrightarrow> x = Inr (fst (f (seen w s))) \<and> s' = \<lparr>rn_db = snd (f (seen w s)), rn_calls = Suc (rn_calls s)\<rparr>"
  by (auto simp: access_def seen_def split: prod.splits)

lemma peek_outcome [outcomes]:
  "peek w f s = (x, s') \<longleftrightarrow> x = Inr (f (seen w s)) \<and> s' = \<lparr>rn_db = seen w s, rn_calls = Suc (rn_calls s)\<rparr>"
  by (simp add: peek_def access_outcome)

lemma poke_outcome [outcomes]:
  "poke w f s = (x, s') \<longleftrightarrow> x = Inr () \<and> s' = \<lparr>rn_db = f (seen w s), rn_calls = Suc (rn_calls s)\<rparr>"
  by (auto simp: poke_def access_outcome)

lemma on_parts:
  "snd (on_store q d) = d\<lparr>dk_store := snd (q (dk_store d))\<rparr>" "fst (on_store q d) = fst (q (dk_store d))"
  "snd (on_gate p now d) = d\<lparr>dk_gate := snd (p now (dk_gate d))\<rparr>" "fst (on_gate p now d) = Inr (fst (p now (dk_gate d)))"
  by (simp_all add: on_store_def on_gate_def split: prod.split)

end
