(* ===== verification/ManageLimits.thy ===== *)
theory ManageLimits
  imports Desk
begin

text \<open>
  Managing the limits of keys, organizations, members, applications and end users
  (\<open>api/handlers/management/limits.rs\<close>), blocking keys, and the end users of an organization
  (\<open>end_users.rs\<close>).

  The listings of all limits or end users of an organization are not modelled: the tables of limits
  and end users are maps here.
\<close>

section \<open>The limits of an entity\<close>

record limits_input =
  li_max_budget :: "f64 option"
  li_soft_budget :: "f64 option"
  li_duration :: "string option"
  li_allowed_models :: "string list option"
  li_max_parallel :: "u32 option"
  li_rpm :: "u32 option"
  li_metadata :: "json option"

fun is_object :: "json \<Rightarrow> bool" where
  "is_object (JObj _) = True"
| "is_object _ = False"

text \<open>The first problem of the body; the models are looked up in the registry of the moment.\<close>

definition limits_problem :: "capability_registry \<Rightarrow> limits_input \<Rightarrow> (string \<times> string) option" where
  "limits_problem models i =
     (let invalid = (\<lambda>m. Some (''invalid_limits'', m)); negative = (\<lambda>v. case v of Some x \<Rightarrow> x < 0 | None \<Rightarrow> False) in
      if negative (li_max_budget i) then invalid ''max_budget_usd must be a non-negative number''
      else if negative (li_soft_budget i) then invalid ''soft_budget_usd must be a non-negative number''
      else if (case (li_soft_budget i, li_max_budget i) of (Some soft, Some cap) \<Rightarrow> cap < soft | _ \<Rightarrow> False)
      then invalid ''soft_budget_usd must not exceed max_budget_usd''
      else case Option.bind (li_duration i) (\<lambda>d. case parse_duration d of Inl e \<Rightarrow> Some e | Inr _ \<Rightarrow> None) of
        Some e \<Rightarrow> invalid e
      | None \<Rightarrow>
          if li_max_parallel i = Some 0 then invalid ''max_parallel_requests must be at least 1''
          else if li_rpm i = Some 0 then invalid ''rpm_limit must be at least 1''
          else if (case li_metadata i of Some m \<Rightarrow> \<not> is_object m | None \<Rightarrow> False)
          then invalid ''metadata must be a JSON object''
          else case find (\<lambda>m. resolve models m = None \<and> \<not> is_catalog models m) (unwrap_or [] (li_allowed_models i)) of
            Some m \<Rightarrow> Some (''unknown_model'', ''allowed_models: unknown model '' @ quoted m)
          | None \<Rightarrow> None)"

definition validate_input :: "desk world \<Rightarrow> limits_input \<Rightarrow> unit desk_handler" where
  "validate_input w i =
     andthen (peek w dk_models) (\<lambda>models. case limits_problem models i of
        Some (kind, m) \<Rightarrow> respond (bad_request kind m)
      | None \<Rightarrow> ret ())"

text \<open>Merging the input into an existing row: a changed duration starts a window of its own.\<close>

definition merged_limits ::
  "add_months \<Rightarrow> entity_limits option \<Rightarrow> entity \<Rightarrow> string option \<Rightarrow> limits_input \<Rightarrow> datetime \<Rightarrow> entity_limits" where
  "merged_limits months existing e org i now =
     (let (spend, reset, alerted, created, duration) = (case existing of
            Some l \<Rightarrow> (el_spend l, el_reset_at l, el_alerted_at l, el_created_at l, el_duration l)
          | None \<Rightarrow> (0, None, None, now, None))
      in \<lparr>el_entity = e, el_org_id = org, el_max_budget = li_max_budget i, el_soft_budget = li_soft_budget i,
          el_duration = li_duration i, el_spend = spend,
          el_reset_at = (if existing = None \<or> duration \<noteq> li_duration i
            then (case initial_reset_at months (li_duration i) now of Inr r \<Rightarrow> r | Inl _ \<Rightarrow> None) else reset),
          el_alerted_at = (if (case li_soft_budget i of Some soft \<Rightarrow> spend < soft | None \<Rightarrow> True) then None else alerted),
          el_allowed_models = li_allowed_models i, el_max_parallel = li_max_parallel i, el_rpm = li_rpm i,
          el_metadata = li_metadata i, el_created_at = created, el_updated_at = now\<rparr>)"

text \<open>
  Loading a row with its window rolled forward, as admission does, but with the errors of a handler.
\<close>

definition current_limits ::
  "desk_env \<Rightarrow> desk world \<Rightarrow> entity \<Rightarrow> (string + entity_limits option) desk_handler" where
  "current_limits env w e =
     andthen (stmt_at w (on_gate (get_limits e))) (\<lambda>r. case r of
        Inl x \<Rightarrow> ret (Inl x)
      | Inr None \<Rightarrow> ret (Inr None)
      | Inr (Some l) \<Rightarrow> andthen (draw (wd_now w)) (\<lambda>now.
          case lapsed_window_next_reset (dv_months env) (el_duration l) (el_reset_at l) now of
            None \<Rightarrow> respond NoAnswer
          | Some None \<Rightarrow> ret (Inr (Some l))
          | Some (Some next_at) \<Rightarrow>
              andthen (stmt_at w (on_gate (roll_limits_window e (el_reset_at l) (Some next_at)))) (\<lambda>r. case r of
                 Inl x \<Rightarrow> ret (Inl x)
               | Inr True \<Rightarrow> ret (Inr (Some (l\<lparr>el_spend := 0, el_alerted_at := None, el_reset_at := Some next_at\<rparr>)))
               | Inr False \<Rightarrow> andthen (stmt_at w (on_gate (get_limits e))) (\<lambda>r. case r of
                    Inl x \<Rightarrow> ret (Inl x)
                  | Inr fresh \<Rightarrow> ret (Inr (Some (unwrap_or l fresh)))))))"

definition limits_not_found :: "entity \<Rightarrow> desk_response" where
  "limits_not_found e = not_found ''limits_not_found'' (''no limits set for this '' @ entity_string (fst e))"

definition limits_target :: "entity \<Rightarrow> string" where
  "limits_target e = entity_string (fst e) @ ''_limits''"

definition do_get :: "desk_env \<Rightarrow> desk world \<Rightarrow> entity \<Rightarrow> desk_response desk_handler" where
  "do_get env w e =
     andthen (need internal (current_limits env w e)) (\<lambda>l.
     andthen (must (limits_not_found e) l) (\<lambda>l. ret (LimitsIs l)))"

definition do_put ::
  "desk_env \<Rightarrow> desk world \<Rightarrow> key_context \<Rightarrow> entity \<Rightarrow> string option \<Rightarrow> limits_input \<Rightarrow> desk_response desk_handler" where
  "do_put env w ctx e org i =
     andthen (validate_input w i) (\<lambda>_.
     andthen (need internal (stmt_at w (on_gate (get_limits e)))) (\<lambda>existing.
     andthen (draw (wd_now w)) (\<lambda>now.
     let l = merged_limits (dv_months env) existing e org i now in
     andthen (need internal (stmt_at w (on_gate (upsert_limits l)))) (\<lambda>_.
     andthen (audit ctx org ''limits.update'' (limits_target e) (snd e)) (\<lambda>_.
     ret (LimitsIs l))))))"

definition do_delete ::
  "desk world \<Rightarrow> key_context \<Rightarrow> entity \<Rightarrow> string option \<Rightarrow> desk_response desk_handler" where
  "do_delete w ctx e org =
     andthen (need internal (stmt_at w (on_gate (delete_limits e)))) (\<lambda>found.
     unless (\<not> found) (limits_not_found e) (
     andthen (audit ctx org ''limits.delete'' (limits_target e) (snd e)) (\<lambda>_. ret DeletedOne)))"

text \<open>A fresh window from now, with nothing spent.\<close>

definition reset_row :: "add_months \<Rightarrow> datetime \<Rightarrow> entity_limits \<Rightarrow> entity_limits" where
  "reset_row months now l = l\<lparr>el_spend := 0, el_alerted_at := None,
     el_reset_at := (case initial_reset_at months (el_duration l) now of Inr r \<Rightarrow> r | Inl _ \<Rightarrow> None), el_updated_at := now\<rparr>"

definition do_reset ::
  "desk_env \<Rightarrow> desk world \<Rightarrow> key_context \<Rightarrow> entity \<Rightarrow> string option \<Rightarrow> desk_response desk_handler" where
  "do_reset env w ctx e org =
     andthen (need internal (stmt_at w (on_gate (get_limits e)))) (\<lambda>row.
     andthen (must (limits_not_found e) row) (\<lambda>l0.
     andthen (draw (wd_now w)) (\<lambda>now.
     let l = reset_row (dv_months env) now l0 in
     andthen (need internal (stmt_at w (on_gate (upsert_limits l)))) (\<lambda>_.
     andthen (audit ctx org ''limits.reset_spend'' (limits_target e) (snd e)) (\<lambda>_.
     ret (LimitsIs l))))))"

section \<open>The caller's own limits\<close>

fun each_current :: "desk_env \<Rightarrow> desk world \<Rightarrow> entity list \<Rightarrow> entity_limits list desk_handler" where
  "each_current env w [] = ret []"
| "each_current env w (e # es) =
     andthen (need internal (current_limits env w e)) (\<lambda>l.
     andthen (each_current env w es) (\<lambda>ls. ret (case l of Some x \<Rightarrow> x # ls | None \<Rightarrow> ls)))"

text \<open>The user of the session, or else the owner of the key.\<close>

definition user_of_caller :: "desk world \<Rightarrow> key_context \<Rightarrow> string option desk_handler" where
  "user_of_caller w ctx =
     (case (map_option uc_user_id (kc_user ctx), kc_key_id ctx) of
        (None, Some k) \<Rightarrow>
          andthen (need internal (stmt w (on_store (key_row k)))) (\<lambda>row. ret (Option.bind row ky_owner_user_id))
      | (u, _) \<Rightarrow> ret u)"

definition own_entities :: "key_context \<Rightarrow> string option \<Rightarrow> entity list" where
  "own_entities ctx user =
     (case kc_key_id ctx of Some k \<Rightarrow> [(EKey, uuid_text k)] | None \<Rightarrow> [])
     @ (case kc_org_id ctx of
          Some o' \<Rightarrow> (EOrg, o') # (case user of Some u \<Rightarrow> [(EMember, member_entity_id o' u)] | None \<Rightarrow> [])
        | None \<Rightarrow> [])
     @ (case kc_app_id ctx of Some a \<Rightarrow> [(EApp, a)] | None \<Rightarrow> [])"

definition my_limits :: "desk_env \<Rightarrow> desk world \<Rightarrow> key_context option \<Rightarrow> desk_response desk_handler" where
  "my_limits env w ctx0 =
     andthen (ctx_of ctx0) (\<lambda>ctx. andthen (managed_store env) (\<lambda>_.
     andthen (user_of_caller w ctx) (\<lambda>user.
     andthen (each_current env w (own_entities ctx user)) (\<lambda>ls. ret (LimitsList ls)))))"

section \<open>Keys\<close>

definition key_not_found :: desk_response where
  "key_not_found = not_found ''key_not_found'' ''API key not found''"

definition authorize_key ::
  "desk_env \<Rightarrow> desk world \<Rightarrow> key_context \<Rightarrow> string \<Rightarrow> access_level \<Rightarrow> api_key desk_handler" where
  "authorize_key env w ctx i level =
     andthen (must key_not_found (dv_parse_uuid env i)) (\<lambda>kid.
     andthen (need internal (stmt w (on_store (key_row kid)))) (\<lambda>row.
     andthen (must key_not_found row) (\<lambda>key.
     if is_platform_admin ctx then ret key
     else unless (ky_org_id key \<noteq> None \<and> ky_org_id key \<noteq> kc_org_id ctx) key_not_found (
       case kc_user ctx of
         Some u \<Rightarrow>
           let (any, own) = (case level of ReadAccess \<Rightarrow> (KeyReadAny, KeyReadOwn) | WriteAccess \<Rightarrow> (KeyWriteAny, KeyWriteOwn));
               owns = (ky_owner_user_id key = Some (uc_user_id u)) in
           if any \<in> set (kc_permissions ctx) \<or> owns \<and> own \<in> set (kc_permissions ctx) then ret key
           else respond (desk_forbidden (''Permission '' @ quoted (perm_string any) @ '' required''))
       | None \<Rightarrow>
           if SAdmin \<in> set (kc_scopes ctx) then ret key else respond (desk_forbidden ''admin scope required'')))))"

definition key_handler ::
  "desk_env \<Rightarrow> desk world \<Rightarrow> key_context option \<Rightarrow> string \<Rightarrow> access_level
   \<Rightarrow> (key_context \<Rightarrow> api_key \<Rightarrow> desk_response desk_handler) \<Rightarrow> desk_response desk_handler" where
  "key_handler env w ctx0 i level body =
     andthen (ctx_of ctx0) (\<lambda>ctx. andthen (managed_store env) (\<lambda>_.
     andthen (authorize_key env w ctx i level) (\<lambda>key. body ctx key)))"

definition key_entity :: "api_key \<Rightarrow> entity" where
  "key_entity key = (EKey, uuid_text (ky_id key))"

definition get_key_limits :: "desk_env \<Rightarrow> desk world \<Rightarrow> key_context option \<Rightarrow> string \<Rightarrow> desk_response desk_handler" where
  "get_key_limits env w ctx0 i = key_handler env w ctx0 i ReadAccess (\<lambda>ctx key. do_get env w (key_entity key))"

definition put_key_limits ::
  "desk_env \<Rightarrow> desk world \<Rightarrow> key_context option \<Rightarrow> string \<Rightarrow> limits_input \<Rightarrow> desk_response desk_handler" where
  "put_key_limits env w ctx0 i input = key_handler env w ctx0 i WriteAccess
     (\<lambda>ctx key. do_put env w ctx (key_entity key) (ky_org_id key) input)"

definition delete_key_limits :: "desk_env \<Rightarrow> desk world \<Rightarrow> key_context option \<Rightarrow> string \<Rightarrow> desk_response desk_handler" where
  "delete_key_limits env w ctx0 i = key_handler env w ctx0 i WriteAccess
     (\<lambda>ctx key. do_delete w ctx (key_entity key) (ky_org_id key))"

definition reset_key_limits :: "desk_env \<Rightarrow> desk world \<Rightarrow> key_context option \<Rightarrow> string \<Rightarrow> desk_response desk_handler" where
  "reset_key_limits env w ctx0 i = key_handler env w ctx0 i WriteAccess
     (\<lambda>ctx key. do_reset env w ctx (key_entity key) (ky_org_id key))"

definition only_active :: "bool \<Rightarrow> update_request" where
  "only_active b = \<lparr>up_name = None, up_token_quota = None, up_rpm_limit = None, up_scopes = None,
     up_webhook_url = None, up_expires_at = None, up_is_active = Some b\<rparr>"

definition set_key_active :: "desk world \<Rightarrow> key_context \<Rightarrow> api_key \<Rightarrow> bool \<Rightarrow> desk_response desk_handler" where
  "set_key_active w ctx key active =
     andthen (need internal (update_api_key w (ky_id key) (only_active active))) (\<lambda>row.
     andthen (must key_not_found row) (\<lambda>k.
     andthen (audit ctx (ky_org_id k) (if active then ''key.unblock'' else ''key.block'') ''api_key'' (uuid_text (ky_id k)))
       (\<lambda>_. ret (KeyActive (ky_id k) (ky_is_active k)))))"

definition block_key :: "desk_env \<Rightarrow> desk world \<Rightarrow> key_context option \<Rightarrow> string \<Rightarrow> desk_response desk_handler" where
  "block_key env w ctx0 i = key_handler env w ctx0 i WriteAccess (\<lambda>ctx key. set_key_active w ctx key False)"

definition unblock_key :: "desk_env \<Rightarrow> desk world \<Rightarrow> key_context option \<Rightarrow> string \<Rightarrow> desk_response desk_handler" where
  "unblock_key env w ctx0 i = key_handler env w ctx0 i WriteAccess (\<lambda>ctx key. set_key_active w ctx key True)"

section \<open>Organizations, members and applications\<close>

definition org_handler ::
  "desk_env \<Rightarrow> desk world \<Rightarrow> key_context option \<Rightarrow> string \<Rightarrow> access_level \<Rightarrow> permission
   \<Rightarrow> (key_context \<Rightarrow> desk_response desk_handler) \<Rightarrow> desk_response desk_handler" where
  "org_handler env w ctx0 org level perm body =
     andthen (ctx_of ctx0) (\<lambda>ctx. andthen (managed_store env) (\<lambda>_.
     andthen (require_org w ctx org level perm) (\<lambda>_. body ctx)))"

definition org_exists :: "desk world \<Rightarrow> string \<Rightarrow> unit desk_handler" where
  "org_exists w org =
     andthen (need internal (stmt w (on_store (get_organization org)))) (\<lambda>x.
     andthen (must (not_found ''org_not_found'' ''Organization not found'') x) (\<lambda>_. ret ()))"

definition get_org_limits :: "desk_env \<Rightarrow> desk world \<Rightarrow> key_context option \<Rightarrow> string \<Rightarrow> desk_response desk_handler" where
  "get_org_limits env w ctx0 i = org_handler env w ctx0 i ReadAccess OrgRead (\<lambda>ctx. do_get env w (EOrg, i))"

definition put_org_limits ::
  "desk_env \<Rightarrow> desk world \<Rightarrow> key_context option \<Rightarrow> string \<Rightarrow> limits_input \<Rightarrow> desk_response desk_handler" where
  "put_org_limits env w ctx0 i input = org_handler env w ctx0 i WriteAccess OrgWrite
     (\<lambda>ctx. andthen (org_exists w i) (\<lambda>_. do_put env w ctx (EOrg, i) (Some i) input))"

definition delete_org_limits :: "desk_env \<Rightarrow> desk world \<Rightarrow> key_context option \<Rightarrow> string \<Rightarrow> desk_response desk_handler" where
  "delete_org_limits env w ctx0 i = org_handler env w ctx0 i WriteAccess OrgWrite (\<lambda>ctx. do_delete w ctx (EOrg, i) (Some i))"

definition reset_org_limits :: "desk_env \<Rightarrow> desk world \<Rightarrow> key_context option \<Rightarrow> string \<Rightarrow> desk_response desk_handler" where
  "reset_org_limits env w ctx0 i = org_handler env w ctx0 i WriteAccess OrgWrite (\<lambda>ctx. do_reset env w ctx (EOrg, i) (Some i))"

definition member_exists :: "desk world \<Rightarrow> string \<Rightarrow> string \<Rightarrow> unit desk_handler" where
  "member_exists w org user =
     andthen (need internal (stmt w (on_store (get_membership org user)))) (\<lambda>x.
     andthen (must (not_found ''member_not_found'' ''Member not found'') x) (\<lambda>_. ret ()))"

definition get_member_limits ::
  "desk_env \<Rightarrow> desk world \<Rightarrow> key_context option \<Rightarrow> string \<Rightarrow> string \<Rightarrow> desk_response desk_handler" where
  "get_member_limits env w ctx0 i user = org_handler env w ctx0 i ReadAccess MemberRead
     (\<lambda>ctx. do_get env w (EMember, member_entity_id i user))"

definition put_member_limits ::
  "desk_env \<Rightarrow> desk world \<Rightarrow> key_context option \<Rightarrow> string \<Rightarrow> string \<Rightarrow> limits_input \<Rightarrow> desk_response desk_handler" where
  "put_member_limits env w ctx0 i user input = org_handler env w ctx0 i WriteAccess MemberWrite
     (\<lambda>ctx. andthen (member_exists w i user) (\<lambda>_. do_put env w ctx (EMember, member_entity_id i user) (Some i) input))"

definition delete_member_limits ::
  "desk_env \<Rightarrow> desk world \<Rightarrow> key_context option \<Rightarrow> string \<Rightarrow> string \<Rightarrow> desk_response desk_handler" where
  "delete_member_limits env w ctx0 i user = org_handler env w ctx0 i WriteAccess MemberWrite
     (\<lambda>ctx. do_delete w ctx (EMember, member_entity_id i user) (Some i))"

definition reset_member_limits ::
  "desk_env \<Rightarrow> desk world \<Rightarrow> key_context option \<Rightarrow> string \<Rightarrow> string \<Rightarrow> desk_response desk_handler" where
  "reset_member_limits env w ctx0 i user = org_handler env w ctx0 i WriteAccess MemberWrite
     (\<lambda>ctx. do_reset env w ctx (EMember, member_entity_id i user) (Some i))"

definition app_org :: "desk world \<Rightarrow> string \<Rightarrow> string desk_handler" where
  "app_org w app =
     andthen (need internal (stmt w (on_store (get_application app)))) (\<lambda>x.
     andthen (must (not_found ''app_not_found'' ''Application not found'') x) (\<lambda>a. ret (ap_org_id a)))"

text \<open>The organization of the application is read before the caller is known at all.\<close>

definition app_handler ::
  "desk_env \<Rightarrow> desk world \<Rightarrow> key_context option \<Rightarrow> string \<Rightarrow> access_level \<Rightarrow> permission
   \<Rightarrow> (key_context \<Rightarrow> string \<Rightarrow> desk_response desk_handler) \<Rightarrow> desk_response desk_handler" where
  "app_handler env w ctx0 app level perm body =
     andthen (app_org w app) (\<lambda>org. org_handler env w ctx0 org level perm (\<lambda>ctx. body ctx org))"

definition get_app_limits :: "desk_env \<Rightarrow> desk world \<Rightarrow> key_context option \<Rightarrow> string \<Rightarrow> desk_response desk_handler" where
  "get_app_limits env w ctx0 app = app_handler env w ctx0 app ReadAccess AppRead (\<lambda>ctx org. do_get env w (EApp, app))"

definition put_app_limits ::
  "desk_env \<Rightarrow> desk world \<Rightarrow> key_context option \<Rightarrow> string \<Rightarrow> limits_input \<Rightarrow> desk_response desk_handler" where
  "put_app_limits env w ctx0 app input = app_handler env w ctx0 app WriteAccess AppWrite
     (\<lambda>ctx org. do_put env w ctx (EApp, app) (Some org) input)"

definition delete_app_limits :: "desk_env \<Rightarrow> desk world \<Rightarrow> key_context option \<Rightarrow> string \<Rightarrow> desk_response desk_handler" where
  "delete_app_limits env w ctx0 app = app_handler env w ctx0 app WriteAccess AppWrite
     (\<lambda>ctx org. do_delete w ctx (EApp, app) (Some org))"

definition reset_app_limits :: "desk_env \<Rightarrow> desk world \<Rightarrow> key_context option \<Rightarrow> string \<Rightarrow> desk_response desk_handler" where
  "reset_app_limits env w ctx0 app = app_handler env w ctx0 app WriteAccess AppWrite
     (\<lambda>ctx org. do_reset env w ctx (EApp, app) (Some org))"

section \<open>End users\<close>

definition MAX_ID_LEN :: nat where "MAX_ID_LEN = 256"

definition org_scope ::
  "desk_env \<Rightarrow> desk world \<Rightarrow> key_context option \<Rightarrow> string option \<Rightarrow> access_level \<Rightarrow> (key_context \<times> string) desk_handler" where
  "org_scope env w ctx0 explicit level =
     andthen (ctx_of ctx0) (\<lambda>ctx. andthen (managed_store env) (\<lambda>_.
     andthen (desk_active_org ctx explicit) (\<lambda>org.
     andthen (require_org w ctx org level (if level = WriteAccess then OrgWrite else OrgRead)) (\<lambda>_.
     ret (ctx, org)))))"

definition end_user_entity :: "string \<Rightarrow> string \<Rightarrow> entity" where
  "end_user_entity org eu = (EEndUser, end_user_entity_id org eu)"

definition view_end_user ::
  "desk_env \<Rightarrow> desk world \<Rightarrow> string \<Rightarrow> string \<Rightarrow> end_user \<Rightarrow> (string + end_user_view) desk_handler" where
  "view_end_user env w org eu u =
     andthen (current_limits env w (end_user_entity org eu)) (\<lambda>r. ret (map_sum id
       (\<lambda>l. \<lparr>ew_org = org, ew_id = eu, ew_user = u, ew_limits = l\<rparr>) r))"

definition answer_view ::
  "desk_env \<Rightarrow> desk world \<Rightarrow> nat \<Rightarrow> string \<Rightarrow> string \<Rightarrow> end_user \<Rightarrow> desk_response desk_handler" where
  "answer_view env w status org eu u =
     andthen (need internal (view_end_user env w org eu u)) (\<lambda>v. ret (EndUserIs status v))"

definition end_user_not_found :: "string \<Rightarrow> desk_response" where
  "end_user_not_found eu = not_found ''end_user_not_found'' (''end user '' @ quoted eu @ '' not found'')"

definition existing_end_user :: "desk world \<Rightarrow> string \<Rightarrow> string \<Rightarrow> end_user desk_handler" where
  "existing_end_user w org eu =
     andthen (need internal (stmt_at w (on_gate (get_end_user org eu)))) (must (end_user_not_found eu))"

record create_end_user_request =
  ce_id :: string
  ce_alias :: "string option"
  ce_blocked :: bool
  ce_metadata :: "json option"
  ce_limits :: "limits_input option"

definition bad_metadata :: "json option \<Rightarrow> bool" where
  "bad_metadata m = (case m of Some j \<Rightarrow> \<not> is_object j | None \<Rightarrow> False)"

definition create_end_user ::
  "desk_env \<Rightarrow> desk world \<Rightarrow> key_context option \<Rightarrow> string option \<Rightarrow> create_end_user_request \<Rightarrow> desk_response desk_handler" where
  "create_end_user env w ctx0 explicit body =
     andthen (org_scope env w ctx0 explicit WriteAccess) (\<lambda>(ctx, org).
     let eu = trim (ce_id body) in
     unless (eu = [] \<or> MAX_ID_LEN < length eu) (bad_request ''invalid_end_user'' ''id must be 1-256 characters'') (
     unless (bad_metadata (ce_metadata body)) (bad_request ''invalid_end_user'' ''metadata must be a JSON object'') (
     andthen (case ce_limits body of Some i \<Rightarrow> validate_input w i | None \<Rightarrow> ret ()) (\<lambda>_.
     andthen (need internal (stmt_at w (on_gate (get_end_user org eu)))) (\<lambda>row.
     unless (row \<noteq> None) (DeskError 409 ''end_user_exists'' (''end user '' @ quoted eu @ '' already exists'')) (
     andthen (draw (wd_now w)) (\<lambda>now.
     let u = \<lparr>eu_alias = ce_alias body, eu_blocked = ce_blocked body, eu_metadata = ce_metadata body,
              eu_created_at = now, eu_updated_at = now, eu_last_seen_at = None\<rparr> in
     andthen (need internal (stmt_at w (for_org org (upsert_end_user org eu u)))) (\<lambda>_.
     andthen (case ce_limits body of
          None \<Rightarrow> ret ()
        | Some i \<Rightarrow> andthen (draw (wd_now w)) (\<lambda>now.
            need internal (stmt_at w (on_gate (upsert_limits
              (merged_limits (dv_months env) None (end_user_entity org eu) (Some org) i now)))))) (\<lambda>_.
     andthen (audit ctx (Some org) ''end_user.create'' ''end_user'' eu) (\<lambda>_.
     answer_view env w 201 org eu u))))))))))"

definition get_end_user_handler ::
  "desk_env \<Rightarrow> desk world \<Rightarrow> key_context option \<Rightarrow> string option \<Rightarrow> string \<Rightarrow> desk_response desk_handler" where
  "get_end_user_handler env w ctx0 explicit eu =
     andthen (org_scope env w ctx0 explicit ReadAccess) (\<lambda>(ctx, org).
     andthen (existing_end_user w org eu) (\<lambda>u. answer_view env w 200 org eu u))"

record update_end_user_request =
  ue_alias :: "string option"
  ue_blocked :: "bool option"
  ue_metadata :: "json option"

definition changed_end_user :: "update_end_user_request \<Rightarrow> datetime \<Rightarrow> end_user \<Rightarrow> end_user" where
  "changed_end_user body now u =
     u\<lparr>eu_alias := (case ue_alias body of Some a \<Rightarrow> opt_filter (\<lambda>s. s \<noteq> []) (Some a) | None \<Rightarrow> eu_alias u),
       eu_blocked := unwrap_or (eu_blocked u) (ue_blocked body),
       eu_metadata := opt_or (ue_metadata body) (eu_metadata u), eu_updated_at := now\<rparr>"

definition update_end_user ::
  "desk_env \<Rightarrow> desk world \<Rightarrow> key_context option \<Rightarrow> string option \<Rightarrow> string \<Rightarrow> update_end_user_request
   \<Rightarrow> desk_response desk_handler" where
  "update_end_user env w ctx0 explicit eu body =
     andthen (org_scope env w ctx0 explicit WriteAccess) (\<lambda>(ctx, org).
     andthen (existing_end_user w org eu) (\<lambda>u0.
     unless (bad_metadata (ue_metadata body)) (bad_request ''invalid_end_user'' ''metadata must be a JSON object'') (
     andthen (draw (wd_now w)) (\<lambda>now.
     let u = changed_end_user body now u0 in
     andthen (need internal (stmt_at w (for_org org (upsert_end_user org eu u)))) (\<lambda>_.
     andthen (audit ctx (Some org) ''end_user.update'' ''end_user'' eu) (\<lambda>_.
     answer_view env w 200 org eu u))))))"

text \<open>The result of deleting the limits is ignored.\<close>

definition delete_end_user_handler ::
  "desk_env \<Rightarrow> desk world \<Rightarrow> key_context option \<Rightarrow> string option \<Rightarrow> string \<Rightarrow> desk_response desk_handler" where
  "delete_end_user_handler env w ctx0 explicit eu =
     andthen (org_scope env w ctx0 explicit WriteAccess) (\<lambda>(ctx, org).
     andthen (need internal (stmt_at w (on_gate (delete_end_user org eu)))) (\<lambda>found.
     unless (\<not> found) (end_user_not_found eu) (
     andthen (stmt_at w (on_gate (delete_limits (end_user_entity org eu)))) (\<lambda>_.
     andthen (audit ctx (Some org) ''end_user.delete'' ''end_user'' eu) (\<lambda>_. ret DeletedOne)))))"

text \<open>Blocking an end user that was never seen creates its row.\<close>

definition set_blocked ::
  "desk_env \<Rightarrow> desk world \<Rightarrow> key_context option \<Rightarrow> string \<Rightarrow> string option \<Rightarrow> bool \<Rightarrow> desk_response desk_handler" where
  "set_blocked env w ctx0 eu explicit blocked =
     andthen (org_scope env w ctx0 explicit WriteAccess) (\<lambda>(ctx, org).
     andthen (draw (wd_now w)) (\<lambda>now.
     andthen (need internal (stmt_at w (on_gate (get_end_user org eu)))) (\<lambda>row.
     let u0 = unwrap_or \<lparr>eu_alias = None, eu_blocked = blocked, eu_metadata = None, eu_created_at = now,
                eu_updated_at = now, eu_last_seen_at = None\<rparr> row;
         u = u0\<lparr>eu_blocked := blocked, eu_updated_at := now\<rparr> in
     andthen (need internal (stmt_at w (for_org org (upsert_end_user org eu u)))) (\<lambda>_.
     andthen (audit ctx (Some org) (if blocked then ''end_user.block'' else ''end_user.unblock'') ''end_user'' eu) (\<lambda>_.
     answer_view env w 200 org eu u)))))"

definition block_end_user ::
  "desk_env \<Rightarrow> desk world \<Rightarrow> key_context option \<Rightarrow> string option \<Rightarrow> string \<Rightarrow> desk_response desk_handler" where
  "block_end_user env w ctx0 explicit eu = set_blocked env w ctx0 eu explicit True"

definition unblock_end_user ::
  "desk_env \<Rightarrow> desk world \<Rightarrow> key_context option \<Rightarrow> string option \<Rightarrow> string \<Rightarrow> desk_response desk_handler" where
  "unblock_end_user env w ctx0 explicit eu = set_blocked env w ctx0 eu explicit False"

definition get_end_user_limits ::
  "desk_env \<Rightarrow> desk world \<Rightarrow> key_context option \<Rightarrow> string option \<Rightarrow> string \<Rightarrow> desk_response desk_handler" where
  "get_end_user_limits env w ctx0 explicit eu =
     andthen (org_scope env w ctx0 explicit ReadAccess) (\<lambda>(ctx, org). do_get env w (end_user_entity org eu))"

definition put_end_user_limits ::
  "desk_env \<Rightarrow> desk world \<Rightarrow> key_context option \<Rightarrow> string option \<Rightarrow> string \<Rightarrow> limits_input \<Rightarrow> desk_response desk_handler" where
  "put_end_user_limits env w ctx0 explicit eu input =
     andthen (org_scope env w ctx0 explicit WriteAccess) (\<lambda>(ctx, org).
     unless (eu = [] \<or> MAX_ID_LEN < length eu) (bad_request ''invalid_end_user'' ''id must be 1-256 characters'') (
     andthen (need internal (stmt_at w (for_org org (touch_end_user org eu)))) (\<lambda>_.
     do_put env w ctx (end_user_entity org eu) (Some org) input)))"

definition delete_end_user_limits ::
  "desk_env \<Rightarrow> desk world \<Rightarrow> key_context option \<Rightarrow> string option \<Rightarrow> string \<Rightarrow> desk_response desk_handler" where
  "delete_end_user_limits env w ctx0 explicit eu =
     andthen (org_scope env w ctx0 explicit WriteAccess) (\<lambda>(ctx, org). do_delete w ctx (end_user_entity org eu) (Some org))"

definition reset_end_user_limits ::
  "desk_env \<Rightarrow> desk world \<Rightarrow> key_context option \<Rightarrow> string option \<Rightarrow> string \<Rightarrow> desk_response desk_handler" where
  "reset_end_user_limits env w ctx0 explicit eu =
     andthen (org_scope env w ctx0 explicit WriteAccess) (\<lambda>(ctx, org). do_reset env w ctx (end_user_entity org eu) (Some org))"

section \<open>Requests\<close>

text \<open>The requests that can change something; those that only look are served as well.\<close>

datatype limits_request =
  GetKeyLimits string | PutKeyLimits string limits_input | DeleteKeyLimits string | ResetKeyLimits string
| BlockKey string | UnblockKey string
| GetOrgLimits string | PutOrgLimits string limits_input | DeleteOrgLimits string | ResetOrgLimits string
| GetMemberLimits string string | PutMemberLimits string string limits_input | DeleteMemberLimits string string
| ResetMemberLimits string string
| GetAppLimits string | PutAppLimits string limits_input | DeleteAppLimits string | ResetAppLimits string
| CreateEndUser "string option" create_end_user_request | GetEndUser "string option" string
| UpdateEndUser "string option" string update_end_user_request | DeleteEndUser "string option" string
| BlockEndUser "string option" string | UnblockEndUser "string option" string
| GetEndUserLimits "string option" string | PutEndUserLimits "string option" string limits_input
| DeleteEndUserLimits "string option" string | ResetEndUserLimits "string option" string
| MyLimits

fun limits_handler ::
  "desk_env \<Rightarrow> desk world \<Rightarrow> key_context option \<Rightarrow> limits_request \<Rightarrow> desk_response desk_handler" where
  "limits_handler env w ctx (GetKeyLimits i) = get_key_limits env w ctx i"
| "limits_handler env w ctx (PutKeyLimits i l) = put_key_limits env w ctx i l"
| "limits_handler env w ctx (DeleteKeyLimits i) = delete_key_limits env w ctx i"
| "limits_handler env w ctx (ResetKeyLimits i) = reset_key_limits env w ctx i"
| "limits_handler env w ctx (BlockKey i) = block_key env w ctx i"
| "limits_handler env w ctx (UnblockKey i) = unblock_key env w ctx i"
| "limits_handler env w ctx (GetOrgLimits i) = get_org_limits env w ctx i"
| "limits_handler env w ctx (PutOrgLimits i l) = put_org_limits env w ctx i l"
| "limits_handler env w ctx (DeleteOrgLimits i) = delete_org_limits env w ctx i"
| "limits_handler env w ctx (ResetOrgLimits i) = reset_org_limits env w ctx i"
| "limits_handler env w ctx (GetMemberLimits i u) = get_member_limits env w ctx i u"
| "limits_handler env w ctx (PutMemberLimits i u l) = put_member_limits env w ctx i u l"
| "limits_handler env w ctx (DeleteMemberLimits i u) = delete_member_limits env w ctx i u"
| "limits_handler env w ctx (ResetMemberLimits i u) = reset_member_limits env w ctx i u"
| "limits_handler env w ctx (GetAppLimits a) = get_app_limits env w ctx a"
| "limits_handler env w ctx (PutAppLimits a l) = put_app_limits env w ctx a l"
| "limits_handler env w ctx (DeleteAppLimits a) = delete_app_limits env w ctx a"
| "limits_handler env w ctx (ResetAppLimits a) = reset_app_limits env w ctx a"
| "limits_handler env w ctx (CreateEndUser q b) = create_end_user env w ctx q b"
| "limits_handler env w ctx (GetEndUser q e) = get_end_user_handler env w ctx q e"
| "limits_handler env w ctx (UpdateEndUser q e b) = update_end_user env w ctx q e b"
| "limits_handler env w ctx (DeleteEndUser q e) = delete_end_user_handler env w ctx q e"
| "limits_handler env w ctx (BlockEndUser q e) = block_end_user env w ctx q e"
| "limits_handler env w ctx (UnblockEndUser q e) = unblock_end_user env w ctx q e"
| "limits_handler env w ctx (GetEndUserLimits q e) = get_end_user_limits env w ctx q e"
| "limits_handler env w ctx (PutEndUserLimits q e l) = put_end_user_limits env w ctx q e l"
| "limits_handler env w ctx (DeleteEndUserLimits q e) = delete_end_user_limits env w ctx q e"
| "limits_handler env w ctx (ResetEndUserLimits q e) = reset_end_user_limits env w ctx q e"
| "limits_handler env w ctx MyLimits = my_limits env w ctx"

end
