(* ===== verification/LimitsProps.thy ===== *)
theory LimitsProps
  imports ManageLimits OrgIsolation EnforceProps Ids
begin

text \<open>
  What the management of limits guarantees: tenants do not touch each other's limits, end users and
  keys; every row of limits stays well formed, whatever else admission does to it in between; and what
  an edit of limits keeps of a budget.
\<close>

lemma andthen_steps: "andthen (ret a) f = f a" "andthen (respond r) f = respond r"
  by (rule ext, simp add: andthen_def ret_def respond_def)+

lemma merged_entity: "el_entity (merged_limits months x e org i now) = e"
  by (simp add: merged_limits_def split: prod.split)

section \<open>What the handlers ask of an invariant\<close>

text \<open>A caller passes the check for an organization only in one of three ways.\<close>

definition admits :: "key_context \<Rightarrow> string \<Rightarrow> store \<Rightarrow> bool" where
  "admits ctx org db = (is_platform_admin ctx
     \<or> (\<exists>u. kc_user ctx = Some u \<and> member_role org (uc_user_id u) db \<noteq> None)
     \<or> kc_user ctx = None \<and> kc_key_id ctx \<noteq> None \<and> kc_org_id ctx = Some org)"

text \<open>
  An invariant of the state, the callers it is claimed for, and the entities, organizations and keys
  that they may change: one law per kind of write, and one per way to reach an entity.
\<close>

locale limits_desk =
  fixes p :: "desk \<Rightarrow> bool"
    and ctx_ok :: "key_context \<Rightarrow> bool"
    and allowed :: "entity \<Rightarrow> bool"
    and org_ok :: "string \<Rightarrow> bool"
    and key_ok :: "uuid \<Rightarrow> bool"
    and good :: "entity_limits \<Rightarrow> bool"
  assumes upsert: "p d \<Longrightarrow> allowed (el_entity l) \<Longrightarrow> good l \<Longrightarrow> p (snd (on_gate (upsert_limits l) now d))"
    and remove: "p d \<Longrightarrow> allowed e \<Longrightarrow> p (snd (on_gate (delete_limits e) now d))"
    and roll: "p d \<Longrightarrow> allowed e \<Longrightarrow> p (snd (on_gate (roll_limits_window e (Some t) (Some t')) now d))"
    and end_user: "p d \<Longrightarrow> org_ok org \<Longrightarrow> p (snd (on_gate (upsert_end_user org eu x) now d))"
    and no_end_user: "p d \<Longrightarrow> org_ok org \<Longrightarrow> p (snd (on_gate (delete_end_user org eu) now d))"
    and touched: "p d \<Longrightarrow> org_ok org \<Longrightarrow> p (snd (on_gate (touch_end_user org eu) now d))"
    and key: "p d \<Longrightarrow> key_ok kid \<Longrightarrow> p (snd (on_store (set_key_columns kid q) d))"
    and logged: "p d \<Longrightarrow> p (snd (on_store (insert_audit entry) d))"
    and row: "p d \<Longrightarrow> ga_limits (dk_gate d) e = Some l \<Longrightarrow> el_entity l = e"
    and merged: "p d \<Longrightarrow> limits_problem models i = None
      \<Longrightarrow> good (merged_limits months (ga_limits (dk_gate d) e) e owner i now)"
    and new_row: "limits_problem models i = None \<Longrightarrow> good (merged_limits months None e owner i now)"
    and cleared: "p d \<Longrightarrow> ga_limits (dk_gate d) e = Some l \<Longrightarrow> good (reset_row months now l)"
    and admitted: "ctx_ok ctx \<Longrightarrow> p d \<Longrightarrow> admits ctx org (dk_store d) \<Longrightarrow> org_ok org"
    and org_entities: "org_ok org \<Longrightarrow> allowed (EOrg, org)" "org_ok org \<Longrightarrow> allowed (EMember, member_entity_id org u)"
      "org_ok org \<Longrightarrow> allowed (EEndUser, end_user_entity_id org u)"
    and app_entity: "p d \<Longrightarrow> find_app a (dk_store d) = Some y \<Longrightarrow> org_ok (ap_org_id y) \<Longrightarrow> allowed (EApp, a)"
    and own_key: "ctx_ok ctx \<Longrightarrow> p d \<Longrightarrow> find_key kid (st_keys (dk_store d)) = Some k
      \<Longrightarrow> is_platform_admin ctx \<or> ky_org_id k = None \<or> ky_org_id k = kc_org_id ctx \<Longrightarrow> key_ok kid"
    and key_entity: "key_ok kid \<Longrightarrow> allowed (EKey, uuid_text kid)"
    and own: "ctx_ok ctx \<Longrightarrow> e \<in> set (own_entities ctx z) \<Longrightarrow> allowed e"
begin

lemma audit_keeps: "keeping p (audit ctx org action target_type tid)"
  by (rule keeping_runs) (auto simp: audit_def logged)

lemma gate_reads: "snd (on_gate (get_limits e) now d) = d" "snd (on_gate (get_end_user o' eu) now d) = d"
  by (simp_all add: on_parts get_limits_def get_end_user_def)

lemma store_reads: "snd (on_store (reading f) d) = d"
  by (simp add: on_parts)

lemmas reads = gate_reads store_reads [unfolded reading_def]

lemma org_writes: "p d \<Longrightarrow> org_ok org \<Longrightarrow> p (snd (for_org org (upsert_end_user org eu x) now d))"
  "p d \<Longrightarrow> org_ok org \<Longrightarrow> p (snd (for_org org (touch_end_user org eu) now d))"
  by (simp_all add: for_org_def end_user touched)

lemma current_keeps:
  assumes "calm p w" "allowed e"
  shows "keeping p (current_limits env w e)"
proof -
  have rolled: "keeping p (andthen (draw (wd_now w)) (\<lambda>now.
      case lapsed_window_next_reset (dv_months env) (el_duration l) (el_reset_at l) now of
        None \<Rightarrow> respond NoAnswer
      | Some None \<Rightarrow> ret (Inr (Some l))
      | Some (Some next_at) \<Rightarrow>
          andthen (stmt_at w (on_gate (roll_limits_window e (el_reset_at l) (Some next_at)))) (\<lambda>r. case r of
             Inl x \<Rightarrow> ret (Inl x)
           | Inr True \<Rightarrow> ret (Inr (Some (l\<lparr>el_spend := 0, el_alerted_at := None, el_reset_at := Some next_at\<rparr>)))
           | Inr False \<Rightarrow> andthen (stmt_at w (on_gate (get_limits e))) (\<lambda>r. case r of
                Inl x \<Rightarrow> ret (Inl x)
              | Inr fresh \<Rightarrow> ret (Inr (Some (unwrap_or l fresh)))))))" for l
  proof (cases "el_reset_at l")
    case None
    then have "lapsed_window_next_reset (dv_months env) (el_duration l) (el_reset_at l) now = Some None" for now
      by (auto simp: lapsed_window_next_reset_def split: option.split)
    then show ?thesis by (auto intro!: keeping_intros)
  next
    case (Some t)
    show ?thesis unfolding Some using assms by (intro keeping_intros) (simp_all add: roll reads)
  qed
  show ?thesis
    unfolding current_limits_def using assms
    by (intro keeping_andthen [OF keeping_stmt_at]) (auto simp: reads intro!: keeping_ret rolled split: sum.split option.split)
qed

lemma each_keeps:
  assumes "calm p w" "\<And>e. e \<in> set es \<Longrightarrow> allowed e"
  shows "keeping p (each_current env w es)"
  using assms(2) by (induction es) (auto intro!: keeping_intros current_keeps assms(1))

lemma found_row:
  assumes "calm p w" "p (rn_db s)" "need internal (stmt_at w (on_gate (get_limits e))) s = (Inr a, s')"
  shows "\<exists>d. p d \<and> ga_limits (dk_gate d) e = a"
  using assms
  by (intro exI [of _ "seen w s"]) (auto simp: outcomes on_parts get_limits_def reads_def calm_def seen_def)

lemma get_keeps: "calm p w \<Longrightarrow> allowed e \<Longrightarrow> keeping p (do_get env w e)"
  unfolding do_get_def by (intro keeping_intros current_keeps)

lemma validated:
  assumes "calm p w" "\<And>models. limits_problem models i = None \<Longrightarrow> keeping p f"
  shows "keeping p (andthen (validate_input w i) (\<lambda>_. f))"
proof (rule keeping_guard [where Q = "\<lambda>_. \<exists>models. limits_problem models i = None"])
  show "keeping p (validate_input w i)"
    unfolding validate_input_def using assms(1) by (auto intro!: keeping_intros)
  show "\<exists>models. limits_problem models i = None" if "validate_input w i s = (Inr a, s')" for s a s'
    using that by (auto simp: validate_input_def outcomes split: option.splits prod.splits)
qed (use assms(2) in blast)

lemma put_keeps:
  assumes "calm p w" "allowed e"
  shows "keeping p (do_put env w ctx e org i)"
  unfolding do_put_def
proof (rule validated [OF assms(1)], rule keeping_guard)
  fix models assume i: "limits_problem models i = None"
  show "keeping p (need internal (stmt_at w (on_gate (get_limits e))))"
    using assms(1) by (intro keeping_intros) (simp_all add: reads)
  show "\<forall>now. good (merged_limits (dv_months env) a e org i now)"
    if "p (rn_db s)" "need internal (stmt_at w (on_gate (get_limits e))) s = (Inr a, s')" for s a s'
    using found_row [OF assms(1) that] merged [OF _ i] by metis
  show "keeping p (andthen (draw (wd_now w)) (\<lambda>now. let l = merged_limits (dv_months env) a e org i now in
       andthen (need internal (stmt_at w (on_gate (upsert_limits l)))) (\<lambda>_.
       andthen (audit ctx org ''limits.update'' (limits_target e) (snd e)) (\<lambda>_. ret (LimitsIs l)))))"
    if "\<forall>now. good (merged_limits (dv_months env) a e org i now)" for a
    using that assms unfolding Let_def
    by (intro keeping_intros audit_keeps upsert) (simp_all add: merged_entity)
qed

lemma delete_keeps: "calm p w \<Longrightarrow> allowed e \<Longrightarrow> keeping p (do_delete w ctx e org)"
  unfolding do_delete_def by (intro keeping_intros audit_keeps) (simp_all add: remove)

lemma reset_keeps:
  assumes "calm p w" "allowed e"
  shows "keeping p (do_reset env w ctx e org)"
  unfolding do_reset_def
proof (rule keeping_guard)
  show "keeping p (need internal (stmt_at w (on_gate (get_limits e))))"
    using assms(1) by (intro keeping_intros) (simp_all add: reads)
  show "\<forall>l. a = Some l \<longrightarrow> el_entity l = e \<and> (\<forall>now. good (reset_row (dv_months env) now l))"
    if "p (rn_db s)" "need internal (stmt_at w (on_gate (get_limits e))) s = (Inr a, s')" for s a s'
    using found_row [OF assms(1) that] row cleared by metis
  show "keeping p (andthen (must (limits_not_found e) a) (\<lambda>l0. andthen (draw (wd_now w)) (\<lambda>now.
       let l = reset_row (dv_months env) now l0 in
       andthen (need internal (stmt_at w (on_gate (upsert_limits l)))) (\<lambda>_.
       andthen (audit ctx org ''limits.reset_spend'' (limits_target e) (snd e)) (\<lambda>_. ret (LimitsIs l))))))"
    if "\<forall>l. a = Some l \<longrightarrow> el_entity l = e \<and> (\<forall>now. good (reset_row (dv_months env) now l))" for a
  proof (cases a)
    case (Some l)
    then show ?thesis
      using that assms unfolding Let_def must_def Some option.case andthen_steps
      by (intro keeping_intros audit_keeps upsert) (simp_all add: reset_row_def)
  qed (simp add: must_def andthen_steps keeping_respond)
qed

text \<open>The checks of the caller.\<close>

lemma require_keeps: "calm p w \<Longrightarrow> keeping p (require_org w ctx org level perm)"
  unfolding require_org_def by (intro keeping_intros) (simp_all add: on_parts get_membership_def)

lemma required:
  assumes "calm p w" "ctx_ok ctx" "p (rn_db s)" "require_org w ctx org level perm s = (Inr a, s')"
  shows "org_ok org"
proof (rule admitted [OF assms(2)])
  show "p (seen w s)" using assms(1,3) by (simp add: calm_def seen_def)
  show "admits ctx org (dk_store (seen w s))"
  proof (cases "is_platform_admin ctx \<or> kc_user ctx = None")
    case True
    then show ?thesis
      using assms(4) by (auto simp: require_org_def admits_def outcomes split: if_splits)
  next
    case False
    then obtain u where u: "kc_user ctx = Some u" "\<not> is_platform_admin ctx" by auto
    have "member_role org (uc_user_id u) (dk_store (seen w s)) \<noteq> None"
      using assms(4) u by (cases "member_role org (uc_user_id u) (dk_store (seen w s))")
        (auto simp: require_org_def andthen_def stmt_def Let_def seen_def get_membership_def on_store_def reading_def
           ret_def respond_def split: option.splits sum.splits if_splits)
    with u show ?thesis by (simp add: admits_def)
  qed
qed

lemma managed_keeps: "keeping p (managed_store env)"
  unfolding managed_store_def by (intro keeping_intros)

lemma org_handler_keeps:
  assumes "calm p w" "\<forall>ctx. ctx0 = Some ctx \<longrightarrow> ctx_ok ctx" "\<And>ctx. org_ok org \<Longrightarrow> keeping p (body ctx)"
  shows "keeping p (org_handler env w ctx0 org level perm body)"
proof (cases ctx0)
  case (Some ctx)
  have "keeping p (andthen (require_org w ctx org level perm) (\<lambda>_. body ctx))"
    by (rule keeping_guard [where Q = "\<lambda>_. org_ok org"])
      (use assms Some required [OF assms(1)] in \<open>auto intro: require_keeps\<close>)
  then show ?thesis
    unfolding org_handler_def ctx_of_def Some must_def option.case andthen_steps
    by (rule keeping_andthen [OF managed_keeps])
qed (simp add: org_handler_def ctx_of_def must_def andthen_steps keeping_respond)

lemma app_handler_keeps:
  assumes "calm p w" "\<forall>ctx. ctx0 = Some ctx \<longrightarrow> ctx_ok ctx" "\<And>ctx org. allowed (EApp, app) \<Longrightarrow> keeping p (body ctx org)"
  shows "keeping p (app_handler env w ctx0 app level perm body)"
  unfolding app_handler_def
proof (rule keeping_guard [where Q = "\<lambda>org. org_ok org \<longrightarrow> allowed (EApp, app)"])
  show "keeping p (app_org w app)"
    unfolding app_org_def using assms(1) by (intro keeping_intros) (simp_all add: on_parts get_application_def)
  show "org_ok a \<longrightarrow> allowed (EApp, app)" if "p (rn_db s)" "app_org w app s = (Inr a, s')" for s a s'
  proof -
    have "p (seen w s)" using assms(1) that(1) by (simp add: calm_def seen_def)
    then show ?thesis
      using that(2) app_entity by (auto simp: app_org_def outcomes on_parts get_application_def)
  qed
qed (use assms in \<open>auto intro: org_handler_keeps\<close>)

lemma authorized_key:
  assumes "calm p w" "ctx_ok ctx" "p (rn_db s)" "authorize_key env w ctx i level s = (Inr k, s')"
  shows "key_ok (ky_id k)"
proof -
  have "p (seen w s)" using assms(1,3) by (simp add: calm_def seen_def)
  moreover obtain kid where "find_key kid (st_keys (dk_store (seen w s))) = Some k"
    "is_platform_admin ctx \<or> ky_org_id k = None \<or> ky_org_id k = kc_org_id ctx"
    using assms(4)
    by (auto simp: authorize_key_def outcomes on_parts key_row_def Let_def split: if_splits option.splits access_level.splits)
  moreover from this(1) have "ky_id k = kid" by (auto simp: find_key_def dest: find_SomeD)
  ultimately show ?thesis using own_key [OF assms(2)] by metis
qed

lemma key_handler_keeps:
  assumes "calm p w" "\<forall>ctx. ctx0 = Some ctx \<longrightarrow> ctx_ok ctx" "\<And>ctx k. key_ok (ky_id k) \<Longrightarrow> keeping p (body ctx k)"
  shows "keeping p (key_handler env w ctx0 i level body)"
proof (cases ctx0)
  case (Some ctx)
  have "keeping p (andthen (authorize_key env w ctx i level) (\<lambda>k. body ctx k))"
  proof (rule keeping_guard [where Q = "\<lambda>k. key_ok (ky_id k)"])
    show "keeping p (authorize_key env w ctx i level)"
      unfolding authorize_key_def Let_def using assms(1)
      by (intro keeping_intros) (auto simp: on_parts key_row_def intro!: keeping_intros split: access_level.split)
  qed (use assms Some authorized_key [OF assms(1)] in auto)
  then show ?thesis
    unfolding key_handler_def ctx_of_def Some must_def option.case andthen_steps
    by (rule keeping_andthen [OF managed_keeps])
qed (simp add: key_handler_def ctx_of_def must_def andthen_steps keeping_respond)

lemma scope_keeps:
  assumes "calm p w" "\<forall>ctx. ctx0 = Some ctx \<longrightarrow> ctx_ok ctx" "\<And>ctx org. org_ok org \<Longrightarrow> keeping p (f (ctx, org))"
  shows "keeping p (andthen (org_scope env w ctx0 explicit level) f)"
proof (rule keeping_guard [where Q = "\<lambda>(ctx, org). org_ok org"])
  show "keeping p (org_scope env w ctx0 explicit level)"
    unfolding org_scope_def ctx_of_def desk_active_org_def using assms(1)
    by (intro keeping_intros require_keeps managed_keeps)
  show "case a of (ctx, org) \<Rightarrow> org_ok org" if "p (rn_db s)" "org_scope env w ctx0 explicit level s = (Inr a, s')" for s a s'
    using that assms(2) required [OF assms(1)]
    by (auto simp: org_scope_def ctx_of_def managed_store_def desk_active_org_def outcomes split: option.splits if_splits)
qed (use assms(3) in auto)

text \<open>The handlers.\<close>

lemmas on_entity = get_keeps put_keeps delete_keeps reset_keeps

lemma key_handlers:
  assumes "calm p w" "\<forall>ctx. ctx0 = Some ctx \<longrightarrow> ctx_ok ctx"
  shows "keeping p (get_key_limits env w ctx0 i)" "keeping p (put_key_limits env w ctx0 i input)"
    "keeping p (delete_key_limits env w ctx0 i)" "keeping p (reset_key_limits env w ctx0 i)"
  unfolding get_key_limits_def put_key_limits_def delete_key_limits_def reset_key_limits_def key_entity_def
  by (intro key_handler_keeps [OF assms] on_entity assms(1) key_entity; assumption)+

lemma active_keeps:
  assumes "calm p w" "key_ok (ky_id k)"
  shows "keeping p (set_key_active w ctx k b)"
  unfolding set_key_active_def update_api_key_def using assms
  by (intro keeping_intros audit_keeps) (simp_all add: key store_reads key_row_def)

lemma block_handlers:
  assumes "calm p w" "\<forall>ctx. ctx0 = Some ctx \<longrightarrow> ctx_ok ctx"
  shows "keeping p (block_key env w ctx0 i)" "keeping p (unblock_key env w ctx0 i)"
  unfolding block_key_def unblock_key_def
  by (intro key_handler_keeps [OF assms] active_keeps assms(1); assumption)+

lemma exists_keep:
  "calm p w \<Longrightarrow> keeping p (org_exists w i)" "calm p w \<Longrightarrow> keeping p (member_exists w i u)"
  unfolding org_exists_def member_exists_def
  by (intro keeping_intros; simp add: on_parts get_organization_def get_membership_def)+

lemma org_handlers:
  assumes "calm p w" "\<forall>ctx. ctx0 = Some ctx \<longrightarrow> ctx_ok ctx"
  shows "keeping p (get_org_limits env w ctx0 i)" "keeping p (put_org_limits env w ctx0 i input)"
    "keeping p (delete_org_limits env w ctx0 i)" "keeping p (reset_org_limits env w ctx0 i)"
    "keeping p (get_member_limits env w ctx0 i u)" "keeping p (put_member_limits env w ctx0 i u input)"
    "keeping p (delete_member_limits env w ctx0 i u)" "keeping p (reset_member_limits env w ctx0 i u)"
  unfolding get_org_limits_def put_org_limits_def delete_org_limits_def reset_org_limits_def
    get_member_limits_def put_member_limits_def delete_member_limits_def reset_member_limits_def
  by (intro org_handler_keeps [OF assms] keeping_andthen exists_keep on_entity assms(1) org_entities; assumption)+

lemma app_handlers:
  assumes "calm p w" "\<forall>ctx. ctx0 = Some ctx \<longrightarrow> ctx_ok ctx"
  shows "keeping p (get_app_limits env w ctx0 i)" "keeping p (put_app_limits env w ctx0 i input)"
    "keeping p (delete_app_limits env w ctx0 i)" "keeping p (reset_app_limits env w ctx0 i)"
  unfolding get_app_limits_def put_app_limits_def delete_app_limits_def reset_app_limits_def
  by (intro app_handler_keeps [OF assms] on_entity assms(1); assumption)+

lemma answer_keeps: "calm p w \<Longrightarrow> org_ok org \<Longrightarrow> keeping p (answer_view env w status org eu u)"
  unfolding answer_view_def view_end_user_def end_user_entity_def
  by (intro keeping_intros current_keeps org_entities)

lemma existing_keeps: "calm p w \<Longrightarrow> keeping p (existing_end_user w org eu)"
  unfolding existing_end_user_def by (intro keeping_intros) (simp_all add: reads)

lemma end_user_handlers:
  assumes "calm p w" "\<forall>ctx. ctx0 = Some ctx \<longrightarrow> ctx_ok ctx"
  shows "keeping p (get_end_user_handler env w ctx0 q eu)" "keeping p (update_end_user env w ctx0 q eu body)"
    "keeping p (delete_end_user_handler env w ctx0 q eu)"
    "keeping p (block_end_user env w ctx0 q eu)" "keeping p (unblock_end_user env w ctx0 q eu)"
    "keeping p (get_end_user_limits env w ctx0 q eu)" "keeping p (put_end_user_limits env w ctx0 q eu input)"
    "keeping p (delete_end_user_limits env w ctx0 q eu)" "keeping p (reset_end_user_limits env w ctx0 q eu)"
  unfolding get_end_user_handler_def update_end_user_def delete_end_user_handler_def block_end_user_def
    unblock_end_user_def set_blocked_def get_end_user_limits_def put_end_user_limits_def delete_end_user_limits_def
    reset_end_user_limits_def end_user_entity_def Let_def
  by (rule scope_keeps [OF assms], simp only: prod.case,
      intro keeping_intros answer_keeps existing_keeps on_entity audit_keeps assms(1) org_entities;
      (assumption | simp add: reads org_writes remove no_end_user org_entities))+

lemma create_keeps:
  assumes "calm p w" "\<forall>ctx. ctx0 = Some ctx \<longrightarrow> ctx_ok ctx"
  shows "keeping p (create_end_user env w ctx0 q body)"
  unfolding create_end_user_def
proof (rule scope_keeps [OF assms], simp only: prod.case Let_def)
  fix ctx org assume org: "org_ok org"
  let ?eu = "trim (ce_id body)"
  let ?limits = "case ce_limits body of None \<Rightarrow> ret ()
      | Some i \<Rightarrow> andthen (draw (wd_now w)) (\<lambda>now. need internal (stmt_at w (on_gate (upsert_limits
          (merged_limits (dv_months env) None (end_user_entity org ?eu) (Some org) i now)))))"
  show "keeping p (unless (?eu = [] \<or> MAX_ID_LEN < length ?eu) (bad_request ''invalid_end_user'' ''id must be 1-256 characters'') (
     unless (bad_metadata (ce_metadata body)) (bad_request ''invalid_end_user'' ''metadata must be a JSON object'') (
     andthen (case ce_limits body of Some i \<Rightarrow> validate_input w i | None \<Rightarrow> ret ()) (\<lambda>_.
     andthen (need internal (stmt_at w (on_gate (get_end_user org ?eu)))) (\<lambda>row.
     unless (row \<noteq> None) (DeskError 409 ''end_user_exists'' (''end user '' @ quoted ?eu @ '' already exists'')) (
     andthen (draw (wd_now w)) (\<lambda>now.
     andthen (need internal (stmt_at w (for_org org (upsert_end_user org ?eu \<lparr>eu_alias = ce_alias body, eu_blocked = ce_blocked body, eu_metadata = ce_metadata body,
              eu_created_at = now, eu_updated_at = now, eu_last_seen_at = None\<rparr>)))) (\<lambda>_.
     andthen ?limits (\<lambda>_.
     andthen (audit ctx (Some org) ''end_user.create'' ''end_user'' ?eu) (\<lambda>_.
     answer_view env w 201 org ?eu \<lparr>eu_alias = ce_alias body, eu_blocked = ce_blocked body, eu_metadata = ce_metadata body,
              eu_created_at = now, eu_updated_at = now, eu_last_seen_at = None\<rparr>))))))))))"
  proof (cases "ce_limits body")
    case None
    show ?thesis
      unfolding None option.case using assms(1) org
      by (intro keeping_intros answer_keeps audit_keeps) (simp_all add: reads org_writes)
  next
    case (Some i)
    show ?thesis
      unfolding Some option.case using assms(1) org
      by (intro keeping_unless validated keeping_need keeping_andthen keeping_stmt_at keeping_draw answer_keeps audit_keeps)
        (auto simp: reads org_writes merged_entity end_user_entity_def org_entities intro!: upsert intro: new_row)
  qed
qed

lemma my_limits_keeps:
  assumes "calm p w" "\<forall>ctx. ctx0 = Some ctx \<longrightarrow> ctx_ok ctx"
  shows "keeping p (my_limits env w ctx0)"
proof (cases ctx0)
  case (Some ctx)
  have "keeping p (user_of_caller w ctx)"
    unfolding user_of_caller_def using assms(1)
    by (auto intro!: keeping_intros simp: on_parts key_row_def split: option.split)
  then show ?thesis
    unfolding my_limits_def ctx_of_def Some must_def option.case andthen_steps
    using assms Some own by (intro keeping_andthen [OF managed_keeps] keeping_andthen each_keeps keeping_ret) auto
qed (simp add: my_limits_def ctx_of_def must_def andthen_steps keeping_respond)

lemma handler_keeps:
  assumes "calm p w" "\<forall>ctx. ctx0 = Some ctx \<longrightarrow> ctx_ok ctx"
  shows "keeping p (limits_handler env w ctx0 r)"
  by (cases r) (simp_all add: key_handlers [OF assms] block_handlers [OF assms] org_handlers [OF assms]
      app_handlers [OF assms] end_user_handlers [OF assms] create_keeps [OF assms] my_limits_keeps [OF assms])

end

section \<open>Requests one after the other\<close>

fun serve_limits ::
  "desk_env \<Rightarrow> (desk world \<times> key_context option \<times> limits_request) list \<Rightarrow> desk \<Rightarrow> desk" where
  "serve_limits env [] d = d"
| "serve_limits env ((w, ctx, r) # rs) d = serve_limits env rs (snd (serve (limits_handler env w ctx r) d))"

context limits_desk
begin

lemma run_keeps:
  "\<forall>(w, ctx0, r) \<in> set rs. calm p w \<and> (\<forall>ctx. ctx0 = Some ctx \<longrightarrow> ctx_ok ctx) \<Longrightarrow> p d \<Longrightarrow> p (serve_limits env rs d)"
proof (induction env rs d rule: serve_limits.induct)
  case (2 env w ctx r rs d)
  have "keeping p (limits_handler env w ctx r)"
    using 2(2) by (intro handler_keeps) simp_all
  from keeping_serve [OF this 2(3)] show ?case
    using 2(1,2) by simp
qed simp

end

section \<open>Tenants\<close>

definition keys_of :: "string \<Rightarrow> store \<Rightarrow> api_key list" where
  "keys_of org db = filter (\<lambda>k. ky_org_id k = Some org) (st_keys db)"

text \<open>The entities of an organization with these applications and keys.\<close>

fun belongs :: "string \<Rightarrow> application list \<Rightarrow> api_key list \<Rightarrow> entity \<Rightarrow> bool" where
  "belongs org apps keys (EKey, i) = (i \<in> (\<lambda>k. uuid_text (ky_id k)) ` set keys)"
| "belongs org apps keys (EOrg, i) = (i = org)"
| "belongs org apps keys (EApp, i) = owned_by i apps"
| "belongs org apps keys (EMember, i) = (take (Suc (length org)) i = org @ '':'')"
| "belongs org apps keys (EEndUser, i) = (take (Suc (length org)) i = org @ '':'')"

record holdings =
  ho_apps :: "application list"
  ho_members :: "membership list"
  ho_keys :: "api_key list"
  ho_limits :: "entity \<Rightarrow> entity_limits option"
  ho_end_users :: "string \<Rightarrow> end_user option"

definition holdings_of :: "string \<Rightarrow> desk \<Rightarrow> holdings" where
  "holdings_of org d =
     (let apps = apps_of org (dk_store d); keys = keys_of org (dk_store d) in
      \<lparr>ho_apps = apps, ho_members = filter (\<lambda>m. mb_org_id m = org) (st_members (dk_store d)), ho_keys = keys,
       ho_limits = (\<lambda>e. if belongs org apps keys e then ga_limits (dk_gate d) e else None),
       ho_end_users = (\<lambda>eu. ga_end_users (dk_gate d) (org, eu))\<rparr>)"

text \<open>Ids of organizations have no colon, as the texts of UUIDs have none; ids of rows are unique.\<close>

definition no_colon :: "string \<Rightarrow> bool" where
  "no_colon s = (CHR '':'' \<notin> set s)"

definition ids_ok :: "string \<Rightarrow> desk \<Rightarrow> bool" where
  "ids_ok org d = (no_colon org \<and> list_all (\<lambda>m. no_colon (mb_org_id m)) (st_members (dk_store d))
     \<and> app_ids_unique (dk_store d) \<and> distinct (map ky_id (st_keys (dk_store d))) \<and> keyed (dk_gate d))"

definition intact :: "string \<Rightarrow> holdings \<Rightarrow> desk \<Rightarrow> bool" where
  "intact org H d = (holdings_of org d = H \<and> ids_ok org d)"

text \<open>Callers of other organizations: neither the platform administrator, nor a member, nor one of its keys.\<close>

definition stranger :: "string \<Rightarrow> holdings \<Rightarrow> key_context \<Rightarrow> bool" where
  "stranger org H ctx = (no_colon org \<and> \<not> is_platform_admin ctx \<and> kc_org_id ctx \<noteq> Some org
     \<and> (case kc_org_id ctx of Some o' \<Rightarrow> no_colon o' | None \<Rightarrow> True)
     \<and> (case kc_user ctx of Some u \<Rightarrow> uc_user_id u \<notin> mb_user_id ` set (ho_members H) | None \<Rightarrow> True)
     \<and> (case kc_key_id ctx of Some k \<Rightarrow> k \<notin> ky_id ` set (ho_keys H) | None \<Rightarrow> True)
     \<and> (case kc_app_id ctx of Some a \<Rightarrow> \<not> owned_by a (ho_apps H) | None \<Rightarrow> True))"

lemma prefixed:
  assumes "no_colon a" "no_colon b" "take (Suc (length a)) (b @ '':'' @ x) = a @ '':''"
  shows "a = b"
proof -
  have "takeWhile (\<lambda>c. c \<noteq> CHR '':'') (s @ '':'' @ t) = s" if "no_colon s" for s t
    using that by (induction s) (auto simp: no_colon_def)
  from this [OF assms(1), of "drop (Suc (length a)) (b @ '':'' @ x)"] this [OF assms(2), of x]
  show ?thesis using append_take_drop_id [of "Suc (length a)" "b @ '':'' @ x"] unfolding assms(3) by simp
qed

lemma foreign_entities:
  assumes "no_colon org" "no_colon o'" "o' \<noteq> org"
  shows "\<not> belongs org apps keys (EOrg, o')" "\<not> belongs org apps keys (EMember, member_entity_id o' u)"
    "\<not> belongs org apps keys (EEndUser, end_user_entity_id o' u)"
  using prefixed [OF assms(1,2)] assms(3) by (auto simp: member_entity_id_def end_user_entity_id_def)

text \<open>A write to a row of limits, or of an end user, that is none of the organization's.\<close>

lemma intact_gate:
  assumes "intact org H d" "keyed g"
    and "\<And>e. belongs org (ho_apps H) (ho_keys H) e \<Longrightarrow> ga_limits g e = ga_limits (dk_gate d) e"
    and "\<And>eu. ga_end_users g (org, eu) = ga_end_users (dk_gate d) (org, eu)"
  shows "intact org H (d\<lparr>dk_gate := g\<rparr>)"
proof -
  have "ho_apps H = apps_of org (dk_store d)" "ho_keys H = keys_of org (dk_store d)"
    using assms(1) by (auto simp: intact_def holdings_of_def Let_def)
  then have "holdings_of org (d\<lparr>dk_gate := g\<rparr>) = holdings_of org d"
    using assms(3,4) by (auto simp: holdings_of_def Let_def)
  then show ?thesis using assms(1,2) by (simp add: intact_def ids_ok_def)
qed

lemmas gate_statements = statement_defs delete_limits_def upsert_end_user_def delete_end_user_def Let_def

lemma stranger_admitted:
  assumes "stranger org H ctx" "intact org H d" "admits ctx o' (dk_store d)"
  shows "o' \<noteq> org \<and> no_colon o' \<and> no_colon org"
proof -
  have members: "ho_members H = filter (\<lambda>m. mb_org_id m = org) (st_members (dk_store d))"
    using assms(2) by (auto simp: intact_def holdings_of_def Let_def)
  consider u m where "kc_user ctx = Some u" "m \<in> set (st_members (dk_store d))" "mb_org_id m = o'" "mb_user_id m = uc_user_id u"
    | "kc_org_id ctx = Some o'"
    using assms(1,3) by (auto simp: admits_def stranger_def member_role_def dest!: find_SomeD)
  then show ?thesis
  proof cases
    case (1 u m)
    then show ?thesis
      using assms(1,2) by (auto simp: stranger_def members intact_def ids_ok_def list_all_iff rev_image_eqI)
  next
    case 2
    then show ?thesis using assms(1,2) by (auto simp: stranger_def intact_def ids_ok_def)
  qed
qed

lemma stranger_app:
  assumes "intact org H d" "find_app a (dk_store d) = Some x" "ap_org_id x \<noteq> org"
  shows "\<not> belongs org (ho_apps H) (ho_keys H) (EApp, a)"
proof -
  have "ho_apps H = apps_of org (dk_store d)" "inj_on ap_id (set (st_apps (dk_store d)))"
    using assms(1) by (auto simp: intact_def holdings_of_def Let_def ids_ok_def app_ids_unique_def distinct_map)
  moreover have "x \<in> set (st_apps (dk_store d))" "ap_id x = a"
    using assms(2) by (auto simp: find_app_def dest: find_SomeD)
  ultimately show ?thesis
    using assms(3) by (auto simp: owned_by_def apps_of_def list_ex_iff dest: inj_onD)
qed

lemma stranger_key:
  assumes "stranger org H ctx" "intact org H d" "find_key kid (st_keys (dk_store d)) = Some k"
    and "is_platform_admin ctx \<or> ky_org_id k = None \<or> ky_org_id k = kc_org_id ctx"
  shows "kid \<notin> ky_id ` set (ho_keys H)"
proof -
  have keys: "ho_keys H = keys_of org (dk_store d)" "inj_on ky_id (set (st_keys (dk_store d)))"
    using assms(2) by (auto simp: intact_def holdings_of_def Let_def ids_ok_def distinct_map)
  have k: "k \<in> set (st_keys (dk_store d))" "ky_id k = kid"
    using assms(3) by (auto simp: find_key_def dest: find_SomeD)
  have "ky_org_id k \<noteq> Some org" using assms(1,4) by (auto simp: stranger_def)
  with k keys show ?thesis by (auto simp: keys_of_def dest: inj_onD)
qed

lemma intact_keys:
  assumes "intact org H d" "kid \<notin> ky_id ` set (ho_keys H)"
  shows "intact org H (snd (on_store (set_key_columns kid q) d))"
proof -
  let ?ks = "st_keys (dk_store d)" and ?ks' = "update_key kid (set_columns q) (st_keys (dk_store d))"
  have keys: "ho_keys H = keys_of org (dk_store d)"
    using assms(1) by (auto simp: intact_def holdings_of_def Let_def)
  have "filter (\<lambda>k. ky_org_id k = Some org) ?ks' = filter (\<lambda>k. ky_org_id k = Some org) ?ks"
    unfolding update_rows_def by (rule filter_map_same) (use assms(2) keys in \<open>auto simp: keys_of_def set_columns_def\<close>)
  moreover have "map ky_id ?ks' = map ky_id ?ks" by (auto simp: update_rows_def set_columns_def)
  ultimately show ?thesis
    using assms(1)
    by (simp add: intact_def holdings_of_def ids_ok_def keys_of_def apps_of_def app_ids_unique_def on_parts set_key_columns_def Let_def cong: if_cong)
qed

interpretation strangers: limits_desk "intact org H" "stranger org H" "\<lambda>e. \<not> belongs org (ho_apps H) (ho_keys H) e"
  "\<lambda>o'. o' \<noteq> org \<and> no_colon o' \<and> no_colon org" "\<lambda>kid. kid \<notin> ky_id ` set (ho_keys H)" "\<lambda>_. True" for org H
proof unfold_locales
  fix d e l now t t' o' eu u ctx kid k q x entry
  assume d: "intact org H d"
  then have keyed: "keyed (dk_gate d)" by (simp add: intact_def ids_ok_def)
  show "\<not> belongs org (ho_apps H) (ho_keys H) (el_entity l) \<Longrightarrow> intact org H (snd (on_gate (upsert_limits l) now d))"
    using keyed unfolding on_parts by (intro intact_gate [OF d]) (auto simp: gate_statements keyed_def)
  show "\<not> belongs org (ho_apps H) (ho_keys H) e \<Longrightarrow> intact org H (snd (on_gate (delete_limits e) now d))"
    using keyed unfolding on_parts by (intro intact_gate [OF d]) (auto simp: gate_statements keyed_def)
  show "\<not> belongs org (ho_apps H) (ho_keys H) e \<Longrightarrow> intact org H (snd (on_gate (roll_limits_window e (Some t) (Some t')) now d))"
    using keyed unfolding on_parts by (intro intact_gate [OF d]) (auto simp: gate_statements keyed_def split: option.splits)
  show "o' \<noteq> org \<and> no_colon o' \<and> no_colon org \<Longrightarrow> intact org H (snd (on_gate (upsert_end_user o' eu u) now d))"
    "o' \<noteq> org \<and> no_colon o' \<and> no_colon org \<Longrightarrow> intact org H (snd (on_gate (delete_end_user o' eu) now d))"
    "o' \<noteq> org \<and> no_colon o' \<and> no_colon org \<Longrightarrow> intact org H (snd (on_gate (touch_end_user o' eu) now d))"
    using keyed unfolding on_parts by (auto intro!: intact_gate [OF d] simp: gate_statements keyed_def)
  show "kid \<notin> ky_id ` set (ho_keys H) \<Longrightarrow> intact org H (snd (on_store (set_key_columns kid q) d))"
    by (rule intact_keys [OF d])
  show "intact org H (snd (on_store (insert_audit entry) d))"
    using d by (simp add: intact_def holdings_of_def ids_ok_def keys_of_def apps_of_def app_ids_unique_def on_parts insert_audit_def Let_def cong: if_cong)
  show "ga_limits (dk_gate d) e = Some l \<Longrightarrow> el_entity l = e" by (rule keyedD [OF keyed])
  show "stranger org H ctx \<Longrightarrow> admits ctx o' (dk_store d) \<Longrightarrow> o' \<noteq> org \<and> no_colon o' \<and> no_colon org"
    by (rule stranger_admitted [OF _ d])
  show "find_app a (dk_store d) = Some x \<Longrightarrow> ap_org_id x \<noteq> org \<and> no_colon (ap_org_id x) \<and> no_colon org
      \<Longrightarrow> \<not> belongs org (ho_apps H) (ho_keys H) (EApp, a)" for a
    using stranger_app [OF d] by blast
  show "stranger org H ctx \<Longrightarrow> find_key kid (st_keys (dk_store d)) = Some k
      \<Longrightarrow> is_platform_admin ctx \<or> ky_org_id k = None \<or> ky_org_id k = kc_org_id ctx \<Longrightarrow> kid \<notin> ky_id ` set (ho_keys H)"
    by (rule stranger_key [OF _ d])
next
  fix o' u
  assume o: "o' \<noteq> org \<and> no_colon o' \<and> no_colon org"
  then show "\<not> belongs org (ho_apps H) (ho_keys H) (EOrg, o')"
    "\<not> belongs org (ho_apps H) (ho_keys H) (EMember, member_entity_id o' u)"
    "\<not> belongs org (ho_apps H) (ho_keys H) (EEndUser, end_user_entity_id o' u)"
    using foreign_entities [of org o'] by auto
next
  fix kid assume "kid \<notin> ky_id ` set (ho_keys H)"
  then show "\<not> belongs org (ho_apps H) (ho_keys H) (EKey, uuid_text kid)"
    by (auto simp: uuid_text_inject)
next
  fix ctx e u
  assume "stranger org H ctx" "e \<in> set (own_entities ctx u)"
  then show "\<not> belongs org (ho_apps H) (ho_keys H) e"
    by (auto simp: own_entities_def stranger_def uuid_text_inject foreign_entities
        simp del: belongs.simps(4) split: option.splits)
qed simp_all

text \<open>C19: Requests about limits, end users and keys that are served for callers of other organizations
  leave an organization's keys, its end users and every row of limits of the organization, its members,
  applications, keys and end users as they are, whatever the requests are, however the database fails,
  and whatever others who leave them alone do between the statements.\<close>

theorem limits_of_others_untouched:
  assumes "ids_ok org d"
    and "\<forall>(w, ctx0, r) \<in> set rs. calm (intact org (holdings_of org d)) w
      \<and> (\<forall>ctx. ctx0 = Some ctx \<longrightarrow> stranger org (holdings_of org d) ctx)"
  shows "holdings_of org (serve_limits env rs d) = holdings_of org d"
  using strangers.run_keeps [OF assms(2), of d env] assms(1) by (simp add: intact_def)

section \<open>Well-formed rows\<close>

text \<open>What the validation of a body is for: caps that make sense, a window that is set if and only if it
  has a length, and limits that admit at least one request.\<close>

definition row_ok :: "entity_limits \<Rightarrow> bool" where
  "row_ok l = ((case el_max_budget l of Some c \<Rightarrow> 0 \<le> c | None \<Rightarrow> True)
     \<and> (case el_soft_budget l of
          Some soft \<Rightarrow> 0 \<le> soft \<and> (case el_max_budget l of Some c \<Rightarrow> soft \<le> c | None \<Rightarrow> True)
        | None \<Rightarrow> True)
     \<and> window_set l \<and> el_max_parallel l \<noteq> Some 0 \<and> el_rpm l \<noteq> Some 0)"

lemma row_ok_fields [simp]:
  "row_ok (l\<lparr>el_created_at := t\<rparr>) = row_ok l" "row_ok (l\<lparr>el_updated_at := t\<rparr>) = row_ok l"
  "row_ok (l\<lparr>el_spend := x\<rparr>) = row_ok l" "row_ok (l\<lparr>el_alerted_at := a\<rparr>) = row_ok l"
  by (simp_all add: row_ok_def window_set_def cong: option.case_cong)

definition rows_ok :: "gate \<Rightarrow> bool" where
  "rows_ok g = (\<forall>e l. ga_limits g e = Some l \<longrightarrow> el_entity l = e \<and> row_ok l)"

lemma rows_okD: "rows_ok g \<Longrightarrow> ga_limits g e = Some l \<Longrightarrow> el_entity l = e \<and> row_ok l"
  unfolding rows_ok_def by blast

lemma row_ok_window: "row_ok l \<Longrightarrow> window_set l"
  by (simp add: row_ok_def)

lemma rows_ok_update:
  assumes "rows_ok g" "\<And>l. row_ok l \<Longrightarrow> q l \<Longrightarrow> el_entity (f l) = el_entity l \<and> row_ok (f l)"
  shows "rows_ok (snd (row_update q f e g))"
  using assms by (auto simp: row_update_def rows_ok_def split: option.splits)

lemma rows_ok_upsert: "rows_ok g \<Longrightarrow> row_ok l \<Longrightarrow> rows_ok (snd (upsert_limits l now g))"
  by (auto simp: rows_ok_def upsert_limits_def Let_def)

lemma rows_ok_roll:
  assumes "rows_ok g"
  shows "rows_ok (snd (roll_limits_window e (Some t) (Some t') now g))"
  unfolding roll_limits_window_def
  by (rule rows_ok_update [OF assms]) (auto simp: row_ok_def window_set_def split: option.splits)

lemma valid_input:
  assumes "limits_problem models i = None"
  shows "case li_max_budget i of Some c \<Rightarrow> 0 \<le> c | None \<Rightarrow> True"
    and "case li_soft_budget i of
        Some soft \<Rightarrow> 0 \<le> soft \<and> (case li_max_budget i of Some c \<Rightarrow> soft \<le> c | None \<Rightarrow> True)
      | None \<Rightarrow> True"
    and "li_duration i = None \<or> (\<exists>d w. li_duration i = Some d \<and> parse_duration d = Inr w)"
    and "li_max_parallel i \<noteq> Some 0" and "li_rpm i \<noteq> Some 0"
  using assms by (auto simp: limits_problem_def Let_def split: if_splits option.splits sum.splits Option.bind_splits)

lemma merged_row_ok:
  assumes "limits_problem models i = None" "\<And>l. existing = Some l \<Longrightarrow> window_set l"
  shows "row_ok (merged_limits months existing e owner i now)"
proof -
  have fresh: "window_set (l\<lparr>el_duration := li_duration i,
      el_reset_at := (case initial_reset_at months (li_duration i) now of Inr r \<Rightarrow> r | Inl _ \<Rightarrow> None)\<rparr>)" for l
    by (rule initial_window [OF valid_input(3) [OF assms(1)]])
  have same: "window_set l = window_set l'" if "el_duration l = el_duration l'" "el_reset_at l = el_reset_at l'" for l l'
    using that by (simp add: window_set_def cong: option.case_cong)
  have "window_set (merged_limits months existing e owner i now)"
  proof (cases "\<exists>l. existing = Some l \<and> el_duration l = li_duration i")
    case True
    then obtain l where l: "existing = Some l" "el_duration l = li_duration i" by auto
    then have "window_set (merged_limits months existing e owner i now) = window_set l"
      by (intro same) (simp_all add: merged_limits_def)
    with assms(2) [OF l(1)] show ?thesis by simp
  next
    case False
    then have "existing = None \<or> (\<exists>l. existing = Some l \<and> el_duration l \<noteq> li_duration i)" by (cases existing) auto
    then have "window_set (merged_limits months existing e owner i now)
        = window_set (merged_limits months existing e owner i now \<lparr>el_duration := li_duration i,
            el_reset_at := (case initial_reset_at months (li_duration i) now of Inr r \<Rightarrow> r | Inl _ \<Rightarrow> None)\<rparr>)"
      by (intro same) (auto simp: merged_limits_def)
    then show ?thesis by (simp add: fresh)
  qed
  with valid_input [OF assms(1)] show ?thesis
    by (cases existing) (simp_all add: row_ok_def merged_limits_def cong: option.case_cong)
qed

interpretation wf_gate: gate_invariant rows_ok "\<lambda>_. True"
proof unfold_locales
  fix g l now e t a
  assume g: "rows_ok g"
  show "rows_ok (snd (roll_limits_window e (Some t) (Some t') now g))" for t t' by (rule rows_ok_roll [OF g])
  show "default_row l \<Longrightarrow> rows_ok (snd (upsert_limits l now g))"
    by (rule rows_ok_upsert [OF g]) (auto simp: default_row_def row_ok_def)
  show "rows_ok (snd (reserve_limits_spend e a now g))" "rows_ok (snd (mark_soft_budget_alerted e t now g))"
    unfolding reserve_limits_spend_def mark_soft_budget_alerted_def
    by (rule rows_ok_update [OF g]; simp)+
  show "rows_ok (snd (charge_limits_spend e a now g))"
  proof -
    have "rows_ok (snd (row_update (\<lambda>_. True) (\<lambda>l. l\<lparr>el_spend := f64_add (el_spend l) a\<rparr>) e g))"
      by (rule rows_ok_update [OF g]) simp
    then show ?thesis by (simp add: charge_limits_spend_def split_beta Let_def)
  qed
qed (simp_all add: rows_ok_def touch_end_user_def Let_def)

interpretation wf_desk: limits_desk "\<lambda>d :: desk. rows_ok (dk_gate d)" "\<lambda>_. True" "\<lambda>_. True" "\<lambda>_. True" "\<lambda>_. True" row_ok
proof unfold_locales
  fix d :: desk and l now e i models months owner
  assume d: "rows_ok (dk_gate d)"
  show "row_ok l \<Longrightarrow> rows_ok (dk_gate (snd (on_gate (upsert_limits l) now d)))"
    by (simp add: on_parts rows_ok_upsert d)
  show "rows_ok (dk_gate (snd (on_gate (delete_limits e) now d)))"
    using d by (simp add: on_parts rows_ok_def delete_limits_def)
  show "rows_ok (dk_gate (snd (on_gate (roll_limits_window e (Some t) (Some t')) now d)))" for t t'
    by (simp add: on_parts rows_ok_roll d)
  show "limits_problem models i = None \<Longrightarrow> row_ok (merged_limits months (ga_limits (dk_gate d) e) e owner i now)"
    by (rule merged_row_ok) (use rows_okD [OF d] row_ok_window in blast)+
  show "row_ok (reset_row months now l)" if "ga_limits (dk_gate d) e = Some l"
  proof -
    have l: "row_ok l" using rows_okD [OF d that] by simp
    then have "el_duration l = None \<or> (\<exists>t w. el_duration l = Some t \<and> parse_duration t = Inr w)"
      by (auto simp: row_ok_def window_set_def split: option.splits sum.splits)
    from initial_window [OF this, where l = l and months = months and now = now] l show ?thesis
      by (simp add: reset_row_def row_ok_def window_set_def cong: option.case_cong)
  qed
  show "ga_limits (dk_gate d) e = Some l \<Longrightarrow> el_entity l = e" using rows_okD [OF d] by simp
next
  show "limits_problem models i = None \<Longrightarrow> row_ok (merged_limits months None e owner i now)" for models i months e owner now
    by (rule merged_row_ok) simp_all
qed (simp_all add: on_parts rows_ok_def upsert_end_user_def delete_end_user_def touch_end_user_def Let_def)

text \<open>Between the statements of a management request, generation requests are admitted and settled.\<close>

definition gate_traffic :: "desk world \<Rightarrow> bool" where
  "gate_traffic w = (\<forall>n. \<exists>f. traffic f \<and> wd_other w n = (\<lambda>d. d\<lparr>dk_gate := f (dk_gate d)\<rparr>))"

text \<open>C20: Every row of limits stays well formed through any management requests, by anybody and with any
  database faults, also while generation requests are admitted and settled between their statements:
  caps are not negative, a soft budget lies below the hard one, the end of a window is set exactly when it
  has a length, which can be read, and no limit is zero.\<close>

theorem rows_stay_well_formed:
  assumes "rows_ok (dk_gate d)" and "\<forall>(w, ctx0, r) \<in> set rs. gate_traffic w"
  shows "rows_ok (dk_gate (serve_limits env rs d))"
proof (rule wf_desk.run_keeps [OF _ assms(1)])
  have "calm (\<lambda>d :: desk. rows_ok (dk_gate d)) w" if traffic: "gate_traffic w" for w
    unfolding calm_def
  proof (intro allI impI)
    fix n and d :: desk
    assume "rows_ok (dk_gate d)"
    moreover obtain f where "traffic f" "wd_other w n = (\<lambda>d :: desk. d\<lparr>dk_gate := f (dk_gate d)\<rparr>)"
      using traffic unfolding gate_traffic_def by blast
    ultimately show "rows_ok (dk_gate (wd_other w n d))" using wf_gate.traffic_keeps by simp
  qed
  then show "\<forall>(w, ctx0, r) \<in> set rs. calm (\<lambda>d. rows_ok (dk_gate d)) w \<and> (\<forall>ctx. ctx0 = Some ctx \<longrightarrow> True)"
    using assms(2) by auto
qed

section \<open>What an edit does to a budget\<close>

lemma validated_outcome:
  assumes "solitary w" "validate_input w i s = (Inr (), s')"
  shows "limits_problem (dk_models (rn_db s)) i = None \<and> rn_db s' = rn_db s"
  using assms by (auto simp: validate_input_def outcomes split: option.splits prod.splits)

text \<open>The result of an edit, when nobody else acts.\<close>

lemma put_outcome:
  assumes "solitary w" "serve (do_put env w ctx e org i) d = (LimitsIs l, d')"
  shows "limits_problem (dk_models d) i = None"
    and "\<exists>now. l = merged_limits (dv_months env) (ga_limits (dk_gate d) e) e org i now"
    and "ga_limits (dk_gate d') = (ga_limits (dk_gate d))(e \<mapsto> l)"
proof -
  have "early (\<lambda>r. r \<noteq> LimitsIs l) (do_put env w ctx e org i)"
    unfolding do_put_def validate_input_def audit_def peek_def access_def Let_def
    by (intro early_intros) (auto simp: early_def bad_request_def internal_def outcomes split: option.splits prod.splits)
  then obtain s' where run: "do_put env w ctx e org i \<lparr>rn_db = d, rn_calls = 0\<rparr> = (Inr (LimitsIs l), s')" "d' = rn_db s'"
    using early_serve [of "\<lambda>r. r \<noteq> LimitsIs l", OF _ assms(2)] by auto
  obtain s1 where v: "validate_input w i \<lparr>rn_db = d, rn_calls = 0\<rparr> = (Inr (), s1)"
    using run(1) by (auto simp: do_put_def outcomes)
  note v1 = validated_outcome [OF assms(1) v]
  show "limits_problem (dk_models d) i = None" using v1 by simp
  have l: "\<exists>now. l = merged_limits (dv_months env) (ga_limits (dk_gate d) e) e org i now"
    using run v v1 assms(1) by (auto simp: do_put_def outcomes on_parts get_limits_def reads_def Let_def)
  then show "\<exists>now. l = merged_limits (dv_months env) (ga_limits (dk_gate d) e) e org i now" .
  have g: "dk_gate d' = snd (upsert_limits l 0 (dk_gate d))"
    using run v v1 assms(1)
    by (auto simp: do_put_def outcomes audit_def on_parts get_limits_def reads_def Let_def upsert_limits_def cong: option.case_cong)
  have "el_entity l = e" "el_created_at l = (case ga_limits (dk_gate d) e of Some old \<Rightarrow> el_created_at old | None \<Rightarrow> el_created_at l)"
    using l by (auto simp: merged_limits_def split: option.split)
  then show "ga_limits (dk_gate d') = (ga_limits (dk_gate d))(e \<mapsto> l)"
    by (simp add: g upsert_limits_def Let_def)
qed

text \<open>C40: An edit that changes the length of a budget's window after the old window has lapsed, but before
  anything has rolled it forward, carries the spend of the lapsed window over into the new one. Had
  the row been read first, the same spend would have been reset to zero.\<close>

theorem edit_carries_lapsed_spend:
  assumes "alone w" "\<And>n. wd_now w n = now" "ga_limits (dk_gate d) e = Some old"
    and lapsed: "lapsed_window_next_reset (dv_months env) (el_duration old) (el_reset_at old) now = Some (Some t)"
    and edit: "serve (do_put env w ctx e org i) d = (LimitsIs l, d')" and changed: "li_duration i \<noteq> el_duration old"
  shows "el_spend l = el_spend old \<and> ga_limits (dk_gate d') e = Some l
    \<and> (li_duration i \<noteq> None \<longrightarrow> (\<exists>t'. el_reset_at l = Some t'))
    \<and> (\<exists>g d2. serve (do_get env w e) d = (LimitsIs g, d2) \<and> el_spend g = 0)"
proof -
  have solitary: "solitary w" using assms(1) by (simp add: alone_def solitary_def)
  note put = put_outcome [OF solitary edit]
  obtain now' where l: "l = merged_limits (dv_months env) (Some old) e org i now'" using put(2) assms(3) by auto
  have "\<exists>t'. el_reset_at l = Some t'" if "li_duration i \<noteq> None"
    using that changed valid_input(3) [OF put(1)] by (auto simp: l merged_limits_def initial_reset_at_def)
  moreover have "el_spend l = el_spend old" by (simp add: l merged_limits_def)
  moreover have "ga_limits (dk_gate d') e = Some l" by (simp add: put(3))
  moreover have "\<exists>g d2. serve (do_get env w e) d = (LimitsIs g, d2) \<and> el_spend g = 0"
  proof (cases "el_reset_at old")
    case None
    then show ?thesis using lapsed by (auto simp: lapsed_window_next_reset_def split: option.splits)
  next
    case (Some t0)
    then show ?thesis
      using assms(1,2,3) lapsed
      by (simp add: serve_def do_get_def current_limits_def need_def andthen_def stmt_at_def stmt_alone on_gate_def
          get_limits_def reads_def draw_def roll_limits_window_def row_update_def ret_def must_def)
  qed
  ultimately show ?thesis by blast
qed

section \<open>Instances\<close>

definition demo_row :: entity_limits where
  "demo_row = \<lparr>el_entity = (EOrg, ''o1''), el_org_id = Some ''o1'', el_max_budget = Some 10, el_soft_budget = None,
     el_duration = Some ''1d'', el_spend = 7, el_reset_at = Some (days 1), el_alerted_at = None, el_allowed_models = None,
     el_max_parallel = None, el_rpm = None, el_metadata = None, el_created_at = 0, el_updated_at = 0\<rparr>"

definition demo_desk :: desk where
  "demo_desk = \<lparr>dk_store = demo_store,
     dk_gate = \<lparr>ga_keys = [], ga_limits = [(EOrg, ''o1'') \<mapsto> demo_row], ga_end_users = Map.empty,
       ga_slots = Map.empty, ga_limiter = Map.empty, ga_audit = [], ga_alerts = [], ga_calls = 0\<rparr>,
     dk_runtime_models = [], dk_model_states = [], dk_provider_configs = [], dk_settings = [],
     dk_models = \<lparr>cp_models = [], cp_by_provider = [], cp_runtime = [], cp_disabled = []\<rparr>,
     dk_providers = registry_new,
     dk_overrides = \<lparr>ov_model_routes = None, ov_gateway = \<lparr>gs_cost_markup_percent = None, gs_alert_webhook_url = None,
       gs_default_end_user_max_budget_usd = None, gs_default_end_user_budget_duration = None\<rparr>\<rparr>\<rparr>"

definition calm_desk :: "desk world" where
  "calm_desk = \<lparr>wd_fault = (\<lambda>_. None), wd_other = (\<lambda>_ d. d), wd_now = (\<lambda>_. days 2), wd_uuid = of_nat, wd_bytes = (\<lambda>n. [of_nat n])\<rparr>"

definition demo_desk_env :: desk_env where
  "demo_desk_env = \<lparr>dv_ids = demo_env, dv_managed = True, dv_mode = Hosted, dv_months = (\<lambda>_ _. None),
     dv_parse_uuid = (\<lambda>_. None), dv_parse_url = (\<lambda>_. Inl []), dv_config_routes = [], dv_config_markup = 0,
     dv_config_providers = [], dv_model_of_body = (\<lambda>_. Inl []), dv_model_text = (\<lambda>_. Inl []), dv_model_of_text = (\<lambda>_. Inl []),
     dv_routes_text = (\<lambda>_. Inl []), dv_routes_of_text = (\<lambda>_. None), dv_settings_text = (\<lambda>_. Inl []),
     dv_settings_of_text = (\<lambda>_. None), dv_secrets_text = (\<lambda>_. Inl []), dv_secrets_of_text = (\<lambda>_. Inl []),
     dv_provider_text = (\<lambda>_. None), dv_provider_of_text = (\<lambda>_. None), dv_lower = (\<lambda>s. s)\<rparr>"

definition weekly :: limits_input where
  "weekly = \<lparr>li_max_budget = Some 10, li_soft_budget = None, li_duration = Some ''1w'', li_allowed_models = None,
     li_max_parallel = Some 2, li_rpm = None, li_metadata = None\<rparr>"

definition visitor :: key_context where
  "visitor = \<lparr>kc_key_id = Some 5, kc_scopes = [SAdmin], kc_rpm_limit = None, kc_quota_remaining = None,
     kc_webhook_url = None, kc_user = None, kc_permissions = [], kc_session_id = None, kc_org_id = Some ''o2'', kc_app_id = None\<rparr>"

lemma calm_desk_simps [simp]: "solitary calm_desk" "alone calm_desk" "wd_now calm_desk n = days 2"
  by (simp_all add: calm_desk_def solitary_def alone_def)

theorem limits_of_others_untouched_witness:
  "holdings_of ''o1'' (serve_limits demo_desk_env
     [(calm_desk, Some visitor, PutOrgLimits ''o1'' weekly), (calm_desk, Some visitor, DeleteOrgLimits ''o1''),
      (calm_desk, Some visitor, BlockEndUser None ''e'')] demo_desk) = holdings_of ''o1'' demo_desk"
proof (rule limits_of_others_untouched)
  show "ids_ok ''o1'' demo_desk"
    by (simp add: ids_ok_def no_colon_def app_ids_unique_def demo_desk_def demo_store_def keyed_def demo_row_def)
  have "stranger ''o1'' (holdings_of ''o1'' demo_desk) visitor"
    by (simp add: stranger_def visitor_def is_platform_admin_def holdings_of_def keys_of_def demo_desk_def
        demo_store_def no_colon_def Let_def)
  then show "\<forall>(w, ctx0, r) \<in> set [(calm_desk, Some visitor, PutOrgLimits ''o1'' weekly), (calm_desk, Some visitor, DeleteOrgLimits ''o1''),
      (calm_desk, Some visitor, BlockEndUser None ''e'')]. calm (intact ''o1'' (holdings_of ''o1'' demo_desk)) w
      \<and> (\<forall>ctx. ctx0 = Some ctx \<longrightarrow> stranger ''o1'' (holdings_of ''o1'' demo_desk) ctx)"
    by simp
qed

definition root :: key_context where
  "root = visitor\<lparr>kc_key_id := None, kc_org_id := None\<rparr>"

theorem rows_stay_well_formed_witness:
  "rows_ok (dk_gate (serve_limits demo_desk_env [(calm_desk, Some root, PutOrgLimits ''o1'' weekly)] demo_desk))"
proof (rule rows_stay_well_formed)
  have "parse_duration ''1d'' = Inr (Fixed (days 1))" by code_simp
  then show "rows_ok (dk_gate demo_desk)"
    by (simp add: rows_ok_def demo_desk_def demo_row_def row_ok_def window_set_def)
  have "traffic (\<lambda>g. g)" by (rule traffic.idle)
  then have "gate_traffic calm_desk"
    unfolding gate_traffic_def calm_desk_def by (intro allI exI [of _ "\<lambda>g. g"]) simp
  then show "\<forall>(w, ctx0, r) \<in> set [(calm_desk, Some root, PutOrgLimits ''o1'' weekly)]. gate_traffic w" by simp
qed

theorem edit_carries_lapsed_spend_witness:
  "\<exists>l d'. serve (do_put demo_desk_env calm_desk root (EOrg, ''o1'') (Some ''o1'') weekly) demo_desk = (LimitsIs l, d')
     \<and> el_spend l = 7"
proof -
  have "(case lapsed_window_next_reset (dv_months demo_desk_env) (el_duration demo_row) (el_reset_at demo_row) (days 2) of
      Some (Some t) \<Rightarrow> True | _ \<Rightarrow> False)"
    by code_simp
  then obtain t where lapsed: "lapsed_window_next_reset (dv_months demo_desk_env) (el_duration demo_row) (el_reset_at demo_row) (days 2) = Some (Some t)"
    by (auto split: option.splits)
  have "case fst (serve (do_put demo_desk_env calm_desk root (EOrg, ''o1'') (Some ''o1'') weekly) demo_desk) of LimitsIs l \<Rightarrow> True | _ \<Rightarrow> False"
    by code_simp
  then obtain l d' where run: "serve (do_put demo_desk_env calm_desk root (EOrg, ''o1'') (Some ''o1'') weekly) demo_desk = (LimitsIs l, d')"
    by (cases "serve (do_put demo_desk_env calm_desk root (EOrg, ''o1'') (Some ''o1'') weekly) demo_desk")
      (auto split: desk_response.splits)
  have row: "ga_limits (dk_gate demo_desk) (EOrg, ''o1'') = Some demo_row" by (simp add: demo_desk_def)
  have "li_duration weekly \<noteq> el_duration demo_row" by (simp add: weekly_def demo_row_def)
  from edit_carries_lapsed_spend [OF calm_desk_simps(2) calm_desk_simps(3) row lapsed run this]
  have "el_spend l = el_spend demo_row" by blast
  with run show ?thesis by (auto simp: demo_row_def)
qed

end
